(* ===== verification/Prelude.thy ===== *)
theory Prelude
  imports Main "HOL-Library.Word"
begin

text \<open>
  Shared vocabulary of the development: the machine integer types of the C sources, the
  page-granular view of 64-bit addresses, the physical store of 64-bit cells that holds the
  translation tables, and the generic facts on words, lists and function updates that the
  component theories use.  The collection \<open>cell_simps\<close> carries the facts that decide whether
  two table cells coincide.
\<close>

unbundle bit_operations_syntax

section \<open>Machine integers\<close>

type_synonym u8 = "8 word"
type_synonym u16 = "16 word"
type_synonym u32 = "32 word"
type_synonym u64 = "64 word"

named_theorems cell_simps \<open>equality and separation of cells of the store\<close>

lemma unat_and_mask:
  fixes w :: "'a::len word"
  shows "unat (w AND mask n) = unat w mod 2 ^ n"
  by (simp only: take_bit_eq_mask [symmetric] unsigned_take_bit_eq)
    (simp only: take_bit_eq_mod)

lemma unat_drop_bit_div:
  fixes w :: "'a::len word"
  shows "unat (drop_bit n w) = unat w div 2 ^ n"
  by (simp only: unat_drop_bit_eq) (simp only: drop_bit_eq_div)

lemma mask_numerals:
  "(0x1FF :: u64) = mask 9" "(0xFFF :: u64) = mask 12" "(0x1FFFFF :: u64) = mask 21"
  "(0xFFFFFFFFFFFF :: u64) = mask 48"
  by (simp_all add: mask_eq_decr_exp)

lemma unat_and_numerals:
  fixes w :: u64
  shows "unat (w AND 0x1FF) = unat w mod 512"
    and "unat (w AND 0xFFF) = unat w mod 4096"
    and "unat (w AND 0x1FFFFF) = unat w mod 2097152"
    and "unat (w AND 0xFFFFFFFFFFFF) = unat w mod 281474976710656"
  by (simp_all only: mask_numerals unat_and_mask) simp_all

lemma unat_of_nat_small:
  "n < 2 ^ LENGTH('a) \<Longrightarrow> unat (of_nat n :: 'a::len word) = n"
  by (simp add: unat_of_nat)

lemma unat_Suc_word:
  fixes i :: "'a::len word"
  assumes "i < j"
  shows "unat (i + 1) = Suc (unat i)"
proof -
  have "unat i < unat j" using assms by (simp add: word_less_nat_alt)
  moreover have "unat j < 2 ^ LENGTH('a)" by (rule unsigned_less)
  ultimately have "Suc (unat i) < 2 ^ LENGTH('a)" by linarith
  then show ?thesis by (simp add: unat_word_ariths)
qed

section \<open>Pages\<close>

text \<open>A page is 4096 bytes: an address is page aligned when its low twelve bits are zero.\<close>

definition page_aligned :: "u64 \<Rightarrow> bool" where
  "page_aligned a \<longleftrightarrow> a AND 0xFFF = 0"

lemma page_aligned_unat: "page_aligned a \<longleftrightarrow> unat a mod 4096 = 0"
proof -
  have "page_aligned a \<longleftrightarrow> unat (a AND 0xFFF) = 0"
    by (simp add: page_aligned_def flip: unat_eq_0)
  then show ?thesis by (simp add: unat_and_numerals)
qed

lemma page_aligned_and_offset:
  assumes "page_aligned b" and "x < 0x1000"
  shows "b AND x = 0"
proof -
  have "x = x AND mask 12"
    using assms(2) by (simp add: less_mask_eq)
  then have "b AND x = (b AND mask 12) AND x"
    by (metis and.assoc and.commute)
  then show ?thesis
    using assms(1) by (simp add: page_aligned_def mask_numerals)
qed

lemma page_aligned_plus_or:
  "page_aligned b \<Longrightarrow> x < 0x1000 \<Longrightarrow> b + x = b OR x"
  by (simp add: disjunctive_add_eq_or page_aligned_and_offset)

lemma cell_offset_bound:
  fixes i :: u64
  shows "i < 0x200 \<Longrightarrow> 8 * i < 0x1000"
  by (simp add: word_less_nat_alt unat_word_ariths)


section \<open>Strings and bytes in memory\<close>

text \<open>\<open>cstring mem p cs\<close>: at \<open>p\<close> stands the string \<open>cs\<close>, closed by a zero byte.\<close>

fun cstring :: "(u64 \<Rightarrow> u8) \<Rightarrow> u64 \<Rightarrow> u8 list \<Rightarrow> bool" where
  "cstring mem p [] \<longleftrightarrow> mem p = 0"
| "cstring mem p (c # cs) \<longleftrightarrow> mem p = c \<and> c \<noteq> 0 \<and> cstring mem (p + 1) cs"

lemma cstring_nth:
  "cstring mem p cs \<Longrightarrow> i \<le> length cs \<Longrightarrow>
     mem (p + of_nat i) = (if i < length cs then cs ! i else 0)"
proof (induction cs arbitrary: p i)
  case Nil
  then show ?case by simp
next
  case (Cons c cs)
  then show ?case
    using Cons.IH [of "p + 1" "i - 1"] by (cases i) (auto simp: algebra_simps)
qed

definition bytes_at :: "(u64 \<Rightarrow> u8) \<Rightarrow> u64 \<Rightarrow> u8 list \<Rightarrow> bool" where
  "bytes_at mem p v \<longleftrightarrow> (\<forall>i < length v. mem (p + of_nat i) = v ! i)"


lemma bytes_at_Nil [simp]: "bytes_at mem p []"
  by (simp add: bytes_at_def)

lemma bytes_at_Cons [simp]: "bytes_at mem p (c # cs) \<longleftrightarrow> mem p = c \<and> bytes_at mem (p + 1) cs"
proof
  assume b: "bytes_at mem p (c # cs)"
  have "mem (p + 1 + of_nat i) = cs ! i" if "i < length cs" for i
    using b that spec [of "\<lambda>i. i < length (c # cs) \<longrightarrow> mem (p + of_nat i) = (c # cs) ! i" "Suc i"]
    by (simp add: bytes_at_def add.assoc)
  moreover have "mem p = c"
    using b spec [of "\<lambda>i. i < length (c # cs) \<longrightarrow> mem (p + of_nat i) = (c # cs) ! i" 0]
    by (simp add: bytes_at_def)
  ultimately show "mem p = c \<and> bytes_at mem (p + 1) cs" by (simp add: bytes_at_def)
next
  assume b: "mem p = c \<and> bytes_at mem (p + 1) cs"
  have "mem (p + of_nat i) = (c # cs) ! i" if "i < length (c # cs)" for i
    using b that by (cases i) (auto simp: bytes_at_def add.assoc)
  then show "bytes_at mem p (c # cs)" by (simp add: bytes_at_def)
qed

end
