(* ===== verification/Bitmap.thy ===== *)
theory Bitmap
  imports Prelude
begin

text \<open>
  The physical page allocator of \<^verbatim>\<open>kernel/core/mmu.c\<close>: a byte array with one bit per 4 KiB
  page (\<open>check_free\<close>, \<open>deallocate_mem\<close>, \<open>find_free\<close>, \<open>set_bitmap\<close>, \<open>allocate_mem\<close>,
  \<open>free_pages\<close>).  The pointer \<open>buffer\<close> of \<open>AllocateMem\<close> is modelled by the bytes it names, as
  a function of the index.  The result array that the caller passes (\<open>BitIndex res[64]\<close> in
  \<open>kmalloc\<close>) is a list of optional entries, \<open>None\<close> for an entry that was never written; a
  write past its end is the error \<open>ResOverflow\<close>.  Loop counters that the code keeps in
  \<open>uint64_t\<close> and that run from 0 below a bound are \<open>nat\<close>.
\<close>

section \<open>Data\<close>

record AllocateMem =
  buffer :: "u64 \<Rightarrow> u8"

record BitIndex =
  bi_index :: u64
  bi_bit :: u8
  bi_valid :: bool

datatype mm_error = ResOverflow | ResUninit

section \<open>Operations\<close>

definition check_free :: "AllocateMem \<Rightarrow> u64 \<Rightarrow> u8 \<Rightarrow> bool" where
  "check_free mem i b =
     (let temp = buffer mem i; v = push_bit (unat b) 1
      in if temp AND v \<noteq> 0 then False else True)"

definition deallocate_mem :: "AllocateMem \<Rightarrow> u64 \<Rightarrow> u8 \<Rightarrow> bool \<times> AllocateMem" where
  "deallocate_mem mem i b =
     (if check_free mem i b then (True, mem)
      else let v = push_bit (unat b) (0 :: u8);
               mem' = mem\<lparr>buffer := (buffer mem)(i := v)\<rparr>
           in (check_free mem' i b, mem'))"

lemma bit_distance_decreases:
  fixes b :: u8
  assumes "b \<noteq> 7"
  shows "unat (6 - b) < unat (7 - b)"
proof -
  have "7 - b \<noteq> 0" using assms by auto
  then have "unat ((7 - b) - 1) < unat (7 - b)"
    by (rule measure_unat)
  moreover have "(7 - b) - 1 = 6 - b" by simp
  ultimately show ?thesis by metis
qed

lemma index_distance_decreases:
  fixes i :: u64
  assumes "i \<le> 16385"
  shows "16386 - unat (i + 1) < 16386 - unat i"
proof -
  have "unat i \<le> 16385" using assms by (simp add: word_le_nat_alt)
  moreover have "unat (i + 1) = Suc (unat i)"
    using assms by (intro unat_Suc_word [where j = 16386]) (simp add: word_le_nat_alt word_less_nat_alt)
  ultimately show ?thesis by simp
qed

text \<open>
  The loop of \<open>find_free\<close> from the position \<open>(i, b)\<close>: it ends because either the index
  grows (it is at most 16385) or, at the same index, the bit gets closer to 7.
\<close>

function find_free_from :: "AllocateMem \<Rightarrow> u64 \<Rightarrow> u8 \<Rightarrow> BitIndex" where
  "find_free_from mem i b =
     (if i \<le> 16385 then
        (if check_free mem i b then \<lparr>bi_index = i, bi_bit = b, bi_valid = True\<rparr>
         else let b' = b + 1
              in if b' = 8 then find_free_from mem (i + 1) 0 else find_free_from mem i b')
      else \<lparr>bi_index = 0, bi_bit = 0, bi_valid = False\<rparr>)"
  by pat_completeness auto

termination
  by (relation "measures [\<lambda>(m, i, b). 16386 - unat i, \<lambda>(m, i, b). unat (7 - b)]")
    (auto simp: index_distance_decreases bit_distance_decreases)

declare find_free_from.simps [simp del]

definition find_free :: "AllocateMem \<Rightarrow> BitIndex" where
  "find_free mem = find_free_from mem 0 0"

text \<open>The body of the loop of \<open>set_bitmap\<close> that marks a page: OR the bit into its byte.\<close>

definition mark_page :: "AllocateMem \<Rightarrow> BitIndex \<Rightarrow> AllocateMem" where
  "mark_page mem val =
     (let temp = buffer mem (bi_index val); v = push_bit (unat (bi_bit val)) 1
      in mem\<lparr>buffer := (buffer mem)(bi_index val := temp OR v)\<rparr>)"

fun set_bitmap_loop :: "nat \<Rightarrow> nat \<Rightarrow> AllocateMem \<Rightarrow> nat \<Rightarrow> BitIndex option list
    \<Rightarrow> mm_error + (AllocateMem \<times> nat \<times> BitIndex option list)" where
  "set_bitmap_loop 0 i mem t res = Inr (mem, t, res)"
| "set_bitmap_loop (Suc n) i mem t res =
     (let val = find_free mem
      in if bi_valid val then
           (if i < length res
            then set_bitmap_loop n (Suc i) (mark_page mem val) (Suc t) (res[i := Some val])
            else Inl ResOverflow)
         else set_bitmap_loop n (Suc i) mem t res)"

definition set_bitmap :: "AllocateMem \<Rightarrow> u64 \<Rightarrow> BitIndex option list
    \<Rightarrow> mm_error + (bool \<times> AllocateMem \<times> BitIndex option list)" where
  "set_bitmap mem sz res =
     (case set_bitmap_loop (unat sz) 0 mem 0 res of
        Inl e \<Rightarrow> Inl e
      | Inr (mem', t, res') \<Rightarrow> Inr (t = unat sz, mem', res'))"

definition allocate_mem :: "AllocateMem \<Rightarrow> u64 \<Rightarrow> BitIndex option list
    \<Rightarrow> mm_error + (u64 \<times> AllocateMem \<times> BitIndex option list)" where
  "allocate_mem mem sz res =
     (if sz < 4096 then
        (case set_bitmap mem 1 res of
           Inl e \<Rightarrow> Inl e
         | Inr (ok, mem', res') \<Rightarrow> Inr (if ok then 1 else 0, mem', res'))
      else
        (let val = sz div 4096; rem = sz mod 4096;
             val = (if val > 0 \<and> rem > 0 then val + 1 else val)
         in case set_bitmap mem val res of
              Inl e \<Rightarrow> Inl e
            | Inr (ok, mem', res') \<Rightarrow> Inr (if ok then val else 0, mem', res')))"

fun free_pages :: "AllocateMem \<Rightarrow> BitIndex list \<Rightarrow> AllocateMem" where
  "free_pages mem [] = mem"
| "free_pages mem (r # rs) = free_pages (snd (deallocate_mem mem (bi_index r) (bi_bit r))) rs"

definition PHYS_BASE_ADDR :: u64 where "PHYS_BASE_ADDR = 0xC0000000"

definition PHYS_BASE_PAGE :: u64 where "PHYS_BASE_PAGE = drop_bit 12 PHYS_BASE_ADDR"

definition bitindex_to_phys :: "BitIndex \<Rightarrow> u64" where
  "bitindex_to_phys bi =
     (let bitmap_page = bi_index bi * 8 + ucast (bi_bit bi);
          phys_page = PHYS_BASE_PAGE + bitmap_page
      in push_bit 12 phys_page)"

section \<open>The set of pages in use\<close>

text \<open>
  Page \<open>p\<close> of the pool is bit \<open>p mod 8\<close> of byte \<open>p div 8\<close>.  \<open>find_free\<close> looks at the
  bytes 0 to 16385, so the pool it can hand out has 131088 pages.
\<close>

abbreviation BITMAP_PAGES :: nat where "BITMAP_PAGES \<equiv> 131088"

definition page_of :: "u64 \<Rightarrow> u8 \<Rightarrow> nat" where
  "page_of i b = unat i * 8 + unat b"

definition page_number :: "BitIndex \<Rightarrow> nat" where
  "page_number r = page_of (bi_index r) (bi_bit r)"

definition page_used :: "AllocateMem \<Rightarrow> nat \<Rightarrow> bool" where
  "page_used mem p \<longleftrightarrow> bit (buffer mem (of_nat (p div 8))) (p mod 8)"

definition in_pool :: "BitIndex \<Rightarrow> bool" where
  "in_pool r \<longleftrightarrow> bi_valid r \<and> bi_index r \<le> 16385 \<and> bi_bit r < 8"

lemma in_pool_unat: "in_pool r \<Longrightarrow> unat (bi_index r) \<le> 16385 \<and> unat (bi_bit r) < 8"
  by (simp add: in_pool_def word_le_nat_alt word_less_nat_alt)

lemma page_number_bound: "in_pool r \<Longrightarrow> page_number r < BITMAP_PAGES"
  by (drule in_pool_unat) (simp add: page_number_def page_of_def)

lemma page_of_div_mod:
  assumes "unat b < 8"
  shows "page_of i b div 8 = unat i" "page_of i b mod 8 = unat b"
  using assms by (simp_all add: page_of_def)

lemma check_free_iff:
  "unat b < 8 \<Longrightarrow> check_free mem i b \<longleftrightarrow> \<not> page_used mem (page_of i b)"
  by (simp add: check_free_def page_used_def page_of_div_mod bit_iff_and_push_bit_not_eq_0)

lemma of_nat_page_index:
  assumes "p < BITMAP_PAGES"
  shows "unat (of_nat (p div 8) :: u64) = p div 8"
  using assms by (simp add: unat_of_nat)

text \<open>The page after \<open>(i, b)\<close> in the order of the loop.\<close>

lemma page_of_next:
  assumes "i \<le> 16385" and "unat b < 8"
  shows "b + 1 = 8 \<Longrightarrow> page_of (i + 1) 0 = Suc (page_of i b)"
    and "b + 1 \<noteq> 8 \<Longrightarrow> page_of i (b + 1) = Suc (page_of i b) \<and> unat (b + 1) < 8"
proof -
  have i1: "unat (i + 1) = Suc (unat i)"
    using assms(1) by (intro unat_Suc_word [where j = 16386]) (simp add: word_le_nat_alt word_less_nat_alt)
  have b1: "unat (b + 1) = Suc (unat b)"
    using assms(2) by (intro unat_Suc_word [where j = 8]) (simp add: word_less_nat_alt)
  { assume "b + 1 = 8"
    then have "Suc (unat b) = 8" using b1 by simp
    then show "page_of (i + 1) 0 = Suc (page_of i b)" by (simp add: page_of_def i1) }
  { assume "b + 1 \<noteq> 8"
    then have "unat (b + 1) \<noteq> unat (8 :: u8)" by (simp add: word_unat_eq_iff)
    then have "Suc (unat b) \<noteq> 8" using b1 by simp
    then show "page_of i (b + 1) = Suc (page_of i b) \<and> unat (b + 1) < 8"
      using assms(2) b1 by (simp add: page_of_def) }
qed

section \<open>find_free returns the first free page\<close>

definition first_free_from :: "AllocateMem \<Rightarrow> nat \<Rightarrow> BitIndex \<Rightarrow> bool" where
  "first_free_from mem start r \<longleftrightarrow>
     (if bi_valid r
      then in_pool r \<and> start \<le> page_number r \<and> \<not> page_used mem (page_number r) \<and>
           (\<forall>p. start \<le> p \<and> p < page_number r \<longrightarrow> page_used mem p)
      else (\<forall>p. start \<le> p \<and> p < BITMAP_PAGES \<longrightarrow> page_used mem p))"

lemma first_free_from_step:
  assumes "page_used mem start" and "first_free_from mem (Suc start) r"
  shows "first_free_from mem start r"
proof -
  have "page_used mem p" if "start \<le> p" "Suc start \<le> p \<Longrightarrow> page_used mem p" for p
    using assms(1) that by (cases "p = start") simp_all
  then show ?thesis
    using assms(2) by (auto simp: first_free_from_def split: if_splits)
qed

lemma find_free_from_correct:
  "unat b < 8 \<Longrightarrow> first_free_from mem (page_of i b) (find_free_from mem i b)"
proof (induction mem i b rule: find_free_from.induct)
  case (1 mem i b)
  consider (past) "\<not> i \<le> 16385" | (free) "i \<le> 16385" "check_free mem i b"
    | (wrap) "i \<le> 16385" "\<not> check_free mem i b" "b + 1 = 8"
    | (nextbit) "i \<le> 16385" "\<not> check_free mem i b" "b + 1 \<noteq> 8"
    by blast
  then show ?case
  proof cases
    case past
    then have "\<not> page_of i b < BITMAP_PAGES"
      by (simp add: page_of_def word_le_nat_alt)
    with past show ?thesis
      by (auto simp: find_free_from.simps [of mem i b] first_free_from_def)
  next
    case free
    with "1.prems" show ?thesis
      by (auto simp: find_free_from.simps [of mem i b] first_free_from_def in_pool_def
          page_number_def check_free_iff word_less_nat_alt)
  next
    case wrap
    then have "first_free_from mem (page_of (i + 1) 0) (find_free_from mem (i + 1) 0)"
      using "1.IH"(1) [OF wrap(1,2) refl wrap(3)] by simp
    moreover have "find_free_from mem i b = find_free_from mem (i + 1) 0"
      using wrap by (subst find_free_from.simps) (simp only: Let_def if_True if_False simp_thms)
    ultimately show ?thesis
      using wrap(2) page_of_next(1) [OF wrap(1) "1.prems" wrap(3)] check_free_iff [OF "1.prems"]
      by (metis first_free_from_step)
  next
    case nextbit
    note nx = page_of_next(2) [OF nextbit(1) "1.prems" nextbit(3)]
    then have "first_free_from mem (page_of i (b + 1)) (find_free_from mem i (b + 1))"
      using "1.IH"(2) [OF nextbit(1,2) refl nextbit(3)] by simp
    with nextbit nx show ?thesis
      using check_free_iff [OF "1.prems"]
      by (simp add: find_free_from.simps [of mem i b] first_free_from_step)
  qed
qed

lemma find_free_from_invalid:
  "\<not> bi_valid (find_free_from mem i b) \<Longrightarrow>
     find_free_from mem i b = \<lparr>bi_index = 0, bi_bit = 0, bi_valid = False\<rparr>"
proof (induction mem i b rule: find_free_from.induct)
  case (1 mem i b)
  then show ?case
    by (subst (asm) (3) find_free_from.simps, subst find_free_from.simps)
      (simp add: Let_def split: if_splits)
qed

lemma find_free_invalid:
  "\<not> bi_valid (find_free mem) \<Longrightarrow>
     find_free mem = \<lparr>bi_index = 0, bi_bit = 0, bi_valid = False\<rparr>"
  by (simp add: find_free_def find_free_from_invalid)

lemma find_free_correct: "first_free_from mem 0 (find_free mem)"
  using find_free_from_correct [of 0 mem 0] by (simp add: find_free_def page_of_def)

section \<open>Marking and clearing bits\<close>

lemma of_nat_index_eq:
  fixes i :: u64
  assumes "p < BITMAP_PAGES"
  shows "(of_nat (p div 8) = i) \<longleftrightarrow> p div 8 = unat i"
  unfolding word_unat_eq_iff of_nat_page_index [OF assms(1)] ..

lemma page_used_mark:
  assumes "in_pool r" and "p < BITMAP_PAGES"
  shows "page_used (mark_page mem r) p \<longleftrightarrow> p = page_number r \<or> page_used mem p"
proof -
  note u = in_pool_unat [OF assms(1)]
  have ix: "(of_nat (p div 8) = bi_index r) \<longleftrightarrow> p div 8 = unat (bi_index r)"
    using assms by (simp add: of_nat_index_eq in_pool_def)
  have "p mod 8 < 8" by simp
  have eq: "p = page_number r \<longleftrightarrow> p div 8 = unat (bi_index r) \<and> p mod 8 = unat (bi_bit r)"
    using u by (metis div_mult_mod_eq page_number_def page_of_def page_of_div_mod)
  show ?thesis
  proof (cases "p div 8 = unat (bi_index r)")
    case True
    then have "of_nat (p div 8) = bi_index r" using ix by simp
    then show ?thesis
      using True eq u by (auto simp: page_used_def mark_page_def bit_simps)
  next
    case False
    then show ?thesis using ix eq by (simp add: page_used_def mark_page_def)
  qed
qed

lemma page_used_deallocate:
  assumes "i \<le> 16385" and "unat b < 8" and "p < BITMAP_PAGES"
  shows "page_used (snd (deallocate_mem mem i b)) p \<longleftrightarrow>
    page_used mem p \<and> (page_used mem (page_of i b) \<longrightarrow> p div 8 \<noteq> unat i)"
  using assms of_nat_index_eq [of p i]
  by (auto simp: deallocate_mem_def check_free_iff page_used_def page_of_div_mod)

section \<open>The pool as a bump allocator\<close>

text \<open>
  The kernel never calls \<open>free_pages\<close>, so the pages in use are always a prefix of the pool:
  \<open>bump mem n\<close> says that exactly the pages below \<open>n\<close> are taken.
\<close>

definition bump :: "AllocateMem \<Rightarrow> nat \<Rightarrow> bool" where
  "bump mem n \<longleftrightarrow> n \<le> BITMAP_PAGES \<and> (\<forall>p < BITMAP_PAGES. page_used mem p \<longleftrightarrow> p < n)"

definition page_entry :: "nat \<Rightarrow> BitIndex" where
  "page_entry p = \<lparr>bi_index = of_nat (p div 8), bi_bit = of_nat (p mod 8), bi_valid = True\<rparr>"

lemma page_entry_number:
  assumes "p < BITMAP_PAGES"
  shows "in_pool (page_entry p)" "page_number (page_entry p) = p"
proof -
  have i: "unat (of_nat (p div 8) :: u64) = p div 8" by (rule of_nat_page_index [OF assms])
  have b: "unat (of_nat (p mod 8) :: u8) = p mod 8" by (simp add: unat_of_nat)
  have "p div 8 \<le> 16385" using assms by simp
  moreover have "p mod 8 < 8" by simp
  ultimately show "in_pool (page_entry p)"
    by (simp only: in_pool_def page_entry_def BitIndex.simps word_le_nat_alt word_less_nat_alt i b)
      simp
  show "page_number (page_entry p) = p"
    by (simp only: page_number_def page_of_def page_entry_def BitIndex.simps i b) simp
qed

lemma in_pool_page_entry: "in_pool r \<Longrightarrow> r = page_entry (page_number r)"
proof -
  assume r: "in_pool r"
  note u = in_pool_unat [OF r]
  have "page_number r div 8 = unat (bi_index r)" "page_number r mod 8 = unat (bi_bit r)"
    using u by (simp_all add: page_number_def page_of_div_mod)
  then show ?thesis
    using r by (cases r) (simp add: page_entry_def in_pool_def)
qed

lemma find_free_bump:
  assumes "bump mem n" and "n < BITMAP_PAGES"
  shows "find_free mem = page_entry n"
proof -
  have ff: "first_free_from mem 0 (find_free mem)" by (rule find_free_correct)
  have v: "bi_valid (find_free mem)"
    using ff assms by (auto simp: first_free_from_def bump_def split: if_splits)
  then have p: "in_pool (find_free mem)" using ff by (simp add: first_free_from_def)
  have "\<not> page_number (find_free mem) < n"
    using ff v assms page_number_bound [OF p] by (simp add: first_free_from_def bump_def)
  moreover have "\<not> n < page_number (find_free mem)"
    using ff v assms by (auto simp: first_free_from_def bump_def)
  ultimately show ?thesis
    using in_pool_page_entry [OF p] by (metis nat_neq_iff)
qed

lemma find_free_full:
  assumes "bump mem BITMAP_PAGES"
  shows "\<not> bi_valid (find_free mem)"
proof
  assume v: "bi_valid (find_free mem)"
  have ff: "first_free_from mem 0 (find_free mem)" by (rule find_free_correct)
  with v have "in_pool (find_free mem)" "\<not> page_used mem (page_number (find_free mem))"
    by (simp_all add: first_free_from_def)
  with assms show False by (simp add: bump_def page_number_bound)
qed

lemma bump_mark:
  assumes "bump mem n" and "n < BITMAP_PAGES"
  shows "bump (mark_page mem (page_entry n)) (Suc n)"
  using assms by (auto simp: bump_def page_used_mark page_entry_number less_Suc_eq)

lemma set_bitmap_loop_bump:
  assumes "bump mem n" and "n + k \<le> BITMAP_PAGES" and "i + k \<le> length res"
  shows "\<exists>mem'. set_bitmap_loop k i mem t res =
           Inr (mem', t + k, take i res @ map (Some \<circ> page_entry) [n..<n + k] @ drop (i + k) res)
         \<and> bump mem' (n + k)"
  using assms
proof (induction k arbitrary: n i mem t res)
  case 0
  then show ?case by simp
next
  case (Suc k)
  then have n: "n < BITMAP_PAGES" and i: "i < length res" by simp_all
  note ff = find_free_bump [OF Suc.prems(1) n]
  let ?res = "res[i := Some (page_entry n)]"
  obtain mem' where m: "set_bitmap_loop k (Suc i) (mark_page mem (page_entry n)) (Suc t) ?res =
      Inr (mem', Suc t + k,
        take (Suc i) ?res @ map (Some \<circ> page_entry) [Suc n..<Suc n + k] @ drop (Suc i + k) ?res)"
    and b: "bump mem' (Suc n + k)"
    using Suc.IH [OF bump_mark [OF Suc.prems(1) n], of "Suc i" ?res "Suc t"] Suc.prems by auto
  have "take (Suc i) ?res = take i res @ [Some (page_entry n)]"
    using i by (simp add: take_Suc_conv_app_nth)
  moreover have "[n..<n + Suc k] = n # [Suc n..<Suc n + k]"
    by (simp add: upt_conv_Cons)
  moreover have "bi_valid (page_entry n)" by (simp add: page_entry_def)
  ultimately show ?case
    using m b ff i by (simp add: Let_def)
qed

text \<open>What happens when the request does not fit: the result array overflows, or the pool ends.\<close>

lemma set_bitmap_loop_overflow:
  assumes "bump mem n" and "n + (length res - i) < BITMAP_PAGES"
    and "length res < i + k" and "i \<le> length res"
  shows "set_bitmap_loop k i mem t res = Inl ResOverflow"
  using assms
proof (induction k arbitrary: n i mem t res)
  case 0
  then show ?case by simp
next
  case (Suc k)
  then have n: "n < BITMAP_PAGES" by simp
  have v: "bi_valid (page_entry n)" by (simp add: page_entry_def)
  note ff = find_free_bump [OF Suc.prems(1) n]
  show ?case
  proof (cases "i < length res")
    case False
    then show ?thesis using ff v by (simp add: Let_def)
  next
    case True
    have "set_bitmap_loop k (Suc i) (mark_page mem (page_entry n)) (Suc t)
            (res[i := Some (page_entry n)]) = Inl ResOverflow"
      using Suc.prems True by (intro Suc.IH [OF bump_mark [OF Suc.prems(1) n]]) auto
    then show ?thesis using ff v True by (simp add: Let_def)
  qed
qed

lemma set_bitmap_loop_full:
  "bump mem BITMAP_PAGES \<Longrightarrow> set_bitmap_loop k i mem t res = Inr (mem, t, res)"
  by (induction k arbitrary: i) (simp_all add: Let_def find_free_full)

lemma set_bitmap_loop_add:
  "set_bitmap_loop (j + k) i mem t res =
     (case set_bitmap_loop j i mem t res of Inl e \<Rightarrow> Inl e
      | Inr (mem', t', res') \<Rightarrow> set_bitmap_loop k (i + j) mem' t' res')"
  by (induction j arbitrary: i mem t res) (simp_all add: Let_def split: sum.splits prod.splits)

section \<open>allocate_mem: the number of pages\<close>

definition pages_needed :: "u64 \<Rightarrow> nat" where
  "pages_needed sz = max 1 ((unat sz + 4095) div 4096)"

lemma pages_needed_pos: "0 < pages_needed sz"
  by (simp add: pages_needed_def)

lemma pages_needed_bound: "pages_needed sz \<le> 2 ^ 52"
proof -
  have "unat sz < 2 ^ 64" using unsigned_less [of sz] by simp
  then show ?thesis by (simp add: pages_needed_def)
qed

lemma ceiling_pages:
  fixes a :: nat
  assumes "4096 \<le> a"
  shows "(if 0 < a div 4096 \<and> 0 < a mod 4096 then a div 4096 + 1 else a div 4096)
    = max 1 ((a + 4095) div 4096)"
proof -
  define q r where "q = a div 4096" and "r = a mod 4096"
  have a: "a = 4096 * q + r" and r: "r < 4096" and q: "0 < q"
    using assms by (simp_all add: q_def r_def div_greater_zero_iff)
  have "(a + 4095) div 4096 = q + (r + 4095) div 4096"
    unfolding a by simp
  moreover have "(r + 4095) div 4096 = (if 0 < r then 1 else 0)"
    using r by auto
  ultimately show ?thesis
    using q unfolding q_def [symmetric] r_def [symmetric] by auto
qed

lemma allocate_mem_count:
  assumes "\<not> sz < 4096"
  shows "unat (if sz div 4096 > 0 \<and> sz mod 4096 > 0 then sz div 4096 + 1 else sz div 4096)
         = pages_needed sz"
proof -
  have lt: "unat sz < 2 ^ 64" using unsigned_less [of sz] by simp
  have k: "unat (4096 :: u64) = 4096" by simp
  have d: "unat (sz div 4096) = unat sz div 4096" and m: "unat (sz mod 4096) = unat sz mod 4096"
    by (simp_all only: unat_div unat_mod k)
  have ge: "4096 \<le> unat sz" using assms by (simp add: word_less_nat_alt)
  have "unat (sz div 4096) < unat (2 ^ 52 + 1 :: u64)" using lt by (simp add: d)
  then have s: "unat (sz div 4096 + 1) = Suc (unat sz div 4096)"
    unfolding d [symmetric] by (intro unat_Suc_word) (simp only: word_less_nat_alt)
  have c: "(sz div 4096 > 0 \<and> sz mod 4096 > 0) = (0 < unat sz div 4096 \<and> 0 < unat sz mod 4096)"
    by (simp only: word_less_nat_alt d m unat_0)
  show ?thesis
    unfolding pages_needed_def ceiling_pages [OF ge, symmetric] c if_distrib [of unat] s d
    by (simp only: Suc_eq_plus1)
qed

lemma allocate_mem_eq:
  "allocate_mem mem sz res =
     (case set_bitmap_loop (pages_needed sz) 0 mem 0 res of
        Inl e \<Rightarrow> Inl e
      | Inr (mem', t, res') \<Rightarrow>
          Inr (if t = pages_needed sz then of_nat (pages_needed sz) else 0, mem', res'))"
proof (cases "sz < 4096")
  case True
  then have "unat sz < 4096" by (simp add: word_less_nat_alt)
  then have "pages_needed sz = 1" by (simp add: pages_needed_def)
  with True show ?thesis
    by (simp add: allocate_mem_def set_bitmap_def split: sum.split prod.split)
next
  case False
  define val where
    "val = (if sz div 4096 > 0 \<and> sz mod 4096 > 0 then sz div 4096 + 1 else sz div 4096)"
  have u: "unat val = pages_needed sz"
    unfolding val_def using False by (rule allocate_mem_count)
  then have v: "of_nat (pages_needed sz) = val" by (simp flip: u)
  show ?thesis
    using False
    by (simp only: allocate_mem_def Let_def val_def [symmetric] set_bitmap_def u v if_False)
      (simp split: sum.split prod.split)
qed

lemma allocate_mem_next_pages:
  assumes "bump mem n" and "n + pages_needed sz \<le> BITMAP_PAGES"
    and "pages_needed sz \<le> length res"
  shows "\<exists>mem'. allocate_mem mem sz res =
      Inr (of_nat (pages_needed sz), mem',
           map (Some \<circ> page_entry) [n..<n + pages_needed sz] @ drop (pages_needed sz) res)
    \<and> bump mem' (n + pages_needed sz)"
  using set_bitmap_loop_bump [OF assms(1,2), of 0 res 0] assms(3)
  by (auto simp: allocate_mem_eq)

section \<open>Freeing\<close>

lemma same_byte_iff:
  "in_pool r \<Longrightarrow> p div 8 = unat (bi_index r) \<longleftrightarrow> p div 8 = page_number r div 8"
  using in_pool_unat [of r] by (simp add: page_number_def page_of_div_mod)

lemma page_used_deallocate_entry:
  assumes "in_pool r" and "p < BITMAP_PAGES"
  shows "page_used (snd (deallocate_mem mem (bi_index r) (bi_bit r))) p \<longleftrightarrow>
    page_used mem p \<and> \<not> (page_used mem (page_number r) \<and> p div 8 = page_number r div 8)"
  using page_used_deallocate [of "bi_index r" "bi_bit r" p mem] assms in_pool_unat [OF assms(1)]
    same_byte_iff [OF assms(1), of p]
  by (auto simp: in_pool_def page_number_def)

lemma page_used_free_pages:
  assumes "\<forall>r \<in> set rs. in_pool r" and "p < BITMAP_PAGES"
  shows "page_used (free_pages mem rs) p \<longleftrightarrow> page_used mem p \<and>
    \<not> (\<exists>r \<in> set rs. page_used mem (page_number r) \<and> p div 8 = page_number r div 8)"
  using assms(1)
proof (induction rs arbitrary: mem)
  case Nil
  then show ?case by simp
next
  case (Cons r rs)
  let ?mem = "snd (deallocate_mem mem (bi_index r) (bi_bit r))"
  have r: "in_pool r" and rs: "\<forall>r \<in> set rs. in_pool r" using Cons.prems by simp_all
  have used: "page_used ?mem q \<longleftrightarrow> page_used mem q \<and>
      \<not> (page_used mem (page_number r) \<and> q div 8 = page_number r div 8)"
    if "q < BITMAP_PAGES" for q
    using page_used_deallocate_entry [OF r that] .
  show ?case
    using Cons.IH [OF rs, of ?mem] used [OF assms(2)] rs
    by (auto simp: used page_number_bound)
qed

section \<open>Properties of the allocator\<close>

text \<open>
  C18. \<open>find_free\<close> is the search for the least free page: it returns the position of the first
  page that is not in use, and the invalid entry exactly when all 131088 pages are in use.
\<close>

theorem find_free_least:
  "find_free mem =
     (if \<exists>p < BITMAP_PAGES. \<not> page_used mem p
      then page_entry (LEAST p. p < BITMAP_PAGES \<and> \<not> page_used mem p)
      else \<lparr>bi_index = 0, bi_bit = 0, bi_valid = False\<rparr>)"
proof (cases "bi_valid (find_free mem)")
  case True
  let ?n = "page_number (find_free mem)"
  have ff: "in_pool (find_free mem)" "\<not> page_used mem ?n" "\<forall>p < ?n. page_used mem p"
    using find_free_correct [of mem] True by (simp_all add: first_free_from_def)
  have b: "?n < BITMAP_PAGES" using ff(1) by (rule page_number_bound)
  have "(LEAST p. p < BITMAP_PAGES \<and> \<not> page_used mem p) = ?n"
    using ff b by (intro Least_equality) (auto simp: not_less [symmetric])
  then show ?thesis using ff b in_pool_page_entry [OF ff(1)] by auto
next
  case False
  then have "\<forall>p < BITMAP_PAGES. page_used mem p"
    using find_free_correct [of mem] by (simp add: first_free_from_def)
  with False show ?thesis by (auto simp: find_free_invalid)
qed

text \<open>
  C19. \<open>allocate_mem\<close> refines a bump allocator: when the pages below \<open>n\<close> are in use and the
  request fits in the pool and in the result array, it returns the number of pages of the
  request (the size rounded up to whole pages, at least one), takes exactly the next pages and
  writes their entries, in order, to the front of the result array.
\<close>

theorem allocate_mem_bump:
  assumes "bump mem n" and "n + pages_needed sz \<le> BITMAP_PAGES"
    and "pages_needed sz \<le> length res"
  shows "\<exists>mem'. allocate_mem mem sz res =
      Inr (of_nat (pages_needed sz), mem',
           map (Some \<circ> page_entry) [n..<n + pages_needed sz] @ drop (pages_needed sz) res)
    \<and> bump mem' (n + pages_needed sz)"
  using assms by (rule allocate_mem_next_pages)

definition empty_bitmap :: AllocateMem where
  "empty_bitmap = \<lparr>buffer = (\<lambda>_. 0)\<rparr>"

lemma bump_empty: "bump empty_bitmap 0"
  by (simp add: bump_def page_used_def empty_bitmap_def)

theorem allocate_mem_bump_witness:
  "\<exists>mem'. allocate_mem empty_bitmap 16000 (replicate 64 None) =
      Inr (4, mem', map (Some \<circ> page_entry) [0..<4] @ replicate 60 None) \<and> bump mem' 4"
proof -
  have p: "pages_needed 16000 = 4" by (simp add: pages_needed_def)
  show ?thesis
    using allocate_mem_bump [OF bump_empty, of 16000 "replicate 64 None"] by (simp add: p)
qed

text \<open>
  Freeing is not inverse to allocation page by page: \<open>deallocate_mem\<close> computes
  \<open>0 << bit\<close> and stores it, so when the named page is in use the call clears the whole byte,
  and all eight pages of that byte become free, whoever holds them.
\<close>

lemma deallocate_frees_whole_byte:
  assumes "p < BITMAP_PAGES" and "q < BITMAP_PAGES" and "p div 8 = q div 8"
    and "page_used mem p"
  shows "\<not> page_used (snd (deallocate_mem mem (bi_index (page_entry p)) (bi_bit (page_entry p)))) q"
  using assms page_used_deallocate_entry [OF page_entry_number(1) [OF assms(1)] assms(2), of mem]
  by (simp add: page_entry_number)

definition two_pages :: AllocateMem where
  "two_pages = mark_page (mark_page empty_bitmap (page_entry 0)) (page_entry 1)"

lemma bump_two_pages: "bump two_pages 2"
proof -
  have "bump (mark_page empty_bitmap (page_entry 0)) (Suc 0)"
    by (rule bump_mark [OF bump_empty]) simp
  then have "bump two_pages (Suc (Suc 0))"
    unfolding two_pages_def One_nat_def by (rule bump_mark) simp
  then show ?thesis by (simp add: numeral_2_eq_2)
qed

lemma deallocate_frees_whole_byte_witness:
  "page_used two_pages 1 \<and>
   \<not> page_used (snd (deallocate_mem two_pages (bi_index (page_entry 0)) (bi_bit (page_entry 0)))) 1"
  using deallocate_frees_whole_byte [of 0 1 two_pages] bump_two_pages by (simp add: bump_def)

text \<open>
  Allocating a run of pages that starts a fresh byte of the bitmap and freeing every entry
  that was returned restores the set of pages in use.
\<close>

lemma allocate_free_roundtrip:
  assumes "bump mem (8 * m)" and "8 * m + pages_needed sz \<le> BITMAP_PAGES"
    and "allocate_mem mem sz (replicate 64 None) = Inr (c, mem', res)"
    and "pages_needed sz \<le> 64"
  shows "bump (free_pages mem' (map the (take (unat c) res))) (8 * m)"
proof -
  let ?k = "pages_needed sz"
  obtain mem1 where a: "allocate_mem mem sz (replicate 64 None) =
      Inr (of_nat ?k, mem1, map (Some \<circ> page_entry) [8 * m..<8 * m + ?k]
        @ drop ?k (replicate 64 None))"
    and b: "bump mem1 (8 * m + ?k)"
    using allocate_mem_next_pages [OF assms(1,2), of "replicate 64 None"] assms(4) by auto
  have "unat (of_nat ?k :: u64) = ?k"
    using pages_needed_bound [of sz] by (simp add: unat_of_nat)
  then have entries: "map the (take (unat c) res) = map page_entry [8 * m..<8 * m + ?k]"
    and mem1: "mem' = mem1"
    using a assms(3) by (auto simp: o_def)
  have inp: "\<forall>r \<in> set (map page_entry [8 * m..<8 * m + ?k]). in_pool r"
    using assms(2) by (auto intro: page_entry_number(1))
  have "page_used (free_pages mem' (map page_entry [8 * m..<8 * m + ?k])) p \<longleftrightarrow> p < 8 * m"
    if p: "p < BITMAP_PAGES" for p
  proof -
    have "(\<exists>r \<in> set (map page_entry [8 * m..<8 * m + ?k]).
        page_used mem' (page_number r) \<and> p div 8 = page_number r div 8) \<longleftrightarrow>
      (\<exists>q. 8 * m \<le> q \<and> q < 8 * m + ?k \<and> p div 8 = q div 8)"
      using b assms(2) by (auto simp: mem1 bump_def page_entry_number)
    moreover have "p < 8 * m + ?k \<and> \<not> (\<exists>q. 8 * m \<le> q \<and> q < 8 * m + ?k \<and> p div 8 = q div 8)
        \<longleftrightarrow> p < 8 * m"
    proof -
      have "p div 8 < m" if "p < 8 * m" using that by (simp add: less_mult_imp_div_less mult.commute)
      moreover have "m \<le> q div 8" if "8 * m \<le> q" for q using that by simp
      ultimately show ?thesis by (metis leD not_le trans_less_add1)
    qed
    moreover have "page_used mem' p \<longleftrightarrow> p < 8 * m + ?k"
      using b p by (simp add: mem1 bump_def)
    ultimately show ?thesis
      unfolding page_used_free_pages [OF inp p] by (simp only:)
  qed
  then show ?thesis using assms(1) by (simp add: entries bump_def)
qed

lemma allocate_free_roundtrip_witness:
  "\<exists>c mem' res. allocate_mem empty_bitmap 5000 (replicate 64 None) = Inr (c, mem', res) \<and>
     bump (free_pages mem' (map the (take (unat c) res))) 0"
proof -
  have p: "pages_needed 5000 = 2" by (simp add: pages_needed_def)
  obtain c mem' res where a: "allocate_mem empty_bitmap 5000 (replicate 64 None) = Inr (c, mem', res)"
    using set_bitmap_loop_bump [OF bump_empty, of 2 0 "replicate 64 None" 0]
    by (auto simp: allocate_mem_eq p)
  then have "bump (free_pages mem' (map the (take (unat c) res))) (8 * 0)"
    by (intro allocate_free_roundtrip [of empty_bitmap 0 5000]) (simp_all add: bump_empty p)
  then show ?thesis using a by auto
qed

end
