(* ===== verification/PageTable.thy ===== *)
theory PageTable
  imports Prelude
begin

text \<open>
  Translation table descriptors and the tables of \<^verbatim>\<open>kernel/core/mmu.c\<close>: index computation,
  descriptor encoders, \<open>clear_table\<close>, \<open>set_table_entry\<close>, \<open>mmu_init\<close>, \<open>add_virtio_page\<close>.
  Table memory is a store of 64-bit cells keyed by physical address.  The kernel writes a table
  either at its physical address (identity mapped) or at that address with the upper sixteen
  bits set; both name the same cell, which \<open>cell\<close> expresses by dropping the upper bits, and
  \<open>mmu_init_walk\<close> shows that the tables \<open>mmu_init\<close> builds do translate both spellings
  so.  \<open>walk\<close> is not code of the kernel: it is the stage 1 translation of the ARMv8-A
  architecture (4 KiB granule, 48-bit addresses, as section 2 of \<^verbatim>\<open>kernel/docs.md\<close> describes
  it), the specification that the tables are written for.
\<close>

section \<open>Addresses, indices, descriptors\<close>

definition convert_to_physical :: "u64 \<Rightarrow> u64" where
  "convert_to_physical a = 0x0000FFFFFFFFFFFF AND a"

definition kernal_to_user_space :: "u64 \<Rightarrow> u64" where
  "kernal_to_user_space virtual_kernel_address = virtual_kernel_address AND 0x0000FFFFFFFFFFFF"

definition calc_index_l0 :: "u64 \<Rightarrow> u64" where
  "calc_index_l0 va = drop_bit 39 va AND 0x1FF"

definition calc_index_l1 :: "u64 \<Rightarrow> u64" where
  "calc_index_l1 va = drop_bit 30 va AND 0x1FF"

definition calc_index_l2 :: "u64 \<Rightarrow> u64" where
  "calc_index_l2 va = drop_bit 21 va AND 0x1FF"

definition calc_index_l3 :: "u64 \<Rightarrow> u64" where
  "calc_index_l3 va = drop_bit 12 va AND 0x1FF"

definition DESC_VALID :: u64 where "DESC_VALID = push_bit 0 1"
definition DESC_TABLE :: u64 where "DESC_TABLE = push_bit 1 1"
definition DESC_PAGE :: u64 where "DESC_PAGE = push_bit 1 1"
definition DESC_AF :: u64 where "DESC_AF = push_bit 10 1"
definition DESC_AP :: u64 where "DESC_AP = push_bit 6 1"

definition make_table_desc :: "u64 \<Rightarrow> u64" where
  "make_table_desc next_table_phys_base =
     (let desc = push_bit 12 (drop_bit 12 (next_table_phys_base AND NOT 0xFFF))
      in desc OR (DESC_VALID OR DESC_TABLE))"

definition make_l3_block_desc :: "u64 \<Rightarrow> u64" where
  "make_l3_block_desc phys_base =
     (let desc = push_bit 0 phys_base AND NOT 0xFFF
      in desc OR (DESC_VALID OR DESC_PAGE OR DESC_AF OR DESC_AP))"

definition make_block_desc :: "u64 \<Rightarrow> u64" where
  "make_block_desc phys_base =
     (let desc = push_bit 12 (drop_bit 12 (phys_base AND NOT 0xFFF))
      in desc OR (DESC_VALID OR DESC_AF))"

definition make_page_entry :: "u64 \<Rightarrow> u64" where
  "make_page_entry physical_base =
     (let desc = push_bit 12 (drop_bit 12 (physical_base AND NOT 0xFFF))
      in desc OR (DESC_VALID OR DESC_TABLE))"

section \<open>Table memory\<close>

type_synonym cells = "u64 \<Rightarrow> u64"

definition cell :: "u64 \<Rightarrow> u64 \<Rightarrow> u64" where
  "cell table idx = convert_to_physical (table + 8 * idx)"

definition set_table_entry :: "u64 \<Rightarrow> u64 \<Rightarrow> u64 \<Rightarrow> cells \<Rightarrow> cells" where
  "set_table_entry table idx desc m = m(cell table idx := desc)"

definition clear_cells :: "u64 \<Rightarrow> nat \<Rightarrow> cells \<Rightarrow> cells" where
  "clear_cells base n m = fold (\<lambda>i m. m(cell base (of_nat i) := 0)) [0..<n] m"

definition clear_table :: "u64 \<Rightarrow> cells \<Rightarrow> cells" where
  "clear_table table_phys_base m = clear_cells table_phys_base 512 m"

section \<open>The architecture's translation\<close>

definition table_address :: "u64 \<Rightarrow> u64" where
  "table_address desc = desc AND 0x0000FFFFFFFFF000"

definition walk :: "cells \<Rightarrow> u64 \<Rightarrow> u64 \<Rightarrow> u64 option" where
  "walk m ttbr va =
     (let d0 = m (cell ttbr (calc_index_l0 va)) in
      if d0 AND 3 \<noteq> 3 then None
      else let d1 = m (cell (table_address d0) (calc_index_l1 va)) in
      if d1 AND 3 = 1 then Some ((d1 AND 0x0000FFFFC0000000) OR (va AND 0x3FFFFFFF))
      else if d1 AND 3 \<noteq> 3 then None
      else let d2 = m (cell (table_address d1) (calc_index_l2 va)) in
      if d2 AND 3 = 1 then Some ((d2 AND 0x0000FFFFFFE00000) OR (va AND 0x1FFFFF))
      else if d2 AND 3 \<noteq> 3 then None
      else let d3 = m (cell (table_address d2) (calc_index_l3 va)) in
      if d3 AND 3 = 3 then Some ((d3 AND 0x0000FFFFFFFFF000) OR (va AND 0xFFF))
      else None)"

section \<open>Facts on indices, descriptors and cells\<close>

lemma convert_to_physical_and: "convert_to_physical a = a AND 0xFFFFFFFFFFFF"
  by (simp add: convert_to_physical_def and.commute)

lemma unat_convert_to_physical: "unat (convert_to_physical a) = unat a mod 2 ^ 48"
  by (simp add: convert_to_physical_and unat_and_numerals)

lemma kernal_to_user_space_eq: "kernal_to_user_space a = convert_to_physical a"
  by (simp add: kernal_to_user_space_def convert_to_physical_and)

lemma unat_calc_index:
  "unat (calc_index_l0 va) = unat va div 2 ^ 39 mod 512"
  "unat (calc_index_l1 va) = unat va div 2 ^ 30 mod 512"
  "unat (calc_index_l2 va) = unat va div 2 ^ 21 mod 512"
  "unat (calc_index_l3 va) = unat va div 2 ^ 12 mod 512"
  by (simp_all only: calc_index_l0_def calc_index_l1_def calc_index_l2_def calc_index_l3_def
      unat_and_numerals unat_drop_bit_div)

lemma calc_index_bound [simp]:
  "calc_index_l0 va < 0x200" "calc_index_l1 va < 0x200"
  "calc_index_l2 va < 0x200" "calc_index_l3 va < 0x200"
  by (simp_all add: word_less_nat_alt unat_calc_index)

lemma desc_constants [simp]:
  "DESC_VALID = 1" "DESC_TABLE = 2" "DESC_PAGE = 2" "DESC_AF = 0x400" "DESC_AP = 0x40"
  by (simp_all add: DESC_VALID_def DESC_TABLE_def DESC_PAGE_def DESC_AF_def DESC_AP_def)

lemma push_drop_12: "push_bit 12 (drop_bit 12 (a AND NOT 0xFFF)) = (a :: u64) AND NOT 0xFFF"
  unfolding mask_numerals(2)
  by (intro bit_word_eqI) (auto simp: bit_simps)

lemma make_desc_or:
  "make_table_desc a = (a AND NOT 0xFFF) OR 3"
  "make_page_entry a = (a AND NOT 0xFFF) OR 3"
  "make_block_desc a = (a AND NOT 0xFFF) OR 0x401"
  "make_l3_block_desc a = (a AND NOT 0xFFF) OR 0x443"
  by (simp_all only: make_table_desc_def make_page_entry_def make_block_desc_def
      make_l3_block_desc_def Let_def push_drop_12 desc_constants push_bit_0_id id_apply) simp_all

text \<open>Cells of two tables coincide only when the tables and the indices do.\<close>

lemma page_aligned_convert: "page_aligned b \<Longrightarrow> page_aligned (convert_to_physical b)"
  by (simp add: page_aligned_def convert_to_physical_def and.assoc)

lemma offset_and_masks:
  fixes x :: u64
  assumes "x < 0x1000"
  shows "x AND 0xFFFFFFFFFFFF = x" "x AND 0xFFF = x"
proof -
  have "unat x < 4096" using assms by (simp add: word_less_nat_alt)
  then show "x AND 0xFFFFFFFFFFFF = x" "x AND 0xFFF = x"
    by (simp_all add: word_unat_eq_iff unat_and_numerals)
qed

lemma page_part_plus:
  assumes "page_aligned b" and "x < 0x1000"
  shows "convert_to_physical (b + x) = convert_to_physical b + x"
    and "(b + x) AND 0xFFF = x"
proof -
  have c: "convert_to_physical b + x = convert_to_physical b OR x"
    using page_aligned_convert [OF assms(1)] assms(2) by (rule page_aligned_plus_or)
  show "convert_to_physical (b + x) = convert_to_physical b + x"
    unfolding c page_aligned_plus_or [OF assms]
    by (simp only: convert_to_physical_and bit.conj_disj_distrib2 offset_and_masks [OF assms(2)])
  show "(b + x) AND 0xFFF = x"
    unfolding page_aligned_plus_or [OF assms]
    using assms(1) by (simp add: bit.conj_disj_distrib2 offset_and_masks [OF assms(2)] page_aligned_def)
qed

lemma times_8_inject:
  fixes i j :: u64
  assumes "i < 0x200" "j < 0x200"
  shows "8 * i = 8 * j \<longleftrightarrow> i = j"
proof -
  have "unat i < 512" "unat j < 512" using assms by (simp_all add: word_less_nat_alt)
  then have "unat (8 * i) = 8 * unat i" "unat (8 * j) = 8 * unat j"
    by (simp_all add: unat_word_ariths)
  then show ?thesis by (simp add: word_unat_eq_iff)
qed

lemma cell_eq_iff [cell_simps]:
  assumes "page_aligned b" "page_aligned b'" "i < 0x200" "i' < 0x200"
  shows "cell b i = cell b' i' \<longleftrightarrow> convert_to_physical b = convert_to_physical b' \<and> i = i'"
proof
  note o = cell_offset_bound [OF assms(3)] cell_offset_bound [OF assms(4)]
  note c = page_part_plus [OF assms(1) o(1)] page_part_plus [OF assms(2) o(2)]
  note d = page_part_plus(2) [OF page_aligned_convert [OF assms(1)] o(1)]
    page_part_plus(2) [OF page_aligned_convert [OF assms(2)] o(2)]
  assume eq: "cell b i = cell b' i'"
  then have eq': "convert_to_physical b + 8 * i = convert_to_physical b' + 8 * i'"
    by (simp only: cell_def c)
  then have ix: "8 * i = 8 * i'" using d by metis
  moreover have "convert_to_physical b = convert_to_physical b'"
    using eq' unfolding ix by (simp only: add_right_cancel)
  ultimately show "convert_to_physical b = convert_to_physical b' \<and> i = i'"
    using times_8_inject [OF assms(3,4)] by blast
next
  assume "convert_to_physical b = convert_to_physical b' \<and> i = i'"
  then show "cell b i = cell b' i'"
    using page_part_plus(1) [OF assms(1) cell_offset_bound [OF assms(3)]]
      page_part_plus(1) [OF assms(2) cell_offset_bound [OF assms(4)]]
    by (simp add: cell_def)
qed

lemma cell_convert: "page_aligned b \<Longrightarrow> i < 0x200 \<Longrightarrow> cell (convert_to_physical b) i = cell b i"
  by (subst cell_eq_iff) (simp_all add: page_aligned_convert, simp add: convert_to_physical_and and.assoc)

lemma clear_cells_apply:
  "clear_cells base n m a = (if \<exists>i < n. a = cell base (of_nat i) then 0 else m a)"
  by (induction n) (auto simp: clear_cells_def less_Suc_eq)

lemma clear_table_apply:
  "clear_table base m a = (if \<exists>i < 512. a = cell base (of_nat i) then 0 else m a)"
  by (simp only: clear_table_def clear_cells_apply)

lemma index_of_nat:
  fixes i :: u64
  assumes "i < 0x200"
  shows "\<exists>n < 512. i = of_nat n"
  using assms by (intro exI [of _ "unat i"]) (simp add: word_less_nat_alt)

lemma clear_table_cell:
  assumes "page_aligned b" "page_aligned b'" "i < 0x200"
  shows "clear_table b' m (cell b i) =
    (if convert_to_physical b = convert_to_physical b' then 0 else m (cell b i))"
proof -
  have "(\<exists>n < 512. cell b i = cell b' (of_nat n)) \<longleftrightarrow>
      (\<exists>n < 512. convert_to_physical b = convert_to_physical b' \<and> i = of_nat n)"
    using assms by (auto simp: cell_eq_iff word_less_nat_alt unat_of_nat)
  then show ?thesis using index_of_nat [OF assms(3)] by (simp add: clear_table_apply)
qed

section \<open>mmu_init\<close>

abbreviation PHYS_KERNEL_BASE :: u64 where "PHYS_KERNEL_BASE \<equiv> 0x0000000080000000"
abbreviation VIRT_KERNEL_BASE :: u64 where "VIRT_KERNEL_BASE \<equiv> 0xffff000080000000"
abbreviation PHYS_REGION_2_BASE :: u64 where "PHYS_REGION_2_BASE \<equiv> 0x0000000009000000"
abbreviation VIRT_REGION_2_BASE :: u64 where "VIRT_REGION_2_BASE \<equiv> 0xffff000082400000"
abbreviation DTB_BASE :: u64 where "DTB_BASE \<equiv> 0x40000000"
abbreviation VIRT_DTB_BASE :: u64 where "VIRT_DTB_BASE \<equiv> 0xffff000085400000"
abbreviation STACK_TOP :: u64 where "STACK_TOP \<equiv> 0x00000000801F0000"
abbreviation L0_BASE_PHYS :: u64 where "L0_BASE_PHYS \<equiv> 0x0000000080020000"
abbreviation L1_BASE_PHYS :: u64 where "L1_BASE_PHYS \<equiv> 0x0000000080040000"
abbreviation L2_BASE_PHYS :: u64 where "L2_BASE_PHYS \<equiv> 0x0000000080060000"
abbreviation L2_INDEX3_BASE_PHYS :: u64 where "L2_INDEX3_BASE_PHYS \<equiv> 0x0000000080080000"
abbreviation L3_INDEX0_BASE_PHYS :: u64 where "L3_INDEX0_BASE_PHYS \<equiv> 0x00000000800C0000"
abbreviation VIRTUAL_GICD_BASE :: u64 where "VIRTUAL_GICD_BASE \<equiv> 0xffff000081400000"
abbreviation GICD_BASE :: u64 where "GICD_BASE \<equiv> 0x0000000008000000"
abbreviation VIRTIO_REG_RANGE :: u64 where "VIRTIO_REG_RANGE \<equiv> 0xffff000086400000"
abbreviation USER_PROCESS_1_TABLE_START_WRITABLE :: u64
  where "USER_PROCESS_1_TABLE_START_WRITABLE \<equiv> 0xFFFF000080A00000"
abbreviation USER_PROCESS_1_TABLE_START :: u64
  where "USER_PROCESS_1_TABLE_START \<equiv> 0x80A00000"
abbreviation USER_PROCESS_2_TABLE_START :: u64
  where "USER_PROCESS_2_TABLE_START \<equiv> USER_PROCESS_1_TABLE_START + 0x00060000"
abbreviation USER_PROCESS_2_TABLE_START_WRITABLE :: u64
  where "USER_PROCESS_2_TABLE_START_WRITABLE \<equiv> USER_PROCESS_1_TABLE_START_WRITABLE + 0x00060000"

text \<open>
  The linker symbol \<open>__block_l2_memory_start\<close> is the parameter \<open>l2mem\<close>; the linker script
  aligns it to a page, and it lies in the first 2 MiB of the image (the built
  \<^verbatim>\<open>kernel.elf\<close> has \<open>0x8008e000\<close>).
\<close>

definition mmu_init_tables :: "u64 \<Rightarrow> cells \<Rightarrow> cells" where
  "mmu_init_tables l2mem m =
    (let m = clear_table L0_BASE_PHYS m;
         m = clear_table L1_BASE_PHYS m;
         m = clear_table L2_BASE_PHYS m;
         m = clear_table L2_INDEX3_BASE_PHYS m;
         m = clear_table L3_INDEX0_BASE_PHYS m;
         l3_table_address = (l2mem AND 0x0000FFFFFFFFFFFF) + (512 * 0);
         l3_table_address_writable = 0xFFFF000000000000 OR l3_table_address;
         m = set_table_entry L0_BASE_PHYS (calc_index_l0 VIRT_KERNEL_BASE)
               (make_table_desc L1_BASE_PHYS) m;
         m = set_table_entry L0_BASE_PHYS (calc_index_l0 PHYS_KERNEL_BASE)
               (make_table_desc L1_BASE_PHYS) m;
         m = set_table_entry L1_BASE_PHYS (calc_index_l1 VIRT_KERNEL_BASE)
               (make_table_desc L2_BASE_PHYS) m;
         m = set_table_entry L1_BASE_PHYS (calc_index_l1 PHYS_KERNEL_BASE)
               (make_table_desc L2_BASE_PHYS) m;
         m = set_table_entry L2_BASE_PHYS (calc_index_l2 VIRT_KERNEL_BASE)
               (make_block_desc PHYS_KERNEL_BASE) m;
         m = set_table_entry L2_BASE_PHYS (calc_index_l2 PHYS_KERNEL_BASE)
               (make_block_desc PHYS_KERNEL_BASE) m;
         m = set_table_entry L2_BASE_PHYS (calc_index_l2 VIRT_REGION_2_BASE)
               (make_block_desc PHYS_REGION_2_BASE) m;
         m = set_table_entry L2_BASE_PHYS (calc_index_l2 USER_PROCESS_1_TABLE_START_WRITABLE)
               (make_block_desc USER_PROCESS_1_TABLE_START) m;
         m = set_table_entry L2_BASE_PHYS (calc_index_l2 VIRTUAL_GICD_BASE)
               (make_block_desc GICD_BASE) m;
         m = set_table_entry L2_BASE_PHYS (calc_index_l2 VIRT_DTB_BASE)
               (make_block_desc DTB_BASE) m;
         m = set_table_entry L2_BASE_PHYS (calc_index_l2 STACK_TOP)
               (make_block_desc STACK_TOP) m
     in set_table_entry L2_BASE_PHYS (calc_index_l2 l3_table_address_writable)
          (make_block_desc l3_table_address) m)"

record mmu_regs =
  MAIR_EL1 :: u64
  TCR_EL1 :: u64
  TTBR1_EL1 :: u64
  TTBR0_EL1 :: u64
  SCTLR_EL1 :: u64

definition mmu_init_regs :: "mmu_regs \<Rightarrow> mmu_regs" where
  "mmu_init_regs r =
    (let mair = push_bit 0 0x00 OR push_bit 8 0xFF;
         tcr = 0;
         tcr = tcr OR push_bit 0 16;
         tcr = tcr OR push_bit 16 16;
         tcr = tcr OR push_bit 14 0;
         tcr = tcr OR push_bit 30 2;
         tcr = tcr OR push_bit 12 3;
         tcr = tcr OR push_bit 28 3;
         tcr = tcr OR push_bit 10 1;
         tcr = tcr OR push_bit 8 1;
         tcr = tcr OR push_bit 26 1;
         tcr = tcr OR push_bit 24 1;
         tcr = tcr OR push_bit 32 5;
         ttbr1 = L0_BASE_PHYS;
         sctlr = SCTLR_EL1 r OR push_bit 0 1 OR push_bit 2 1 OR push_bit 12 1
     in r\<lparr>MAIR_EL1 := mair, TCR_EL1 := tcr, TTBR1_EL1 := ttbr1, TTBR0_EL1 := ttbr1,
          SCTLR_EL1 := sctlr\<rparr>)"

definition mmu_init :: "u64 \<Rightarrow> cells \<times> mmu_regs \<Rightarrow> cells \<times> mmu_regs" where
  "mmu_init l2mem s = (mmu_init_tables l2mem (fst s), mmu_init_regs (snd s))"

definition add_virtio_page :: "u64 \<Rightarrow> cells \<Rightarrow> cells" where
  "add_virtio_page reg m =
     (let l2_idx = calc_index_l2 VIRTIO_REG_RANGE;
          l2_desc2 = make_block_desc reg
      in set_table_entry L2_BASE_PHYS l2_idx l2_desc2 m)"

section \<open>The tables after mmu_init\<close>

lemma unat_and_upper_mask:
  "unat ((a :: u64) AND (mask 48 AND NOT (mask n))) = unat a mod 2 ^ 48 div 2 ^ n * 2 ^ n"
proof -
  have eq: "a AND (mask 48 AND NOT (mask n)) = push_bit n (drop_bit n (a AND mask 48))"
    by (intro bit_word_eqI) (auto simp: bit_simps)
  have lt: "unat a mod 2 ^ 48 div 2 ^ n * 2 ^ n < 2 ^ 64"
  proof -
    have "unat a mod 2 ^ 48 div 2 ^ n * 2 ^ n \<le> unat a mod 2 ^ 48"
      by (rule div_times_less_eq_dividend)
    also have "\<dots> < 2 ^ 48" by simp
    also have "(2 :: nat) ^ 48 \<le> 2 ^ 64" by simp
    finally show ?thesis .
  qed
  have "unat (push_bit n (drop_bit n (a AND mask 48)))
      = take_bit 64 (unat a mod 2 ^ 48 div 2 ^ n * 2 ^ n)"
    by (simp only: unsigned_push_bit_eq unat_drop_bit_div unat_and_mask)
      (simp only: push_bit_eq_mult, simp)
  then show ?thesis
    unfolding eq using lt by (simp only: take_bit_nat_eq_self)
qed

lemma upper_mask_numerals:
  "(0xFFFFFFE00000 :: u64) = mask 48 AND NOT (mask 21)"
  "(0xFFFFFFFFF000 :: u64) = mask 48 AND NOT (mask 12)"
  by (simp_all add: mask_eq_decr_exp)

lemma unat_and_block_part:
  "unat ((a :: u64) AND 0xFFFFFFE00000) = unat a mod 2 ^ 48 div 2 ^ 21 * 2 ^ 21"
  unfolding upper_mask_numerals by (rule unat_and_upper_mask)

lemma unat_and_page_part:
  "unat ((a :: u64) AND 0xFFFFFFFFF000) = unat a mod 2 ^ 48 div 2 ^ 12 * 2 ^ 12"
  unfolding upper_mask_numerals by (rule unat_and_upper_mask)

lemma desc_decode:
  "make_table_desc a AND 3 = 3" "make_l3_block_desc a AND 3 = 3" "make_block_desc a AND 3 = 1"
  "table_address (make_table_desc a) = a AND 0xFFFFFFFFF000"
  "make_l3_block_desc a AND 0xFFFFFFFFF000 = a AND 0xFFFFFFFFF000"
  "make_block_desc a AND 0xFFFFFFE00000 = a AND 0xFFFFFFE00000"
  by (simp_all add: make_desc_or table_address_def bit.conj_disj_distrib2 and.assoc)

lemma page_aligned_and_page_part:
  assumes "page_aligned a"
  shows "a AND 0xFFFFFFFFF000 = convert_to_physical a"
proof -
  have "unat a mod 2 ^ 48 mod 2 ^ 12 = unat a mod 2 ^ 12"
    by (rule mod_mod_cancel) (simp add: le_imp_power_dvd)
  also have "\<dots> = 0" using assms by (simp add: page_aligned_unat)
  finally have "unat a mod 2 ^ 48 div 2 ^ 12 * 2 ^ 12 = unat a mod 2 ^ 48"
    by (metis add.right_neutral div_mult_mod_eq)
  then show ?thesis
    unfolding word_unat_eq_iff unat_and_page_part unat_convert_to_physical .
qed

lemma init_indices [simp]:
  "calc_index_l0 VIRT_KERNEL_BASE = 0" "calc_index_l0 PHYS_KERNEL_BASE = 0"
  "calc_index_l1 VIRT_KERNEL_BASE = 2" "calc_index_l1 PHYS_KERNEL_BASE = 2"
  "calc_index_l2 VIRT_KERNEL_BASE = 0" "calc_index_l2 PHYS_KERNEL_BASE = 0"
  "calc_index_l2 VIRT_REGION_2_BASE = 18"
  "calc_index_l2 USER_PROCESS_1_TABLE_START_WRITABLE = 5"
  "calc_index_l2 VIRTUAL_GICD_BASE = 10" "calc_index_l2 VIRT_DTB_BASE = 42"
  "calc_index_l2 STACK_TOP = 0" "calc_index_l2 VIRTIO_REG_RANGE = 50"
  by (simp_all add: calc_index_l0_def calc_index_l1_def calc_index_l2_def)

text \<open>The l3 pool of the linker script lies in the 2 MiB block of the kernel image.\<close>

definition in_image :: "u64 \<Rightarrow> bool" where
  "in_image l2mem \<longleftrightarrow> page_aligned l2mem \<and> 0x80000000 \<le> l2mem \<and> l2mem < 0x80200000"

lemma in_image_unat:
  assumes "in_image l2mem"
  shows "2147483648 \<le> unat l2mem" "unat l2mem < 2149580800" "unat l2mem mod 4096 = 0"
  using assms by (simp_all add: in_image_def word_le_nat_alt word_less_nat_alt page_aligned_unat)

lemma in_image_convert: "in_image l2mem \<Longrightarrow> convert_to_physical l2mem = l2mem"
  by (drule in_image_unat(2)) (simp add: word_unat_eq_iff unat_convert_to_physical)

lemma in_image_index:
  assumes "in_image l2mem"
  shows "calc_index_l2 (0xFFFF000000000000 OR l2mem) = 0"
proof -
  have "calc_index_l2 (0xFFFF000000000000 OR l2mem) = calc_index_l2 l2mem"
    by (simp add: calc_index_l2_def drop_bit_or bit.conj_disj_distrib2)
  moreover have "unat l2mem div 2 ^ 21 = 1024"
    using in_image_unat [OF assms] by simp
  then have "calc_index_l2 l2mem = 0"
    by (simp add: word_unat_eq_iff unat_calc_index)
  ultimately show ?thesis by simp
qed

lemma in_image_block: "in_image l2mem \<Longrightarrow> l2mem AND 0xFFFFFFE00000 = 0x80000000"
  by (frule in_image_unat(1), drule in_image_unat(2))
    (simp add: word_unat_eq_iff unat_and_block_part)

lemma kernel_table_constants [simp]:
  "page_aligned L0_BASE_PHYS" "page_aligned L1_BASE_PHYS" "page_aligned L2_BASE_PHYS"
  "page_aligned L2_INDEX3_BASE_PHYS" "page_aligned L3_INDEX0_BASE_PHYS"
  "convert_to_physical L0_BASE_PHYS = L0_BASE_PHYS"
  "convert_to_physical L1_BASE_PHYS = L1_BASE_PHYS"
  "convert_to_physical L2_BASE_PHYS = L2_BASE_PHYS"
  "convert_to_physical L2_INDEX3_BASE_PHYS = L2_INDEX3_BASE_PHYS"
  "convert_to_physical L3_INDEX0_BASE_PHYS = L3_INDEX0_BASE_PHYS"
  by (simp_all add: page_aligned_def convert_to_physical_def)

lemma mmu_init_cells:
  assumes "in_image l2mem" and "i < 0x200"
  shows "mmu_init_tables l2mem m (cell L0_BASE_PHYS i) =
           (if i = 0 then make_table_desc L1_BASE_PHYS else 0)"
    and "mmu_init_tables l2mem m (cell L1_BASE_PHYS i) =
           (if i = 2 then make_table_desc L2_BASE_PHYS else 0)"
    and "mmu_init_tables l2mem m (cell L2_BASE_PHYS i) =
           (if i = 0 then make_block_desc l2mem
            else if i = 5 then make_block_desc USER_PROCESS_1_TABLE_START
            else if i = 10 then make_block_desc GICD_BASE
            else if i = 18 then make_block_desc PHYS_REGION_2_BASE
            else if i = 42 then make_block_desc DTB_BASE else 0)"
    and "mmu_init_tables l2mem m (cell L2_INDEX3_BASE_PHYS i) = 0"
    and "mmu_init_tables l2mem m (cell L3_INDEX0_BASE_PHYS i) = 0"
proof -
  have l2: "l2mem AND 0xFFFFFFFFFFFF = l2mem"
    using in_image_convert [OF assms(1)] by (simp add: convert_to_physical_and)
  note unf = mmu_init_tables_def set_table_entry_def Let_def l2 in_image_index [OF assms(1)]
    cell_eq_iff clear_table_cell assms(2)
  show "mmu_init_tables l2mem m (cell L0_BASE_PHYS i) =
           (if i = 0 then make_table_desc L1_BASE_PHYS else 0)"
    by (simp add: unf)
  show "mmu_init_tables l2mem m (cell L1_BASE_PHYS i) =
           (if i = 2 then make_table_desc L2_BASE_PHYS else 0)"
    by (simp add: unf)
  show "mmu_init_tables l2mem m (cell L2_BASE_PHYS i) =
           (if i = 0 then make_block_desc l2mem
            else if i = 5 then make_block_desc USER_PROCESS_1_TABLE_START
            else if i = 10 then make_block_desc GICD_BASE
            else if i = 18 then make_block_desc PHYS_REGION_2_BASE
            else if i = 42 then make_block_desc DTB_BASE else 0)"
    by (simp add: unf)
  show "mmu_init_tables l2mem m (cell L2_INDEX3_BASE_PHYS i) = 0"
    by (simp add: unf)
  show "mmu_init_tables l2mem m (cell L3_INDEX0_BASE_PHYS i) = 0"
    by (simp add: unf)
qed

text \<open>
  The abstract memory map of the boot tables: the 2 MiB blocks of the gigabyte at
  \<open>0x80000000\<close> (in both halves of the address space) and where they lead.
\<close>

definition boot_block :: "u64 \<Rightarrow> u64 option" where
  "boot_block l2_idx =
     (if l2_idx = 0 then Some 0x80000000
      else if l2_idx = 5 then Some 0x80A00000
      else if l2_idx = 10 then Some 0x08000000
      else if l2_idx = 18 then Some 0x09000000
      else if l2_idx = 42 then Some 0x40000000 else None)"

lemma table_address_kernel [simp]:
  "table_address (make_table_desc L1_BASE_PHYS) = L1_BASE_PHYS"
  "table_address (make_table_desc L2_BASE_PHYS) = L2_BASE_PHYS"
  "table_address (make_table_desc L2_INDEX3_BASE_PHYS) = L2_INDEX3_BASE_PHYS"
  by (simp_all add: desc_decode)

text \<open>One walk over the tables of \<open>mmu_init\<close>: level 0 and 1 lead to the table of blocks.\<close>

lemma mmu_init_walk:
  assumes "in_image l2mem"
  shows "walk (mmu_init_tables l2mem m) L0_BASE_PHYS va =
     (if calc_index_l0 va = 0 \<and> calc_index_l1 va = 2
      then map_option (\<lambda>b. b + (va AND 0x1FFFFF)) (boot_block (calc_index_l2 va))
      else None)"
proof -
  have off: "b OR (va AND 0x1FFFFF) = b + (va AND 0x1FFFFF)" if "b AND 0x1FFFFF = 0" for b
  proof -
    have "b AND (va AND 0x1FFFFF) = va AND (b AND 0x1FFFFF)" by (rule and.left_commute)
    then show ?thesis using that by (intro disjunctive_add_eq_or [symmetric]) simp
  qed
  show ?thesis
    by (simp add: walk_def Let_def mmu_init_cells [OF assms] desc_decode in_image_block [OF assms]
        boot_block_def off)
qed

text \<open>
  C7. The tables that \<open>mmu_init\<close> builds, from any previous contents of table memory, translate
  exactly the memory map of the boot code, for every virtual address of either half: the
  kernel image, the process table block, the GIC, the UART and the device tree, each as a
  2 MiB block; every other address faults.  The two block descriptors with bases that are not
  2 MiB aligned (\<open>STACK_TOP\<close> and the l3 pool) overwrite the entry of the kernel image and
  lead to the same block.
\<close>

theorem mmu_init_translation:
  assumes "in_image l2mem"
  shows "walk (mmu_init_tables l2mem m) L0_BASE_PHYS va =
     (if calc_index_l0 va = 0 \<and> calc_index_l1 va = 2
      then map_option (\<lambda>b. b + (va AND 0x1FFFFF)) (boot_block (calc_index_l2 va))
      else None)"
  using assms by (rule mmu_init_walk)

theorem mmu_init_translation_witness:
  "walk (mmu_init_tables 0x8008e000 (\<lambda>_. 0)) L0_BASE_PHYS 0xffff000082400018 = Some 0x09000018"
  using mmu_init_translation [of "0x8008e000" "\<lambda>_. 0" "0xffff000082400018"]
  by (simp add: in_image_def page_aligned_def calc_index_l0_def calc_index_l1_def
      calc_index_l2_def boot_block_def)

end
