(* ===== verification/Kmalloc.thy ===== *)
theory Kmalloc
  imports Bitmap PageTable
begin

text \<open>
  \<open>kmalloc\<close> of \<^verbatim>\<open>kernel/core/mmu.c\<close> and what it calls: \<open>map_pagetable_entry\<close> enters the
  pages of a block into the kernel's tables.  The state \<open>mm_state\<close> is table memory, the static
  \<open>ALLOCATED\<close> and the bitmap \<open>GlobalBitMapArray\<close>.  The parameter \<open>l2mem\<close> is the linker symbol
  \<open>__block_l2_memory_start\<close>.  The locale \<open>page_allocator\<close> is the contract the callers of
  \<open>kmalloc\<close> rely on; it is interpreted on \<open>kmalloc\<close> at the end.
\<close>

section \<open>State and operations\<close>

record mm_state =
  tbl :: cells
  ALLOCATED :: u64
  GlobalBitMapArray :: AllocateMem

definition mem_block :: "u64 \<Rightarrow> u64 \<Rightarrow> u64" where
  "mem_block block_memory_start sz =
     (let max_size = 524288 in if sz \<ge> max_size then 0 else block_memory_start)"

definition init_bitmap :: "(u64 \<Rightarrow> u8) \<Rightarrow> u64 \<Rightarrow> mm_state \<Rightarrow> mm_state" where
  "init_bitmap ram bitmap s =
     s\<lparr>GlobalBitMapArray := \<lparr>buffer = (\<lambda>i. ram (bitmap + i))\<rparr>\<rparr>"

text \<open>The body of the loop of \<open>map_pagetable_entry\<close>, at \<open>current_va\<close> and \<open>physical_va\<close>.\<close>

definition map_one_page :: "u64 \<Rightarrow> u64 \<Rightarrow> u64 \<Rightarrow> cells \<Rightarrow> cells" where
  "map_one_page l2mem current_va physical_va m =
    (let current_l2_writable = 0xFFFF000000000000 OR L2_INDEX3_BASE_PHYS;
         l2_idx = calc_index_l2 current_va;
         l3_table_address = (l2mem AND 0x0000FFFFFFFFFFFF) + (512 * l2_idx);
         l3_table_address_writable = 0xFFFF000000000000 OR l3_table_address;
         l2_desc = make_table_desc l3_table_address;
         m = set_table_entry current_l2_writable l2_idx l2_desc m;
         l3_idx = calc_index_l3 current_va;
         l3_desc = make_l3_block_desc physical_va
     in set_table_entry l3_table_address_writable l3_idx l3_desc m)"

definition map_pages :: "u64 \<Rightarrow> u64 \<Rightarrow> u64 \<Rightarrow> nat \<Rightarrow> cells \<Rightarrow> cells" where
  "map_pages l2mem va pa n m =
     fold (\<lambda>i. map_one_page l2mem (va + 4096 * of_nat i) (pa + 4096 * of_nat i)) [0..<n] m"

definition map_pagetable_entry :: "u64 \<Rightarrow> u64 \<Rightarrow> u64 \<Rightarrow> u64 \<Rightarrow> mm_state \<Rightarrow> bool \<times> mm_state" where
  "map_pagetable_entry l2mem va pa tot s =
    (if tot > 20 then (False, s)
     else
       let l1_global_va = 0xffff0000C0000000;
           l1_idx = calc_index_l1 l1_global_va
       in if l1_idx \<noteq> 3 then (False, s)
       else
         let s = (if ALLOCATED s = 0
                  then s\<lparr>tbl := set_table_entry L1_BASE_PHYS l1_idx
                                 (make_table_desc L2_INDEX3_BASE_PHYS)
                                 (clear_table L3_INDEX0_BASE_PHYS
                                   (clear_cells l2mem (512 * 10 div 8) (tbl s))),
                         ALLOCATED := 1\<rparr>
                  else s)
         in (True, s\<lparr>tbl := map_pages l2mem va pa (unat tot) (tbl s)\<rparr>))"

definition kmalloc :: "u64 \<Rightarrow> u64 \<Rightarrow> mm_state \<Rightarrow> mm_error + (u64 \<times> mm_state)" where
  "kmalloc l2mem sz s =
    (let res = replicate 64 None in
     case allocate_mem (GlobalBitMapArray s) sz res of
       Inl e \<Rightarrow> Inl e
     | Inr (total_allocated, mem', res') \<Rightarrow>
         (case res' ! 0 of
            None \<Rightarrow> Inl ResUninit
          | Some current \<Rightarrow>
              let pa = bitindex_to_phys current;
                  va = pa OR 0xFFFF000000000000;
                  s' = snd (map_pagetable_entry l2mem va pa total_allocated
                              (s\<lparr>GlobalBitMapArray := mem'\<rparr>))
              in Inr (va, s')))"

section \<open>The addresses of the pool\<close>

text \<open>Page \<open>p\<close> of the pool is at \<open>kpa p\<close>; the kernel sees it at \<open>kva p\<close>.\<close>

definition kpa :: "nat \<Rightarrow> u64" where
  "kpa p = 0xC0000000 + 4096 * of_nat p"

definition kva :: "nat \<Rightarrow> u64" where
  "kva p = 0xFFFF0000C0000000 + 4096 * of_nat p"

abbreviation GIB_PAGES :: nat where "GIB_PAGES \<equiv> 262144"

lemma unat_page_offset:
  fixes off :: u64
  assumes "p < GIB_PAGES" and "off < 0x1000"
  shows "unat (4096 * of_nat p + off) = 4096 * p + unat off"
proof -
  have "unat off < 4096" using assms(2) by (simp add: word_less_nat_alt)
  moreover have "unat (of_nat p :: u64) = p" using assms(1) by (simp add: unat_of_nat)
  ultimately show ?thesis using assms(1) by (simp add: unat_word_ariths)
qed

lemma unat_kva:
  assumes "p < GIB_PAGES" and "off < 0x1000"
  shows "unat (kva p + off) = 0xFFFF0000C0000000 + 4096 * p + unat off"
proof -
  note po = unat_page_offset [OF assms]
  have "unat off < 4096" using assms(2) by (simp add: word_less_nat_alt)
  then have "unat (0xFFFF0000C0000000 + (4096 * of_nat p + off))
      = 0xFFFF0000C0000000 + unat (4096 * of_nat p + off)"
    using assms(1) by (simp add: unat_word_ariths(1) [of "0xFFFF0000C0000000"] po)
  then show ?thesis by (simp add: kva_def po add.assoc)
qed

lemma unat_kpa:
  assumes "p < GIB_PAGES" and "off < 0x1000"
  shows "unat (kpa p + off) = 0xC0000000 + 4096 * p + unat off"
proof -
  note po = unat_page_offset [OF assms]
  have "unat off < 4096" using assms(2) by (simp add: word_less_nat_alt)
  then have "unat (0xC0000000 + (4096 * of_nat p + off))
      = 0xC0000000 + unat (4096 * of_nat p + off)"
    using assms(1) by (simp add: unat_word_ariths(1) [of "0xC0000000"] po)
  then show ?thesis by (simp add: kpa_def po add.assoc)
qed

lemma kva_indices:
  assumes "p < GIB_PAGES" and "off < 0x1000"
  shows "calc_index_l0 (kva p + off) = 0" "calc_index_l1 (kva p + off) = 3"
    "calc_index_l2 (kva p + off) = of_nat (p div 512)"
    "calc_index_l3 (kva p + off) = of_nat (p mod 512)"
    "(kva p + off) AND 0xFFF = off"
proof -
  have off: "unat off < 4096" using assms(2) by (simp add: word_less_nat_alt)
  note u = unat_kva [OF assms]
  define a where "a = unat (kva p + off)"
  define q where "q = p div 512"
  define r where "r = p mod 512"
  define x where "x = unat off"
  have p: "p = 512 * q + r" and r: "r < 512" and q: "q < 512" and x: "x < 4096"
    using assms(1) off by (simp_all add: q_def r_def x_def)
  have a: "a = 18446462601954066432 + 2097152 * q + 4096 * r + x"
    unfolding a_def u x_def [symmetric] by (subst p) simp
  have a12: "a div 4096 = 4503530908680192 + 512 * q + r"
    using x by (simp add: a)
  have a21: "a div 2097152 = 8795958806016 + q"
    using x r by (simp add: a)
  have a30: "a div 1073741824 = 17179607043"
    using x r q by (simp add: a)
  have a39: "a div 549755813888 = 33553920"
    using x r q by (simp add: a)
  have "a div 549755813888 mod 512 = 0" unfolding a39 by simp
  then show "calc_index_l0 (kva p + off) = 0"
    by (simp add: word_unat_eq_iff unat_calc_index flip: a_def)
  have "a div 1073741824 mod 512 = 3" unfolding a30 by simp
  then show "calc_index_l1 (kva p + off) = 3"
    by (simp add: word_unat_eq_iff unat_calc_index flip: a_def)
  have "8795958806016 + q = q + 512 * 17179607043" by simp
  then have "a div 2097152 mod 512 = q"
    unfolding a21 using q by (simp only: mod_mult_self2 mod_less)
  moreover have "unat (of_nat q :: u64) = q" using q by (simp add: unat_of_nat)
  ultimately show "calc_index_l2 (kva p + off) = of_nat (p div 512)"
    by (simp only: word_unat_eq_iff unat_calc_index flip: a_def q_def) simp
  have "4503530908680192 + 512 * q + r = r + 512 * (8795958806016 + q)" by simp
  then have "a div 4096 mod 512 = r"
    unfolding a12 using r by (simp only: mod_mult_self2 mod_less)
  moreover have "unat (of_nat r :: u64) = r" using r by (simp add: unat_of_nat)
  ultimately show "calc_index_l3 (kva p + off) = of_nat (p mod 512)"
    by (simp only: word_unat_eq_iff unat_calc_index flip: a_def r_def) simp
  have "18446462601954066432 + 2097152 * q + 4096 * r + x
      = x + 4096 * (4503530908680192 + 512 * q + r)" by simp
  then have "a mod 4096 = x"
    unfolding a using x by (simp only: mod_mult_self2 mod_less)
  then show "(kva p + off) AND 0xFFF = off"
    by (simp add: word_unat_eq_iff unat_and_numerals x_def flip: a_def)
qed

lemma page_aligned_kpa: "p < GIB_PAGES \<Longrightarrow> page_aligned (kpa p)"
  using unat_kpa [of p 0] by (simp add: page_aligned_unat)

lemma convert_kpa: "p < GIB_PAGES \<Longrightarrow> convert_to_physical (kpa p) = kpa p"
  using unat_kpa [of p 0] by (simp add: word_unat_eq_iff unat_convert_to_physical)

lemma kva_plus: "kva n + 4096 * of_nat i = kva (n + i)"
  by (simp add: kva_def algebra_simps)

lemma kpa_plus: "kpa n + 4096 * of_nat i = kpa (n + i)"
  by (simp add: kpa_def algebra_simps)

lemma kpa_or_kva: "p < GIB_PAGES \<Longrightarrow> kpa p OR 0xFFFF000000000000 = kva p"
proof -
  assume p: "p < GIB_PAGES"
  have "kpa p AND 0xFFFF000000000000 = convert_to_physical (kpa p) AND 0xFFFF000000000000"
    by (simp add: convert_kpa [OF p])
  also have "\<dots> = 0" by (simp add: convert_to_physical_and and.assoc)
  finally have "kpa p + 0xFFFF000000000000 = kpa p OR 0xFFFF000000000000"
    by (rule disjunctive_add_eq_or)
  then show ?thesis by (simp add: kpa_def kva_def)
qed

lemma bitindex_to_phys_entry:
  assumes "p < BITMAP_PAGES"
  shows "bitindex_to_phys (page_entry p) = kpa p"
proof -
  have i: "unat (of_nat (p div 8) :: u64) = p div 8" by (rule of_nat_page_index [OF assms])
  have b: "unat (ucast (of_nat (p mod 8) :: u8) :: u64) = p mod 8"
    by (simp add: unsigned_ucast_eq take_bit_nat_eq_self unat_of_nat)
  have "of_nat (p div 8) * 8 + ucast (of_nat (p mod 8) :: u8) = (of_nat p :: u64)"
    using assms by (simp add: word_unat_eq_iff unat_word_ariths i b unat_of_nat)
  then show ?thesis
    by (simp add: bitindex_to_phys_def page_entry_def PHYS_BASE_PAGE_def PHYS_BASE_ADDR_def
        kpa_def push_bit_eq_mult distrib_left mult.commute)
qed

section \<open>Entering pages into the tables\<close>

text \<open>The l3 pool is a page of the image that is none of the tables in use.\<close>

definition l3_pool_ok :: "u64 \<Rightarrow> bool" where
  "l3_pool_ok l2mem \<longleftrightarrow> in_image l2mem \<and>
     l2mem \<notin> {L0_BASE_PHYS, L1_BASE_PHYS, L2_BASE_PHYS, L2_INDEX3_BASE_PHYS} \<and>
     l2mem + 0x1000 \<notin> {L0_BASE_PHYS, L1_BASE_PHYS, L2_BASE_PHYS, L2_INDEX3_BASE_PHYS}"

lemma l3_pool_okD:
  assumes "l3_pool_ok l2mem"
  shows "page_aligned l2mem" "convert_to_physical l2mem = l2mem" "l2mem AND 0xFFFFFFFFFFFF = l2mem"
    "l2mem \<noteq> L0_BASE_PHYS" "l2mem \<noteq> L1_BASE_PHYS" "l2mem \<noteq> L2_INDEX3_BASE_PHYS"
    "l2mem \<noteq> L2_BASE_PHYS" "L2_BASE_PHYS \<noteq> l2mem" "L0_BASE_PHYS \<noteq> l2mem" "L1_BASE_PHYS \<noteq> l2mem" "L2_INDEX3_BASE_PHYS \<noteq> l2mem"
  using assms in_image_convert [of l2mem]
  by (auto simp: l3_pool_ok_def in_image_def convert_to_physical_and)

lemma or_page_aligned: "page_aligned a \<Longrightarrow> page_aligned b \<Longrightarrow> page_aligned (a OR b)"
  by (simp add: page_aligned_def bit.conj_disj_distrib2)

lemma cell_high:
  assumes "page_aligned b" "i < 0x200"
  shows "cell (0xFFFF000000000000 OR b) i = cell b i"
proof -
  have "page_aligned (0xFFFF000000000000 OR b)"
    using assms(1) by (intro or_page_aligned) (simp add: page_aligned_def)
  moreover have "convert_to_physical (0xFFFF000000000000 OR b) = convert_to_physical b"
    by (simp add: convert_to_physical_def bit.conj_disj_distrib)
  ultimately show ?thesis
    using assms by (simp add: cell_eq_iff)
qed

lemma cell_kernel_high [simp]:
  "i < 0x200 \<Longrightarrow> cell 0xFFFF000080080000 i = cell L2_INDEX3_BASE_PHYS i"
  using cell_high [of L2_INDEX3_BASE_PHYS i] by simp

lemma of_nat_index_bound: "p < 512 \<Longrightarrow> (of_nat p :: u64) < 0x200"
  by (simp add: word_less_nat_alt unat_of_nat)

lemma of_nat_index_inject:
  "p < 512 \<Longrightarrow> q < 512 \<Longrightarrow> (of_nat p :: u64) = of_nat q \<longleftrightarrow> p = q"
  by (simp add: word_unat_eq_iff unat_of_nat)

lemma map_one_page_first:
  assumes "l3_pool_ok l2mem" and "p < 512"
  shows "map_one_page l2mem (kva p) (kpa p) m =
    m(cell L2_INDEX3_BASE_PHYS 0 := make_table_desc l2mem,
      cell l2mem (of_nat p) := make_l3_block_desc (kpa p))"
  using kva_indices [of p 0] assms(2) l3_pool_okD [OF assms(1)]
  by (simp add: map_one_page_def set_table_entry_def Let_def cell_high of_nat_index_bound)

lemma map_pages_Suc:
  "map_pages l2mem va pa (Suc k) m =
     map_one_page l2mem (va + 4096 * of_nat k) (pa + 4096 * of_nat k) (map_pages l2mem va pa k m)"
  by (simp add: map_pages_def)

lemma map_pages_0 [simp]: "map_pages l2mem va pa 0 m = m"
  by (simp add: map_pages_def)

text \<open>
  The effect of entering the pages \<open>n\<close> to \<open>n + k\<close> of the first 2 MiB: their l3 cells are
  written, the l2 entry of the first 2 MiB leads to the l3 pool, and nothing else changes.
\<close>

lemma l3_cells_distinct:
  assumes "l3_pool_ok l2mem" and "i < 0x200" and "j < 0x200"
  shows "cell l2mem i \<noteq> cell L0_BASE_PHYS j" "cell l2mem i \<noteq> cell L1_BASE_PHYS j"
    "cell l2mem i \<noteq> cell L2_INDEX3_BASE_PHYS j" "cell L2_INDEX3_BASE_PHYS j \<noteq> cell l2mem i"
    "cell l2mem i = cell l2mem j \<longleftrightarrow> i = j"
  using assms(2,3) l3_pool_okD [OF assms(1)] by (simp_all add: cell_simps)

lemma map_pages_l3:
  assumes "l3_pool_ok l2mem" and "n + k \<le> 512" and "p < 512"
  shows "map_pages l2mem (kva n) (kpa n) k m (cell l2mem (of_nat p)) =
    (if n \<le> p \<and> p < n + k then make_l3_block_desc (kpa p) else m (cell l2mem (of_nat p)))"
  using assms(2)
proof (induction k)
  case 0
  then show ?case by auto
next
  case (Suc k)
  then have k: "n + k < 512" by simp
  note d = l3_cells_distinct [OF assms(1) of_nat_index_bound [OF assms(3)]]
  show ?case
    using Suc k assms(3)
    by (auto simp: map_pages_Suc kva_plus kpa_plus map_one_page_first [OF assms(1)]
        d of_nat_index_bound of_nat_index_inject simp del: of_nat_add)
qed

lemma map_pages_l2:
  assumes "l3_pool_ok l2mem" and "n + k \<le> 512"
  shows "map_pages l2mem (kva n) (kpa n) k m (cell L2_INDEX3_BASE_PHYS 0) =
    (if 0 < k then make_table_desc l2mem else m (cell L2_INDEX3_BASE_PHYS 0))"
  using assms(2)
  by (induction k)
    (simp_all add: map_pages_Suc kva_plus kpa_plus map_one_page_first [OF assms(1)]
      l3_cells_distinct(4) [OF assms(1)] of_nat_index_bound del: of_nat_add)

lemma map_pages_frame:
  assumes "l3_pool_ok l2mem" and "n + k \<le> 512"
    and "a \<noteq> cell L2_INDEX3_BASE_PHYS 0" and "\<forall>p < 512. a \<noteq> cell l2mem (of_nat p)"
  shows "map_pages l2mem (kva n) (kpa n) k m a = m a"
  using assms(2)
  by (induction k)
    (use assms(3,4) in \<open>simp_all add: map_pages_Suc kva_plus kpa_plus map_one_page_first [OF assms(1)]
      del: of_nat_add\<close>)

lemma map_pages_upper:
  assumes "l3_pool_ok l2mem" and "n + k \<le> 512" and "i < 0x200"
  shows "map_pages l2mem (kva n) (kpa n) k m (cell L0_BASE_PHYS i) = m (cell L0_BASE_PHYS i)"
    "map_pages l2mem (kva n) (kpa n) k m (cell L1_BASE_PHYS i) = m (cell L1_BASE_PHYS i)"
proof -
  have "cell L0_BASE_PHYS i \<noteq> cell l2mem (of_nat p)" "cell L1_BASE_PHYS i \<noteq> cell l2mem (of_nat p)"
    if "p < 512" for p
    using l3_cells_distinct(1,2) [OF assms(1) of_nat_index_bound [OF that] assms(3)] by metis+
  moreover have "cell L0_BASE_PHYS i \<noteq> cell L2_INDEX3_BASE_PHYS 0"
    "cell L1_BASE_PHYS i \<noteq> cell L2_INDEX3_BASE_PHYS 0"
    using assms(3) by (simp_all add: cell_simps)
  ultimately show "map_pages l2mem (kva n) (kpa n) k m (cell L0_BASE_PHYS i) = m (cell L0_BASE_PHYS i)"
    "map_pages l2mem (kva n) (kpa n) k m (cell L1_BASE_PHYS i) = m (cell L1_BASE_PHYS i)"
    by (simp_all add: map_pages_frame [OF assms(1,2)])
qed

lemmas map_pages_cells = map_pages_l3 map_pages_l2 map_pages_upper

text \<open>The clearing of the l3 pool at the first allocation: 640 cells, one page and a quarter.\<close>

lemma clear_cells_outside:
  assumes "in_image l2mem" and "page_aligned b" and "i < 0x200"
    and "convert_to_physical b \<noteq> l2mem" and "convert_to_physical b \<noteq> l2mem + 0x1000"
  shows "clear_cells l2mem 640 m (cell b i) = m (cell b i)"
proof -
  have al: "page_aligned l2mem" "convert_to_physical l2mem = l2mem"
    using assms(1) in_image_convert by (simp_all add: in_image_def)
  have u: "unat (l2mem + 0x1000) = unat l2mem + 4096"
    using in_image_unat(2) [OF assms(1)] by (simp add: unat_word_ariths)
  then have c: "convert_to_physical (l2mem + 0x1000) = l2mem + 0x1000"
    using in_image_unat(2) [OF assms(1)] by (simp add: word_unat_eq_iff unat_convert_to_physical)
  have al': "page_aligned (l2mem + 0x1000)" using in_image_unat(3) [OF assms(1)] u by (simp add: page_aligned_unat)
  have "cell b i \<noteq> cell l2mem (of_nat q)" if "q < 640" for q
  proof (cases "q < 512")
    case True
    then show ?thesis using assms(2-4) al by (simp add: cell_eq_iff of_nat_index_bound)
  next
    case False
    then have "of_nat q = (0x200 + of_nat (q - 512) :: u64)" by (simp add: of_nat_diff)
    then have "cell l2mem (of_nat q) = cell (l2mem + 0x1000) (of_nat (q - 512))"
      by (simp add: cell_def distrib_left add.assoc)
    moreover have "of_nat (q - 512) < (0x200 :: u64)" using False that by (intro of_nat_index_bound) simp
    ultimately show ?thesis using assms(2,3,5) al' c by (simp add: cell_eq_iff)
  qed
  then have "\<not> (\<exists>q < 640. cell b i = cell l2mem (of_nat q))" by blast
  then show ?thesis by (simp only: clear_cells_apply if_False)
qed

lemma clear_l3_pool:
  assumes "l3_pool_ok l2mem" and "i < 0x200"
  shows "clear_cells l2mem 640 m (cell l2mem i) = 0"
    "clear_cells l2mem 640 m (cell L0_BASE_PHYS i) = m (cell L0_BASE_PHYS i)"
    "clear_cells l2mem 640 m (cell L1_BASE_PHYS i) = m (cell L1_BASE_PHYS i)"
    "clear_cells l2mem 640 m (cell L2_INDEX3_BASE_PHYS i) = m (cell L2_INDEX3_BASE_PHYS i)"
proof -
  obtain n where "n < 512" "i = of_nat n" using index_of_nat [OF assms(2)] by blast
  then have "\<exists>q < 640. cell l2mem i = cell l2mem (of_nat q)"
    by (intro exI [of _ n]) simp
  then show "clear_cells l2mem 640 m (cell l2mem i) = 0"
    by (simp only: clear_cells_apply if_True)
  show "clear_cells l2mem 640 m (cell L0_BASE_PHYS i) = m (cell L0_BASE_PHYS i)"
    "clear_cells l2mem 640 m (cell L1_BASE_PHYS i) = m (cell L1_BASE_PHYS i)"
    "clear_cells l2mem 640 m (cell L2_INDEX3_BASE_PHYS i) = m (cell L2_INDEX3_BASE_PHYS i)"
    using assms l3_pool_okD [OF assms(1)]
    by (intro clear_cells_outside; auto simp: l3_pool_ok_def)+
qed

section \<open>The invariant of the allocator\<close>

text \<open>
  \<open>kmalloc_inv l2mem n M s\<close>: the first \<open>n\<close> pages of the pool have been handed out, and of them
  exactly the pages in \<open>M\<close> are in the kernel's tables.  The static \<open>ALLOCATED\<close> is set by the
  first call that enters a page.
\<close>

definition kmalloc_inv :: "u64 \<Rightarrow> nat \<Rightarrow> nat set \<Rightarrow> mm_state \<Rightarrow> bool" where
  "kmalloc_inv l2mem n M s \<longleftrightarrow>
     l3_pool_ok l2mem \<and> bump (GlobalBitMapArray s) n \<and> n \<le> 512 \<and> M \<subseteq> {..<n} \<and>
     (ALLOCATED s = 0 \<longleftrightarrow> M = {}) \<and>
     tbl s (cell L0_BASE_PHYS 0) = make_table_desc L1_BASE_PHYS \<and>
     tbl s (cell L1_BASE_PHYS 3) = (if M = {} then 0 else make_table_desc L2_INDEX3_BASE_PHYS) \<and>
     tbl s (cell L2_INDEX3_BASE_PHYS 0) = (if M = {} then 0 else make_table_desc l2mem) \<and>
     (M \<noteq> {} \<longrightarrow> (\<forall>p < 512. tbl s (cell l2mem (of_nat p)) =
                     (if p \<in> M then make_l3_block_desc (kpa p) else 0)))"

text \<open>What the tables of an allocator in this state translate: the pages of \<open>M\<close>, exactly.\<close>

lemma page_offset_or:
  assumes "p < GIB_PAGES" and "off < 0x1000"
  shows "kpa p OR off = kpa p + off"
  using page_aligned_plus_or [OF page_aligned_kpa [OF assms(1)] assms(2)] by simp

lemma walk_page:
  assumes "m (cell L0_BASE_PHYS 0) = make_table_desc L1_BASE_PHYS"
    and "m (cell L1_BASE_PHYS 3) = make_table_desc L2_INDEX3_BASE_PHYS"
    and "m (cell L2_INDEX3_BASE_PHYS (of_nat (p div 512))) = d2"
    and "d2 AND 3 = 3" and "table_address d2 = l2mem"
    and "m (cell l2mem (of_nat (p mod 512))) = make_l3_block_desc (kpa q)"
    and "p < GIB_PAGES" and "q < GIB_PAGES" and "off < 0x1000"
  shows "walk m L0_BASE_PHYS (kva p + off) = Some (kpa q + off)"
proof -
  have pa: "make_l3_block_desc (kpa q) AND 0xFFFFFFFFF000 = kpa q"
    using assms(8) by (simp add: desc_decode page_aligned_and_page_part page_aligned_kpa convert_kpa)
  show ?thesis
    using page_offset_or [OF assms(8,9)]
    by (simp add: walk_def Let_def kva_indices [OF assms(7,9)] assms(1-6) desc_decode(1,2) pa)
qed

lemma kmalloc_inv_walk:
  assumes "kmalloc_inv l2mem n M s" and "p < 512" and "off < 0x1000"
  shows "walk (tbl s) L0_BASE_PHYS (kva p + off) = (if p \<in> M then Some (kpa p + off) else None)"
proof -
  have ok: "l3_pool_ok l2mem" using assms(1) by (simp add: kmalloc_inv_def)
  have t: "table_address (make_table_desc l2mem) = l2mem"
    using l3_pool_okD [OF ok] by (simp add: desc_decode page_aligned_and_page_part)
  have pa: "make_l3_block_desc (kpa p) AND 0xFFFFFFFFF000 = kpa p"
    using assms(2) by (simp add: desc_decode page_aligned_and_page_part page_aligned_kpa convert_kpa)
  note ix = kva_indices [of p off, OF _ assms(3)]
  show ?thesis
  proof (cases "M = {}")
    case True
    with assms show ?thesis by (simp add: walk_def ix kmalloc_inv_def desc_decode)
  next
    case False
    with assms show ?thesis
      by (simp add: walk_def ix kmalloc_inv_def desc_decode(1,2) t Let_def pa page_offset_or)
  qed
qed

lemma kmalloc_inv_init:
  assumes "l3_pool_ok l2mem" and "bump (GlobalBitMapArray s) 0" and "ALLOCATED s = 0"
    and "tbl s = mmu_init_tables l2mem m"
  shows "kmalloc_inv l2mem 0 {} s"
  using assms mmu_init_cells [of l2mem _ m] by (simp add: kmalloc_inv_def l3_pool_ok_def)

text \<open>Entering the device page touches none of the tables of the allocator.\<close>

lemma kmalloc_inv_add_virtio_page:
  assumes "kmalloc_inv l2mem n M s"
  shows "kmalloc_inv l2mem n M (s\<lparr>tbl := add_virtio_page reg (tbl s)\<rparr>)"
proof -
  have ok: "l3_pool_ok l2mem" using assms by (simp add: kmalloc_inv_def)
  have d: "cell l2mem (of_nat p) \<noteq> cell L2_BASE_PHYS 50" if "p < 512" for p
    using l3_pool_okD [OF ok] of_nat_index_bound [OF that] by (simp add: cell_eq_iff)
  have "add_virtio_page reg (tbl s) = (tbl s)(cell L2_BASE_PHYS 50 := make_block_desc reg)"
    by (simp add: add_virtio_page_def set_table_entry_def)
  then show ?thesis
    using assms d by (simp add: kmalloc_inv_def cell_simps)
qed

lemma map_pagetable_entry_refused [simp]:
  "20 < tot \<Longrightarrow> map_pagetable_entry l2mem va pa tot s = (False, s)"
  by (simp add: map_pagetable_entry_def)

lemma l1_index_kva [simp]: "calc_index_l1 0xFFFF0000C0000000 = 3"
  by (simp add: calc_index_l1_def)

lemma map_pagetable_entry_inv:
  assumes "kmalloc_inv l2mem n M s" and "0 < k" and "k \<le> 20" and "n + k \<le> 512"
    and "bump bm (n + k)"
  shows "\<exists>s'. map_pagetable_entry l2mem (kva n) (kpa n) (of_nat k) (s\<lparr>GlobalBitMapArray := bm\<rparr>)
      = (True, s') \<and> kmalloc_inv l2mem (n + k) (M \<union> {n..<n + k}) s'"
proof -
  have ok: "l3_pool_ok l2mem" using assms(1) by (simp add: kmalloc_inv_def)
  have uk: "unat (of_nat k :: u64) = k" using assms(3) by (simp add: unat_of_nat)
  have le: "\<not> (of_nat k :: u64) > 20" using assms(3) by (simp add: word_less_nat_alt uk)
  define m0 where "m0 = (if ALLOCATED s = 0
      then set_table_entry L1_BASE_PHYS 3 (make_table_desc L2_INDEX3_BASE_PHYS)
             (clear_table L3_INDEX0_BASE_PHYS (clear_cells l2mem 640 (tbl s)))
      else tbl s)"
  have m0: "m0 (cell L0_BASE_PHYS 0) = make_table_desc L1_BASE_PHYS"
    "m0 (cell L1_BASE_PHYS 3) = make_table_desc L2_INDEX3_BASE_PHYS"
    using assms(1)
    by (simp_all add: m0_def kmalloc_inv_def set_table_entry_def cell_simps clear_table_cell
        clear_l3_pool [OF ok])
  have l3: "m0 (cell l2mem (of_nat p)) = (if p \<in> M then make_l3_block_desc (kpa p) else 0)"
    if "p < 512" for p
    using assms(1) that l3_cells_distinct(2) [OF ok of_nat_index_bound [OF that], of 3]
      l3_pool_okD [OF ok]
    by (cases "M = {}")
      (simp_all add: m0_def kmalloc_inv_def set_table_entry_def clear_table_cell
        clear_l3_pool [OF ok] of_nat_index_bound)
  let ?m = "map_pages l2mem (kva n) (kpa n) k m0"
  let ?s = "s\<lparr>GlobalBitMapArray := bm, tbl := ?m, ALLOCATED := if ALLOCATED s = 0 then 1 else ALLOCATED s\<rparr>"
  have "map_pagetable_entry l2mem (kva n) (kpa n) (of_nat k) (s\<lparr>GlobalBitMapArray := bm\<rparr>) = (True, ?s)"
    using le by (simp add: map_pagetable_entry_def uk m0_def)
  moreover have "kmalloc_inv l2mem (n + k) (M \<union> {n..<n + k}) ?s"
  proof -
    have "M \<union> {n..<n + k} \<noteq> {}" using assms(2) by auto
    moreover have "M \<union> {n..<n + k} \<subseteq> {..<n + k}"
      using assms(1) by (auto simp: kmalloc_inv_def)
    ultimately show ?thesis
      using assms(2,4,5) ok
      by (simp add: kmalloc_inv_def map_pages_cells [OF ok assms(4)] m0 l3)
  qed
  ultimately show ?thesis by blast
qed

section \<open>kmalloc refines a bump allocator\<close>

text \<open>The request of a block from the bitmap, with the array of 64 entries.\<close>

lemma allocate_block:
  assumes "bump b n" and "pages_needed sz \<le> 64" and "n + pages_needed sz \<le> 512"
  shows "\<exists>bm res. allocate_mem b sz (replicate 64 None) = Inr (of_nat (pages_needed sz), bm, res) \<and>
    res ! 0 = Some (page_entry n) \<and> bump bm (n + pages_needed sz) \<and> bitindex_to_phys (page_entry n) = kpa n"
proof -
  let ?k = "pages_needed sz" and ?r = "replicate 64 None"
  have k: "0 < ?k" by (rule pages_needed_pos)
  obtain bm where "allocate_mem b sz ?r = Inr (of_nat ?k, bm, map (Some \<circ> page_entry) [n..<n + ?k] @ drop ?k ?r)"
    and "bump bm (n + ?k)"
    using allocate_mem_next_pages [OF assms(1), of sz ?r] assms by auto
  moreover have "(map (Some \<circ> page_entry) [n..<n + ?k] @ drop ?k ?r) ! 0 = Some (page_entry n)"
    using k by (simp add: nth_append)
  ultimately show ?thesis using k assms(3) by (auto simp: bitindex_to_phys_entry)
qed

lemma kmalloc_bump:
  assumes "kmalloc_inv l2mem n M s" and "pages_needed sz \<le> 64" and "n + pages_needed sz \<le> 512"
  shows "\<exists>s'. kmalloc l2mem sz s = Inr (kva n, s') \<and>
    kmalloc_inv l2mem (n + pages_needed sz)
      (if pages_needed sz \<le> 20 then M \<union> {n..<n + pages_needed sz} else M) s'"
proof -
  let ?k = "pages_needed sz"
  have b: "bump (GlobalBitMapArray s) n" using assms(1) by (simp add: kmalloc_inv_def)
  have k: "0 < ?k" by (rule pages_needed_pos)
  obtain bm res where a: "allocate_mem (GlobalBitMapArray s) sz (replicate 64 None) = Inr (of_nat ?k, bm, res)"
    and nth: "res ! 0 = Some (page_entry n)" and bm: "bump bm (n + ?k)" and pa: "bitindex_to_phys (page_entry n) = kpa n"
    using allocate_block [OF b assms(2,3)] by blast
  have p: "bitindex_to_phys (page_entry n) = kpa n" "kpa n OR 0xFFFF000000000000 = kva n"
    using k assms(3) pa by (simp_all add: kpa_or_kva)
  have km: "kmalloc l2mem sz s = Inr (kva n, snd (map_pagetable_entry l2mem (kva n) (kpa n)
      (of_nat ?k) (s\<lparr>GlobalBitMapArray := bm\<rparr>)))"
    by (simp add: kmalloc_def a nth p Let_def del: upt_Suc drop_replicate)
  show ?thesis
  proof (cases "?k \<le> 20")
    case True
    then show ?thesis
      using map_pagetable_entry_inv [OF assms(1) k True assms(3) bm] km by auto
  next
    case False
    then have "20 < (of_nat ?k :: u64)"
      using assms(2) by (simp add: word_less_nat_alt unat_of_nat)
    then have "kmalloc l2mem sz s = Inr (kva n, s\<lparr>GlobalBitMapArray := bm\<rparr>)"
      by (simp add: km)
    moreover have "kmalloc_inv l2mem (n + ?k) M (s\<lparr>GlobalBitMapArray := bm\<rparr>)"
      using assms(1,3) bm by (auto simp: kmalloc_inv_def)
    ultimately show ?thesis using False by simp
  qed
qed


text \<open>
  The contract of a page allocator, as the callers of \<open>kmalloc\<close> rely on it: \<open>invar n M s\<close> says
  that \<open>n\<close> pages are handed out and those in \<open>M\<close> can be accessed; a request for at most
  \<open>max_pages\<close> pages takes the next ones and maps them; \<open>lookup\<close> translates exactly the mapped
  pages.
\<close>

fun alloc_all :: "(u64 \<Rightarrow> 's \<Rightarrow> 'e + (u64 \<times> 's)) \<Rightarrow> u64 list \<Rightarrow> 's \<Rightarrow> 'e + (u64 list \<times> 's)" where
  "alloc_all alloc [] s = Inr ([], s)"
| "alloc_all alloc (sz # szs) s =
     (case alloc sz s of Inl e \<Rightarrow> Inl e
      | Inr (va, s') \<Rightarrow>
          (case alloc_all alloc szs s' of Inl e \<Rightarrow> Inl e | Inr (vas, s'') \<Rightarrow> Inr (va # vas, s'')))"

fun block_starts :: "(u64 \<Rightarrow> nat) \<Rightarrow> nat \<Rightarrow> u64 list \<Rightarrow> nat list" where
  "block_starts pages n [] = []"
| "block_starts pages n (sz # szs) = n # block_starts pages (n + pages sz) szs"

locale page_allocator =
  fixes invar :: "nat \<Rightarrow> nat set \<Rightarrow> 's \<Rightarrow> bool"
    and alloc :: "u64 \<Rightarrow> 's \<Rightarrow> 'e + (u64 \<times> 's)"
    and pages :: "u64 \<Rightarrow> nat"
    and addr :: "nat \<Rightarrow> u64"
    and phys :: "nat \<Rightarrow> u64"
    and lookup :: "'s \<Rightarrow> u64 \<Rightarrow> u64 option"
    and max_pages :: nat
    and limit :: nat
  assumes alloc_next: "invar n M s \<Longrightarrow> pages sz \<le> max_pages \<Longrightarrow> n + pages sz \<le> limit \<Longrightarrow>
      \<exists>s'. alloc sz s = Inr (addr n, s') \<and> invar (n + pages sz) (M \<union> {n..<n + pages sz}) s'"
    and lookup_page: "invar n M s \<Longrightarrow> p < limit \<Longrightarrow> off < 0x1000 \<Longrightarrow>
      lookup s (addr p + off) = (if p \<in> M then Some (phys p + off) else None)"
begin

lemma alloc_all_next:
  assumes "invar n M s" and "\<forall>sz \<in> set szs. pages sz \<le> max_pages"
    and "n + sum_list (map pages szs) \<le> limit"
  shows "\<exists>s'. alloc_all alloc szs s = Inr (map addr (block_starts pages n szs), s') \<and>
    invar (n + sum_list (map pages szs)) (M \<union> {n..<n + sum_list (map pages szs)}) s'"
  using assms
proof (induction szs arbitrary: n M s)
  case Nil
  then show ?case by simp
next
  case (Cons sz szs)
  then obtain s1 where s1: "alloc sz s = Inr (addr n, s1)"
    and i1: "invar (n + pages sz) (M \<union> {n..<n + pages sz}) s1"
    using alloc_next [of n M s sz] by auto
  obtain s2 where s2: "alloc_all alloc szs s1 = Inr (map addr (block_starts pages (n + pages sz) szs), s2)"
    and i2: "invar (n + pages sz + sum_list (map pages szs))
      (M \<union> {n..<n + pages sz} \<union> {n + pages sz..<n + pages sz + sum_list (map pages szs)}) s2"
    using Cons.IH [OF i1] Cons.prems by auto
  have "{n..<n + pages sz} \<union> {n + pages sz..<n + pages sz + sum_list (map pages szs)}
      = {n..<n + (pages sz + sum_list (map pages szs))}"
    by auto
  then show ?case using s1 s2 i2 by (simp add: add.assoc Un_assoc)
qed

lemma alloc_all_mapped:
  assumes "invar n M s" and "\<forall>sz \<in> set szs. pages sz \<le> max_pages"
    and "n + sum_list (map pages szs) \<le> limit"
  shows "\<exists>s'. alloc_all alloc szs s = Inr (map addr (block_starts pages n szs), s') \<and>
    (\<forall>p off. p < limit \<longrightarrow> off < 0x1000 \<longrightarrow> lookup s' (addr p + off) =
       (if p \<in> M \<or> n \<le> p \<and> p < n + sum_list (map pages szs) then Some (phys p + off) else None))"
  using alloc_all_next [OF assms] by (auto simp: lookup_page)

end

interpretation kma: page_allocator "kmalloc_inv l2mem" "kmalloc l2mem" pages_needed kva kpa
  "\<lambda>s. walk (tbl s) L0_BASE_PHYS" 20 512
  for l2mem
proof unfold_locales
  show "\<exists>s'. kmalloc l2mem sz s = Inr (kva n, s') \<and>
      kmalloc_inv l2mem (n + pages_needed sz) (M \<union> {n..<n + pages_needed sz}) s'"
    if "kmalloc_inv l2mem n M s" "pages_needed sz \<le> 20" "n + pages_needed sz \<le> 512" for n M s sz
    using kmalloc_bump [OF that(1) _ that(3)] that(2) by auto
qed (rule kmalloc_inv_walk)

section \<open>Properties of kmalloc\<close>

text \<open>
  C3. \<open>kmalloc\<close> refines a bump allocator.  For a block of up to 20 pages in the first 2 MiB of
  the pool it returns the kernel address of the next page, keeps the invariant of the
  allocator with the pages of the block added, and afterwards every byte of the block
  translates to its physical page.
\<close>

theorem kmalloc_block_mapped:
  assumes "kmalloc_inv l2mem n M s" and "pages_needed sz \<le> 20" and "n + pages_needed sz \<le> 512"
  shows "\<exists>s'. kmalloc l2mem sz s = Inr (kva n, s') \<and>
    kmalloc_inv l2mem (n + pages_needed sz) (M \<union> {n..<n + pages_needed sz}) s' \<and>
    (\<forall>i < pages_needed sz. \<forall>off < 0x1000.
       walk (tbl s') L0_BASE_PHYS (kva n + 4096 * of_nat i + off)
         = Some (kpa n + 4096 * of_nat i + off))"
proof -
  obtain s' where s': "kmalloc l2mem sz s = Inr (kva n, s')"
    "kmalloc_inv l2mem (n + pages_needed sz) (M \<union> {n..<n + pages_needed sz}) s'"
    using kma.alloc_next [OF assms] by blast
  then show ?thesis
    using assms(3) by (auto simp: kva_plus kpa_plus kma.lookup_page [OF s'(2)])
qed

definition boot_state :: mm_state where
  "boot_state = \<lparr>tbl = mmu_init_tables 0x8008e000 (\<lambda>_. 0), ALLOCATED = 0,
                 GlobalBitMapArray = empty_bitmap\<rparr>"

lemma l3_pool_ok_elf: "l3_pool_ok 0x8008e000"
  by (simp add: l3_pool_ok_def in_image_def page_aligned_def)

lemma boot_state_inv: "kmalloc_inv 0x8008e000 0 {} boot_state"
  by (rule kmalloc_inv_init [OF l3_pool_ok_elf, where m = "\<lambda>_. 0"])
    (simp_all add: boot_state_def bump_empty)

lemma pages_5000: "pages_needed 5000 = 2"
  by (simp add: pages_needed_def)

theorem kmalloc_block_mapped_witness:
  "\<exists>s'. kmalloc 0x8008e000 5000 boot_state = Inr (0xFFFF0000C0000000, s') \<and>
     walk (tbl s') L0_BASE_PHYS 0xFFFF0000C0001234 = Some 0xC0001234"
proof -
  obtain s' where s': "kmalloc 0x8008e000 5000 boot_state = Inr (kva 0, s')"
    and w: "\<forall>i < 2. \<forall>off < 0x1000. walk (tbl s') L0_BASE_PHYS (kva 0 + 4096 * of_nat i + off)
         = Some (kpa 0 + 4096 * of_nat i + off)"
    using kmalloc_block_mapped [OF boot_state_inv, of 5000] by (auto simp: pages_5000)
  have "walk (tbl s') L0_BASE_PHYS (kva 0 + 4096 * of_nat 1 + 0x234)
      = Some (kpa 0 + 4096 * of_nat 1 + 0x234)"
    using w [rule_format, of 1 "0x234"] by simp
  then show ?thesis using s' by (simp add: kva_def kpa_def)
qed

text \<open>
  C20. A sequence of calls of \<open>kmalloc\<close> after \<open>mmu_init\<close>, each for at most 20 pages and together
  for at most the 512 pages of the first 2 MiB, succeeds; the blocks are laid out one after
  the other, and in the end exactly the pages of the blocks are mapped, each to its own
  physical page, so that no later call disturbs the block of an earlier one.
\<close>

theorem kmalloc_sequence:
  assumes "l3_pool_ok l2mem" and "\<forall>sz \<in> set szs. pages_needed sz \<le> 20"
    and "sum_list (map pages_needed szs) \<le> 512"
  shows "\<exists>s'. alloc_all (kmalloc l2mem) szs
        \<lparr>tbl = mmu_init_tables l2mem m, ALLOCATED = 0, GlobalBitMapArray = empty_bitmap\<rparr>
      = Inr (map kva (block_starts pages_needed 0 szs), s') \<and>
    (\<forall>p off. p < 512 \<longrightarrow> off < 0x1000 \<longrightarrow> walk (tbl s') L0_BASE_PHYS (kva p + off) =
       (if p < sum_list (map pages_needed szs) then Some (kpa p + off) else None))"
  using kma.alloc_all_mapped [OF kmalloc_inv_init [OF assms(1), where m = m] assms(2)] assms(3)
  by (simp add: bump_empty)

theorem kmalloc_sequence_witness:
  "\<exists>s'. alloc_all (kmalloc 0x8008e000) [5000, 64]
        \<lparr>tbl = mmu_init_tables 0x8008e000 (\<lambda>_. 0), ALLOCATED = 0, GlobalBitMapArray = empty_bitmap\<rparr>
      = Inr ([0xFFFF0000C0000000, 0xFFFF0000C0002000], s')"
  using kmalloc_sequence [OF l3_pool_ok_elf, of "[5000, 64]" "\<lambda>_. 0"]
  by (auto simp: pages_needed_def kva_def)

text \<open>
  C37. A block of 21 to 64 pages: \<open>map_pagetable_entry\<close> refuses it, but \<open>kmalloc\<close> ignores the
  result and returns an address whose pages are taken from the pool and not mapped.
\<close>

theorem kmalloc_large_block_unmapped:
  assumes "kmalloc_inv l2mem n M s" and "20 < pages_needed sz" and "pages_needed sz \<le> 64"
    and "n + pages_needed sz \<le> 512"
  shows "\<exists>s'. kmalloc l2mem sz s = Inr (kva n, s') \<and> kmalloc_inv l2mem (n + pages_needed sz) M s' \<and>
    (\<forall>i < pages_needed sz. \<forall>off < 0x1000.
       walk (tbl s') L0_BASE_PHYS (kva n + 4096 * of_nat i + off) = None)"
proof -
  obtain s' where s': "kmalloc l2mem sz s = Inr (kva n, s')"
    "kmalloc_inv l2mem (n + pages_needed sz) M s'"
    using kmalloc_bump [OF assms(1,3,4)] assms(2) by auto
  have "M \<subseteq> {..<n}" using assms(1) by (simp add: kmalloc_inv_def)
  then show ?thesis
    using assms(4) s' by (auto simp: kva_plus kma.lookup_page [OF s'(2)])
qed

theorem kmalloc_large_block_unmapped_witness:
  "\<exists>s'. kmalloc 0x8008e000 100000 boot_state = Inr (0xFFFF0000C0000000, s') \<and>
     walk (tbl s') L0_BASE_PHYS 0xFFFF0000C0000000 = None"
proof -
  have p: "pages_needed 100000 = 25" by (simp add: pages_needed_def)
  obtain s' where s': "kmalloc 0x8008e000 100000 boot_state = Inr (kva 0, s')"
    and w: "\<forall>i < 25. \<forall>off < 0x1000. walk (tbl s') L0_BASE_PHYS (kva 0 + 4096 * of_nat i + off) = None"
    using kmalloc_large_block_unmapped [OF boot_state_inv, of 100000] by (auto simp: p)
  have "walk (tbl s') L0_BASE_PHYS (kva 0 + 4096 * of_nat 0 + 0) = None"
    using w [rule_format, of 0 0] by simp
  then show ?thesis using s' by (simp add: kva_def)
qed

text \<open>
  A request for more than 64 pages writes past the end of the array \<open>res[64]\<close> on the stack
  of \<open>kmalloc\<close>, unless the pool runs out first.
\<close>

lemma kmalloc_overflows_res:
  assumes "bump (GlobalBitMapArray s) n" and "n + 64 < BITMAP_PAGES" and "64 < pages_needed sz"
  shows "kmalloc l2mem sz s = Inl ResOverflow"
  using assms set_bitmap_loop_overflow [of "GlobalBitMapArray s" n "replicate 64 None" 0 "pages_needed sz" 0]
  by (simp add: kmalloc_def allocate_mem_eq)

lemma kmalloc_overflows_res_witness:
  "kmalloc 0x8008e000 266241 boot_state = Inl ResOverflow"
  using kmalloc_overflows_res [of boot_state 0 266241] by (simp add: boot_state_def bump_empty pages_needed_def)

text \<open>
  When no page is free, \<open>kmalloc\<close> of any size goes on to read \<open>res[0]\<close>, which nothing has
  written: the address it would return is not determined by the program.
\<close>

lemma kmalloc_exhausted_reads_res:
  assumes "bump (GlobalBitMapArray s) BITMAP_PAGES"
  shows "kmalloc l2mem sz s = Inl ResUninit"
  using pages_needed_pos [of sz]
  by (simp add: kmalloc_def allocate_mem_eq set_bitmap_loop_full [OF assms])

definition full_bitmap :: AllocateMem where
  "full_bitmap = \<lparr>buffer = (\<lambda>_. - 1)\<rparr>"

lemma bump_full: "bump full_bitmap BITMAP_PAGES"
  by (simp add: bump_def page_used_def full_bitmap_def bit_minus_1_iff)

lemma kmalloc_exhausted_reads_res_witness:
  "kmalloc 0x8008e000 64 (boot_state\<lparr>GlobalBitMapArray := full_bitmap\<rparr>) = Inl ResUninit"
  by (rule kmalloc_exhausted_reads_res) (simp add: bump_full)


section \<open>The second 2 MiB of the pool\<close>

text \<open>
  The l3 table for l2 index \<open>i\<close> is placed \<open>512 * i\<close> bytes into the pool, not \<open>4096 * i\<close>.  A
  table descriptor has no room for that offset, so the l2 entry of the second 2 MiB leads to
  the table of the first.
\<close>

lemma second_table:
  assumes "l3_pool_ok l2mem"
  shows "(l2mem + 0x200) AND 0xFFFFFFFFF000 = l2mem"
    and "cell (0xFFFF000000000000 OR (l2mem + 0x200)) i = cell l2mem (64 + i)"
proof -
  have lt: "unat l2mem + 512 < 2 ^ 48"
    using assms in_image_unat(2) [of l2mem] by (simp add: l3_pool_ok_def)
  have u: "unat (l2mem + 0x200) = unat l2mem + 512"
    using lt by (simp add: unat_word_ariths)
  have al: "unat l2mem mod 4096 = 0"
    using l3_pool_okD(1) [OF assms] by (simp add: page_aligned_unat)
  have "(unat l2mem + 512) div 4096 * 4096 = unat l2mem"
    using al by auto
  then show "(l2mem + 0x200) AND 0xFFFFFFFFF000 = l2mem"
    using lt by (simp add: word_unat_eq_iff unat_and_page_part u)
  have "(0xFFFF000000000000 :: u64) AND (l2mem + 0x200) = 0xFFFF000000000000 AND convert_to_physical (l2mem + 0x200)"
    using lt by (subst (1) word_unat_eq_iff [THEN iffD2, of "convert_to_physical (l2mem + 0x200)" "l2mem + 0x200", symmetric])
      (simp_all add: unat_convert_to_physical u)
  also have "\<dots> = 0" by (simp add: convert_to_physical_and and.left_commute [of _ "l2mem + 512"])
  finally have o: "0xFFFF000000000000 OR (l2mem + 0x200) = 0xFFFF000000000000 + (l2mem + 0x200)"
    by (simp add: disjunctive_add_eq_or)
  have "convert_to_physical (0xFFFF000000000000 + x) = convert_to_physical x" for x
    by (simp add: word_unat_eq_iff unat_convert_to_physical unat_word_ariths mod_mod_cancel)
      (simp add: mod_add_eq [symmetric])
  then show "cell (0xFFFF000000000000 OR (l2mem + 0x200)) i = cell l2mem (64 + i)"
    unfolding cell_def o using \<open>\<And>x. convert_to_physical (0xFFFF000000000000 + x) = convert_to_physical x\<close>
      [of "l2mem + 0x200 + 8 * i"]
    by (simp only: add.assoc distrib_left) simp
qed

text \<open>The tables after page \<open>512 + j\<close> has been entered behind 512 mapped pages.\<close>

lemma second_region_cells:
  assumes "kmalloc_inv l2mem 512 {..<512} s" and "j < 448"
  shows "\<exists>m. map_pagetable_entry l2mem (kva (512 + j)) (kpa (512 + j)) 1 s = (True, s\<lparr>tbl := m\<rparr>) \<and>
    m (cell L0_BASE_PHYS 0) = make_table_desc L1_BASE_PHYS \<and>
    m (cell L1_BASE_PHYS 3) = make_table_desc L2_INDEX3_BASE_PHYS \<and>
    m (cell L2_INDEX3_BASE_PHYS 0) = make_table_desc l2mem \<and>
    m (cell L2_INDEX3_BASE_PHYS 1) = make_table_desc (l2mem + 0x200) \<and>
    m (cell l2mem (of_nat j)) = make_l3_block_desc (kpa j) \<and>
    m (cell l2mem (of_nat (64 + j))) = make_l3_block_desc (kpa (512 + j))"
proof -
  have ok: "l3_pool_ok l2mem" using assms(1) by (simp add: kmalloc_inv_def)
  have ne: "{..<512 :: nat} \<noteq> {}" by (simp add: lessThan_empty_iff)
  have i1: "(512 + j) div 512 = 1" "(512 + j) mod 512 = j" "(64 + j) div 512 = 0" "(64 + j) mod 512 = 64 + j"
    "j < 512"
    using assms(2) by simp_all
  note ix = kva_indices [of "512 + j", unfolded i1] kva_indices [of "64 + j", unfolded i1]
  let ?m = "(tbl s)(cell L2_INDEX3_BASE_PHYS 1 := make_table_desc (l2mem + 0x200),
      cell l2mem (of_nat (64 + j)) := make_l3_block_desc (kpa (512 + j)))"
  have m: "map_pagetable_entry l2mem (kva (512 + j)) (kpa (512 + j)) 1 s = (True, s\<lparr>tbl := ?m\<rparr>)"
    using assms(1,2) ix(3) [of 0] ix(4) [of 0] l3_pool_okD(3) [OF ok]
    by (simp add: map_pagetable_entry_def kmalloc_inv_def map_pages_def map_one_page_def Let_def
        set_table_entry_def second_table [OF ok] ne)
  note b = of_nat_index_bound [of "64 + j"] of_nat_index_bound [of j]
  have d: "cell l2mem (of_nat (64 + j)) \<noteq> cell L0_BASE_PHYS 0" "cell l2mem (of_nat (64 + j)) \<noteq> cell L1_BASE_PHYS 3"
    "cell l2mem (of_nat (64 + j)) \<noteq> cell L2_INDEX3_BASE_PHYS 1" "cell l2mem (of_nat (64 + j)) \<noteq> cell L2_INDEX3_BASE_PHYS 0"
    "cell l2mem (of_nat (64 + j)) \<noteq> cell l2mem (of_nat j)"
    "cell L2_INDEX3_BASE_PHYS 1 \<noteq> cell l2mem (of_nat j)"
    using assms(2) b l3_cells_distinct [OF ok, of "of_nat (64 + j)"] l3_cells_distinct(4) [OF ok, of "of_nat j" 1]
    by (simp_all add: of_nat_index_inject del: of_nat_add)
  have inv: "tbl s (cell L0_BASE_PHYS 0) = make_table_desc L1_BASE_PHYS"
    "tbl s (cell L1_BASE_PHYS 3) = make_table_desc L2_INDEX3_BASE_PHYS"
    "tbl s (cell L2_INDEX3_BASE_PHYS 0) = make_table_desc l2mem"
    "tbl s (cell l2mem (of_nat j)) = make_l3_block_desc (kpa j)"
    using assms(1) i1(5) ne by (simp_all add: kmalloc_inv_def)
  have dd: "cell L0_BASE_PHYS 0 \<noteq> cell L2_INDEX3_BASE_PHYS 1" "cell L1_BASE_PHYS 3 \<noteq> cell L2_INDEX3_BASE_PHYS 1"
    "cell L2_INDEX3_BASE_PHYS 0 \<noteq> cell L2_INDEX3_BASE_PHYS 1"
    by (simp_all add: cell_simps)
  have "?m (cell L0_BASE_PHYS 0) = make_table_desc L1_BASE_PHYS"
    "?m (cell L1_BASE_PHYS 3) = make_table_desc L2_INDEX3_BASE_PHYS"
    "?m (cell L2_INDEX3_BASE_PHYS 0) = make_table_desc l2mem"
    "?m (cell L2_INDEX3_BASE_PHYS 1) = make_table_desc (l2mem + 0x200)"
    "?m (cell l2mem (of_nat j)) = make_l3_block_desc (kpa j)"
    "?m (cell l2mem (of_nat (64 + j))) = make_l3_block_desc (kpa (512 + j))"
    by (simp_all only: fun_upd_apply d [symmetric] dd inv if_False if_True refl)
  then show ?thesis using m by blast
qed

text \<open>
  The 4 KiB tables of the pool overlap.  When the first 2 MiB of the pool are all mapped
  and the next page \<open>512 + j\<close> is entered (\<open>j < 448\<close>), the call reports success, but the
  address of the new page translates to the physical page \<open>j\<close>, which belongs to an earlier
  block, and the address of page \<open>64 + j\<close> now translates to the new physical page.
\<close>

lemma second_region_aliases_first:
  assumes "kmalloc_inv l2mem 512 {..<512} s" and "j < 448" and "off < 0x1000"
  shows "\<exists>s'. map_pagetable_entry l2mem (kva (512 + j)) (kpa (512 + j)) 1 s = (True, s') \<and>
    walk (tbl s') L0_BASE_PHYS (kva (512 + j) + off) = Some (kpa j + off) \<and>
    walk (tbl s') L0_BASE_PHYS (kva (64 + j) + off) = Some (kpa (512 + j) + off)"
proof -
  have ok: "l3_pool_ok l2mem" using assms(1) by (simp add: kmalloc_inv_def)
  have i1: "(512 + j) div 512 = 1" "(512 + j) mod 512 = j" "(64 + j) div 512 = 0" "(64 + j) mod 512 = 64 + j"
    using assms(2) by simp_all
  have t: "table_address (make_table_desc (l2mem + 0x200)) = l2mem" "table_address (make_table_desc l2mem) = l2mem"
    using l3_pool_okD [OF ok] second_table(1) [OF ok] by (simp_all add: desc_decode page_aligned_and_page_part)
  obtain m where m: "map_pagetable_entry l2mem (kva (512 + j)) (kpa (512 + j)) 1 s = (True, s\<lparr>tbl := m\<rparr>)"
    and l0: "m (cell L0_BASE_PHYS 0) = make_table_desc L1_BASE_PHYS"
      "m (cell L1_BASE_PHYS 3) = make_table_desc L2_INDEX3_BASE_PHYS"
      "m (cell L2_INDEX3_BASE_PHYS 0) = make_table_desc l2mem"
      "m (cell L2_INDEX3_BASE_PHYS 1) = make_table_desc (l2mem + 0x200)"
      "m (cell l2mem (of_nat j)) = make_l3_block_desc (kpa j)"
      "m (cell l2mem (of_nat (64 + j))) = make_l3_block_desc (kpa (512 + j))"
    using second_region_cells [OF assms(1,2)] by blast
  have w1: "walk m L0_BASE_PHYS (kva (512 + j) + off) = Some (kpa j + off)"
    using assms(2)
    by (intro walk_page [OF l0(1,2) _ desc_decode(1) t(1) _ _ _ assms(3)])
      (simp_all only: l0 i1 of_nat_1)
  have l2: "m (cell L2_INDEX3_BASE_PHYS (of_nat ((64 + j) div 512))) = make_table_desc l2mem"
    unfolding i1 semiring_1_class.of_nat_0 by (rule l0(3))
  have "walk m L0_BASE_PHYS (kva (64 + j) + off) = Some (kpa (512 + j) + off)"
    using assms(2)
    by (intro walk_page [OF l0(1,2) l2 desc_decode(1) t(2) _ _ _ assms(3)])
      (simp_all only: l0 i1)
  then show ?thesis using m w1 by auto
qed

lemma second_region_aliases_first_witness:
  "\<exists>s s'. kmalloc_inv 0x8008e000 512 {..<512} s \<and>
     map_pagetable_entry 0x8008e000 0xFFFF0000C0203000 0xC0203000 1 s = (True, s') \<and>
     walk (tbl s') L0_BASE_PHYS 0xFFFF0000C0203008 = Some 0xC0003008 \<and>
     walk (tbl s') L0_BASE_PHYS 0xFFFF0000C0043008 = Some 0xC0203008"
proof -
  have "\<forall>sz \<in> set (replicate 512 64). pages_needed sz \<le> 20"
    "0 + sum_list (map pages_needed (replicate 512 64)) \<le> 512"
    by (simp_all add: pages_needed_def sum_list_replicate)
  from kma.alloc_all_next [OF boot_state_inv this]
  obtain s where s: "kmalloc_inv 0x8008e000 512 {..<512} s"
    by (auto simp: pages_needed_def sum_list_replicate atLeast0LessThan)
  have "\<exists>s'. map_pagetable_entry 0x8008e000 (kva (512 + 3)) (kpa (512 + 3)) 1 s = (True, s') \<and>
      walk (tbl s') L0_BASE_PHYS (kva (512 + 3) + 8) = Some (kpa 3 + 8) \<and>
      walk (tbl s') L0_BASE_PHYS (kva (64 + 3) + 8) = Some (kpa (512 + 3) + 8)"
    by (rule second_region_aliases_first [OF s]) simp_all
  then show ?thesis using s by (auto simp: kva_def kpa_def)
qed

end
