(* ===== verification/UserMap.thy ===== *)
theory UserMap
  imports PageTable
begin

text \<open>
  The user space tables of \<^verbatim>\<open>kernel/core/mmu.c\<close>: \<open>map_user_to_physical\<close>, which enters ten
  pages, and \<open>map_user_to_physical_test\<close>, which enters one.  Both begin with the same writes to
  the l0, l1 and l2 tables of the process (\<open>map_user_tables\<close>).  The main facts are that the
  pages are identity mapped, that the tables of the other process are not touched, and what
  the single l3 table per process does to addresses that agree in their l3 index.
\<close>

section \<open>Operations\<close>

definition user_l0 :: "u64 \<Rightarrow> u64" where
  "user_l0 pid = (if pid = 1 then USER_PROCESS_1_TABLE_START else USER_PROCESS_2_TABLE_START)"

definition user_l0_w :: "u64 \<Rightarrow> u64" where
  "user_l0_w pid =
     (if pid = 1 then USER_PROCESS_1_TABLE_START_WRITABLE else USER_PROCESS_2_TABLE_START_WRITABLE)"

definition map_user_tables :: "u64 \<Rightarrow> u64 \<Rightarrow> cells \<Rightarrow> cells" where
  "map_user_tables pid address m =
    (let l0 = user_l0 pid;
         l0_w = user_l0_w pid;
         l1 = l0 + 0x00010000;
         l2 = l1 + 0x00010000;
         l3 = l2 + 0x00010000;
         l1_w = l0_w + 0x00010000;
         l2_w = l1_w + 0x00010000;
         l0_idx = calc_index_l0 address;
         l0_desc = make_table_desc l1;
         m = set_table_entry l0_w l0_idx l0_desc m;
         l1_idx = calc_index_l1 address;
         l1_desc = make_table_desc l2;
         m = set_table_entry l1_w l1_idx l1_desc m;
         l2_idx = calc_index_l2 address;
         l2_desc = make_table_desc l3
     in set_table_entry l2_w l2_idx l2_desc m)"

definition map_user_page :: "u64 \<Rightarrow> u64 \<Rightarrow> cells \<Rightarrow> cells" where
  "map_user_page pid address m =
    (let l3_w = user_l0_w pid + 0x00010000 + 0x00010000 + 0x00010000;
         l3_idx = calc_index_l3 address;
         l3_desc = make_l3_block_desc address
     in set_table_entry l3_w l3_idx l3_desc m)"

definition map_user_to_physical :: "u64 \<Rightarrow> u64 \<Rightarrow> cells \<Rightarrow> cells" where
  "map_user_to_physical pid address m =
     fold (\<lambda>i. map_user_page pid (address + 4096 * of_nat i)) [0..<10]
       (map_user_tables pid address m)"

definition map_user_to_physical_test :: "u64 \<Rightarrow> u64 \<Rightarrow> cells \<Rightarrow> cells" where
  "map_user_to_physical_test pid address m = map_user_page pid address (map_user_tables pid address m)"

section \<open>The tables of a process\<close>

definition user_table :: "u64 \<Rightarrow> nat \<Rightarrow> u64" where
  "user_table pid k = user_l0 pid + 0x10000 * of_nat k"

lemma user_tables [simp]:
  "page_aligned (user_l0 pid)" "page_aligned (user_l0 pid + 0x10000)"
  "page_aligned (user_l0 pid + 0x20000)" "page_aligned (user_l0 pid + 0x30000)"
  "convert_to_physical (user_l0 pid) = user_l0 pid"
  "convert_to_physical (user_l0 pid + 0x10000) = user_l0 pid + 0x10000"
  "convert_to_physical (user_l0 pid + 0x20000) = user_l0 pid + 0x20000"
  "convert_to_physical (user_l0 pid + 0x30000) = user_l0 pid + 0x30000"
  by (simp_all add: user_l0_def page_aligned_def convert_to_physical_def)

lemma user_tables_writable:
  "page_aligned (user_l0_w pid)" "page_aligned (user_l0_w pid + 0x10000)"
  "page_aligned (user_l0_w pid + 0x20000)" "page_aligned (user_l0_w pid + 0x30000)"
  "convert_to_physical (user_l0_w pid) = user_l0 pid"
  "convert_to_physical (user_l0_w pid + 0x10000) = user_l0 pid + 0x10000"
  "convert_to_physical (user_l0_w pid + 0x20000) = user_l0 pid + 0x20000"
  "convert_to_physical (user_l0_w pid + 0x30000) = user_l0 pid + 0x30000"
  by (simp_all add: user_l0_def user_l0_w_def page_aligned_def convert_to_physical_def)

lemma cell_writable:
  assumes "i < 0x200"
  shows "cell (user_l0_w pid) i = cell (user_l0 pid) i"
    "cell (user_l0_w pid + 0x10000) i = cell (user_l0 pid + 0x10000) i"
    "cell (user_l0_w pid + 0x20000) i = cell (user_l0 pid + 0x20000) i"
    "cell (user_l0_w pid + 0x30000) i = cell (user_l0 pid + 0x30000) i"
  using assms by (simp_all add: cell_simps user_tables_writable)

lemma map_user_tables_cells:
  "map_user_tables pid a m =
    m(cell (user_l0 pid) (calc_index_l0 a) := make_table_desc (user_l0 pid + 0x10000),
      cell (user_l0 pid + 0x10000) (calc_index_l1 a) := make_table_desc (user_l0 pid + 0x20000),
      cell (user_l0 pid + 0x20000) (calc_index_l2 a) := make_table_desc (user_l0 pid + 0x30000))"
  by (simp add: map_user_tables_def Let_def set_table_entry_def cell_writable add.assoc)

lemma map_user_page_cells:
  "map_user_page pid a m =
    m(cell (user_l0 pid + 0x30000) (calc_index_l3 a) := make_l3_block_desc a)"
  by (simp add: map_user_page_def Let_def set_table_entry_def cell_writable add.assoc)

lemma user_table_address [simp]:
  "table_address (make_table_desc (user_l0 pid + 0x10000)) = user_l0 pid + 0x10000"
  "table_address (make_table_desc (user_l0 pid + 0x20000)) = user_l0 pid + 0x20000"
  "table_address (make_table_desc (user_l0 pid + 0x30000)) = user_l0 pid + 0x30000"
  by (simp_all add: desc_decode page_aligned_and_page_part)

lemma user_walk:
  assumes "m (cell (user_l0 pid) (calc_index_l0 va)) = make_table_desc (user_l0 pid + 0x10000)"
    and "m (cell (user_l0 pid + 0x10000) (calc_index_l1 va)) = make_table_desc (user_l0 pid + 0x20000)"
    and "m (cell (user_l0 pid + 0x20000) (calc_index_l2 va)) = make_table_desc (user_l0 pid + 0x30000)"
    and "m (cell (user_l0 pid + 0x30000) (calc_index_l3 va)) = make_l3_block_desc pa"
  shows "walk m (user_l0 pid) va = Some ((pa AND 0xFFFFFFFFF000) OR (va AND 0xFFF))"
  by (simp add: walk_def Let_def assms desc_decode(1,2,5))

text \<open>The upper three tables after the call, and after pages have been entered.\<close>

lemma map_user_pages_frame:
  assumes "\<forall>i < 0x200. a \<noteq> cell (user_l0 pid + 0x30000) i"
  shows "fold (\<lambda>i. map_user_page pid (f i)) xs m a = m a"
  using assms by (induction xs arbitrary: m) (simp_all add: map_user_page_cells)

lemma user_upper_frame:
  assumes "i < 0x200"
  shows "fold (\<lambda>i. map_user_page pid (f i)) xs m (cell (user_l0 pid) i) = m (cell (user_l0 pid) i)"
    "fold (\<lambda>i. map_user_page pid (f i)) xs m (cell (user_l0 pid + 0x10000) i) = m (cell (user_l0 pid + 0x10000) i)"
    "fold (\<lambda>i. map_user_page pid (f i)) xs m (cell (user_l0 pid + 0x20000) i) = m (cell (user_l0 pid + 0x20000) i)"
  using assms by (intro map_user_pages_frame; simp add: cell_simps)+

lemma map_user_tables_upper:
  "map_user_tables pid a m (cell (user_l0 pid) (calc_index_l0 a)) = make_table_desc (user_l0 pid + 0x10000)"
  "map_user_tables pid a m (cell (user_l0 pid + 0x10000) (calc_index_l1 a)) = make_table_desc (user_l0 pid + 0x20000)"
  "map_user_tables pid a m (cell (user_l0 pid + 0x20000) (calc_index_l2 a)) = make_table_desc (user_l0 pid + 0x30000)"
  by (simp_all add: map_user_tables_cells cell_simps)

section \<open>Indices of the pages of a block\<close>

lemma calc_index_l3_plus:
  "unat (calc_index_l3 (a + 4096 * of_nat i)) = (unat a div 4096 + i) mod 512"
proof -
  have "unat (a + 4096 * of_nat i) = (unat a + 4096 * i) mod 2 ^ 64"
    by (simp add: unat_word_ariths unat_of_nat mod_simps)
  moreover have "(x :: nat) mod 2 ^ 64 div 4096 mod 512 = x div 4096 mod 512" for x
  proof -
    have "x mod 2 ^ 64 div 4096 = x div 4096 mod 2 ^ 52"
      using div_mult2_eq [of x 4096 "2 ^ 52"] by (simp add: mod_mult2_eq [of x 4096 "2 ^ 52", simplified])
    then show ?thesis by (simp add: mod_mod_cancel)
  qed
  moreover have "(unat a + 4096 * i) div 4096 = unat a div 4096 + i" by simp
  ultimately show ?thesis by (simp add: unat_calc_index add.commute)
qed

lemma consecutive_indices_distinct:
  fixes x i j :: nat
  assumes "(x + i) mod 512 = (x + j) mod 512" "i < 512" "j < 512"
  shows "i = j"
proof -
  have "(int x + int i) mod 512 = (int x + int j) mod 512"
    using arg_cong [OF assms(1), of int] by (simp add: zmod_int)
  then have "(int x + int i - int x) mod 512 = (int x + int j - int x) mod 512"
    by (rule mod_diff_cong) simp
  then show ?thesis using assms(2,3) by simp
qed

lemma map_user_pages_l3:
  assumes "i < n" and "n \<le> 512"
  shows "fold (\<lambda>i. map_user_page pid (a + 4096 * of_nat i)) [0..<n] m
      (cell (user_l0 pid + 0x30000) (calc_index_l3 (a + 4096 * of_nat i))) =
    make_l3_block_desc (a + 4096 * of_nat i)"
  using assms
proof (induction n)
  case 0
  then show ?case by simp
next
  case (Suc n)
  have "calc_index_l3 (a + 4096 * of_nat i) = calc_index_l3 (a + 4096 * of_nat n) \<longleftrightarrow> i = n"
    using Suc.prems consecutive_indices_distinct [of "unat a div 4096" i n]
    by (auto simp: word_unat_eq_iff calc_index_l3_plus)
  then show ?case
    using Suc by (auto simp: map_user_page_cells cell_simps)
qed


lemma same_page_indices:
  assumes "drop_bit 12 va = drop_bit 12 pa"
  shows "calc_index_l0 va = calc_index_l0 pa" "calc_index_l1 va = calc_index_l1 pa"
    "calc_index_l2 va = calc_index_l2 pa" "calc_index_l3 va = calc_index_l3 pa"
proof -
  have d: "drop_bit (12 + k) va = drop_bit (12 + k) pa" for k
    using arg_cong [OF assms, of "drop_bit k"] by (simp add: ac_simps)
  show "calc_index_l0 va = calc_index_l0 pa" "calc_index_l1 va = calc_index_l1 pa"
    "calc_index_l2 va = calc_index_l2 pa" "calc_index_l3 va = calc_index_l3 pa"
    using d [of 27] d [of 18] d [of 9] d [of 0]
    by (simp_all add: calc_index_l0_def calc_index_l1_def calc_index_l2_def calc_index_l3_def)
qed

lemma same_page_address:
  assumes "drop_bit 12 va = drop_bit 12 pa"
  shows "(pa AND 0xFFFFFFFFF000) OR (va AND 0xFFF) = convert_to_physical va"
proof -
  have "bit pa n = bit va n" if "12 \<le> n" for n
  proof -
    have "bit (drop_bit 12 va) (n - 12) = bit (drop_bit 12 pa) (n - 12)" by (simp only: assms)
    then show ?thesis using that by (simp add: bit_drop_bit_eq)
  qed
  then show ?thesis
    unfolding convert_to_physical_and upper_mask_numerals mask_numerals
    by (intro bit_word_eqI) (auto simp: bit_simps not_le)
qed

text \<open>The upper indices of the pages of a block do not change inside a 2 MiB region.\<close>

lemma upper_indices_plus:
  assumes "unat (calc_index_l3 a) + i < 512"
  shows "calc_index_l0 (a + 4096 * of_nat i) = calc_index_l0 a"
    "calc_index_l1 (a + 4096 * of_nat i) = calc_index_l1 a"
    "calc_index_l2 (a + 4096 * of_nat i) = calc_index_l2 a"
proof -
  define q where "q = unat a div 2097152"
  define r where "r = unat a div 4096 mod 512"
  define x where "x = unat a mod 4096"
  have ua: "unat a < 2 ^ 64" using unsigned_less [of a] by simp
  have x: "x < 4096" and q: "q < 2 ^ 43" using ua by (simp_all add: x_def q_def)
  have r: "r + i < 512" using assms by (simp add: unat_calc_index r_def)
  have a: "unat a = 2097152 * q + 4096 * r + x"
  proof -
    have "unat a div 4096 = 512 * q + r"
      using div_mult2_eq [of "unat a" 4096 512] by (simp add: q_def r_def)
    moreover have "unat a = 4096 * (unat a div 4096) + x" by (simp add: x_def)
    ultimately show ?thesis by simp
  qed
  have u: "unat (a + 4096 * of_nat i) = (unat a + 4096 * i) mod 2 ^ 64"
    by (simp add: unat_word_ariths unat_of_nat mod_simps)
  have s: "unat a + 4096 * i = 2097152 * q + 4096 * (r + i) + x"
    unfolding a by (simp only: distrib_left add_ac)
  have lt: "2097152 * q + 4096 * (r + i) + x < 2 ^ 64"
    using q r x by simp
  have b: "unat (a + 4096 * of_nat i) = 2097152 * q + 4096 * (r + i) + x"
    unfolding u s using lt by (rule mod_less)
  have "(2097152 * q + 4096 * (r + i) + x) div 2097152 = q" "(2097152 * q + 4096 * r + x) div 2097152 = q"
    using r x by simp_all
  then have d: "unat (a + 4096 * of_nat i) div 2 ^ 21 = unat a div 2 ^ 21" by (simp add: a b)
  have d': "unat (a + 4096 * of_nat i) div 2 ^ (21 + k) = unat a div 2 ^ (21 + k)" for k
    by (simp only: power_add div_mult2_eq d)
  show "calc_index_l0 (a + 4096 * of_nat i) = calc_index_l0 a"
    "calc_index_l1 (a + 4096 * of_nat i) = calc_index_l1 a"
    "calc_index_l2 (a + 4096 * of_nat i) = calc_index_l2 a"
    using d' [of 18] d' [of 9] d' [of 0]
    by (simp_all add: word_unat_eq_iff unat_calc_index)
qed

text \<open>The page of an address inside the block that is entered, as a walk.\<close>

lemma map_user_walk:
  assumes "i < 10" and "unat (calc_index_l3 address) + i < 512"
    and "drop_bit 12 va = drop_bit 12 (address + 4096 * of_nat i)"
  shows "walk (map_user_to_physical pid address m) (user_l0 pid) va = Some (convert_to_physical va)"
proof -
  note ix = same_page_indices [OF assms(3)] upper_indices_plus [OF assms(2)]
  have "walk (map_user_to_physical pid address m) (user_l0 pid) va =
      Some (((address + 4096 * of_nat i) AND 0xFFFFFFFFF000) OR (va AND 0xFFF))"
    unfolding map_user_to_physical_def
    by (rule user_walk)
      (simp_all only: ix user_upper_frame [OF calc_index_bound(1)] user_upper_frame [OF calc_index_bound(2)]
        user_upper_frame [OF calc_index_bound(3)] map_user_tables_upper map_user_pages_l3 [OF assms(1)])
  then show ?thesis by (simp only: same_page_address [OF assms(3)])
qed

text \<open>A page entered before stays mapped unless one of the ten new pages has its l3 index.\<close>

lemma map_user_pages_l3_other:
  assumes "\<forall>i \<in> set xs. calc_index_l3 (f i) \<noteq> j" and "j < 0x200"
  shows "fold (\<lambda>i. map_user_page pid (f i)) xs m (cell (user_l0 pid + 0x30000) j) = m (cell (user_l0 pid + 0x30000) j)"
  using assms by (induction xs arbitrary: m) (auto simp: map_user_page_cells cell_simps)

lemma map_user_tables_keep:
  "m (cell (user_l0 pid) (calc_index_l0 va)) = make_table_desc (user_l0 pid + 0x10000) \<Longrightarrow>
   map_user_tables pid a m (cell (user_l0 pid) (calc_index_l0 va)) = make_table_desc (user_l0 pid + 0x10000)"
  "m (cell (user_l0 pid + 0x10000) (calc_index_l1 va)) = make_table_desc (user_l0 pid + 0x20000) \<Longrightarrow>
   map_user_tables pid a m (cell (user_l0 pid + 0x10000) (calc_index_l1 va)) = make_table_desc (user_l0 pid + 0x20000)"
  "m (cell (user_l0 pid + 0x20000) (calc_index_l2 va)) = make_table_desc (user_l0 pid + 0x30000) \<Longrightarrow>
   map_user_tables pid a m (cell (user_l0 pid + 0x20000) (calc_index_l2 va)) = make_table_desc (user_l0 pid + 0x30000)"
  "i < 0x200 \<Longrightarrow> map_user_tables pid a m (cell (user_l0 pid + 0x30000) i) = m (cell (user_l0 pid + 0x30000) i)"
  by (simp_all add: map_user_tables_cells cell_simps)

lemma map_test_then_map_walk:
  assumes "drop_bit 12 va = drop_bit 12 a" and "\<forall>i < 10. calc_index_l3 (b + 4096 * of_nat i) \<noteq> calc_index_l3 a"
  shows "walk (map_user_to_physical pid b (map_user_to_physical_test pid a m)) (user_l0 pid) va =
    Some (convert_to_physical va)"
proof -
  let ?m = "map_user_to_physical_test pid a m"
  note ix = same_page_indices [OF assms(1)]
  have t: "?m (cell (user_l0 pid) (calc_index_l0 va)) = make_table_desc (user_l0 pid + 0x10000)"
    "?m (cell (user_l0 pid + 0x10000) (calc_index_l1 va)) = make_table_desc (user_l0 pid + 0x20000)"
    "?m (cell (user_l0 pid + 0x20000) (calc_index_l2 va)) = make_table_desc (user_l0 pid + 0x30000)"
    "?m (cell (user_l0 pid + 0x30000) (calc_index_l3 va)) = make_l3_block_desc a"
    by (simp_all add: ix map_user_to_physical_test_def map_user_tables_cells map_user_page_cells cell_simps)
  have l3: "\<forall>i \<in> set [0..<10]. calc_index_l3 (b + 4096 * of_nat i) \<noteq> calc_index_l3 va"
    using assms(2) by (simp add: ix)
  have "walk (map_user_to_physical pid b ?m) (user_l0 pid) va =
      Some ((a AND 0xFFFFFFFFF000) OR (va AND 0xFFF))"
    unfolding map_user_to_physical_def
    by (rule user_walk)
      (simp_all only: user_upper_frame [OF calc_index_bound(1)] user_upper_frame [OF calc_index_bound(2)]
        user_upper_frame [OF calc_index_bound(3)] map_user_pages_l3_other [OF l3 calc_index_bound(4)]
        map_user_tables_keep(1) [where m = ?m, OF t(1)]
        map_user_tables_keep(2) [where m = ?m, OF t(2)] map_user_tables_keep(3) [where m = ?m, OF t(3)]
        map_user_tables_keep(4) [OF calc_index_bound(4)] t)
  then show ?thesis by (simp only: same_page_address [OF assms(1)])
qed

text \<open>Nothing outside the four tables of the process changes.\<close>

lemma map_user_frame:
  assumes "page_aligned b" and "i < 0x200" and "\<forall>k < 4. convert_to_physical b \<noteq> user_table pid k"
  shows "map_user_to_physical pid address m (cell b i) = m (cell b i)"
    "map_user_to_physical_test pid address m (cell b i) = m (cell b i)"
proof -
  have ne: "convert_to_physical b \<noteq> user_l0 pid" "convert_to_physical b \<noteq> user_l0 pid + 0x10000"
    "convert_to_physical b \<noteq> user_l0 pid + 0x20000" "convert_to_physical b \<noteq> user_l0 pid + 0x30000"
    using assms(3) [rule_format, of 0] assms(3) [rule_format, of 1] assms(3) [rule_format, of 2]
      assms(3) [rule_format, of 3] by (simp_all add: user_table_def)
  then have d: "cell b i \<noteq> cell (user_l0 pid) j" "cell b i \<noteq> cell (user_l0 pid + 0x10000) j"
    "cell b i \<noteq> cell (user_l0 pid + 0x20000) j" "cell b i \<noteq> cell (user_l0 pid + 0x30000) j"
    if "j < 0x200" for j
    using that assms(1,2) by (simp_all add: cell_eq_iff)
  show "map_user_to_physical pid address m (cell b i) = m (cell b i)"
    unfolding map_user_to_physical_def
    by (subst map_user_pages_frame) (simp_all add: d map_user_tables_cells)
  show "map_user_to_physical_test pid address m (cell b i) = m (cell b i)"
    by (simp add: map_user_to_physical_test_def map_user_tables_cells map_user_page_cells d)
qed

section \<open>Properties\<close>

text \<open>
  After \<open>map_user_to_physical\<close> every address of the ten pages that start at the page of
  \<open>address\<close> and lie in the same 2 MiB region is identity mapped for the process: it
  translates, through the tables of that process, to its low 48 bits.
\<close>

lemma user_pages_identity_mapped:
  assumes "i < 10" and "unat (calc_index_l3 address) + i < 512"
    and "drop_bit 12 va = drop_bit 12 (address + 4096 * of_nat i)"
  shows "walk (map_user_to_physical pid address m) (user_l0 pid) va = Some (convert_to_physical va)"
  by (rule map_user_walk [OF assms])

lemma user_pages_identity_mapped_witness:
  "walk (map_user_to_physical 1 0x80001f38 (\<lambda>_. 0)) 0x80A00000 0x80003010 = Some 0x80003010"
  using user_pages_identity_mapped [of 2 "0x80001f38" "0x80003010" 1 "\<lambda>_. 0"]
  by (simp add: calc_index_l3_def user_l0_def convert_to_physical_def)

text \<open>
  The ten pages are entered into one l3 table even when they cross a 2 MiB boundary: a
  page whose l3 index wraps to 0 appears at the beginning of the region of \<open>address\<close>, up to
  2 MiB below where the caller asked for it.
\<close>

lemma user_pages_wrap_at_region_end:
  assumes "i < 10" and "calc_index_l0 va = calc_index_l0 address"
    and "calc_index_l1 va = calc_index_l1 address" and "calc_index_l2 va = calc_index_l2 address"
    and "calc_index_l3 va = calc_index_l3 (address + 4096 * of_nat i)"
  shows "walk (map_user_to_physical pid address m) (user_l0 pid) va =
    Some (((address + 4096 * of_nat i) AND 0xFFFFFFFFF000) OR (va AND 0xFFF))"
  unfolding map_user_to_physical_def
  by (rule user_walk)
    (simp_all only: assms(2-5) user_upper_frame [OF calc_index_bound(1)] user_upper_frame [OF calc_index_bound(2)]
      user_upper_frame [OF calc_index_bound(3)] map_user_tables_upper map_user_pages_l3 [OF assms(1)])

lemma user_pages_wrap_at_region_end_witness:
  "walk (map_user_to_physical 2 0x801FE000 (\<lambda>_. 0)) 0x80A60000 0x80000004 = Some 0x80200004"
  using user_pages_wrap_at_region_end [of 2 "0x80000004" "0x801FE000" 2 "\<lambda>_. 0"]
  by (simp add: calc_index_l0_def calc_index_l1_def calc_index_l2_def calc_index_l3_def user_l0_def)

text \<open>
  All l2 entries of a process lead to the same l3 table, so two pages whose addresses have
  the same l3 index are not mapped independently: after mapping \<open>a\<close> and then \<open>b\<close> (as \<open>init_task\<close>
  does with code and stack), the address \<open>a\<close> translates to the physical page of \<open>b\<close>.
\<close>

lemma user_maps_share_l3:
  assumes "calc_index_l3 a = calc_index_l3 b"
  shows "walk (map_user_to_physical_test pid b (map_user_to_physical_test pid a m)) (user_l0 pid) a =
    Some ((b AND 0xFFFFFFFFF000) OR (a AND 0xFFF))"
  unfolding map_user_to_physical_test_def
  by (rule user_walk) (simp_all add: map_user_tables_cells map_user_page_cells cell_simps assms)

lemma user_maps_share_l3_witness:
  "walk (map_user_to_physical_test 1 0xC0001000 (map_user_to_physical_test 1 0x80001000 (\<lambda>_. 0)))
     0x80A00000 0x80001008 = Some 0xC0001008"
proof -
  have "walk (map_user_to_physical_test 1 0xC0001000 (map_user_to_physical_test 1 0x80001008 (\<lambda>_. 0)))
     0x80A00000 0x80001008 = Some 0xC0001008"
    using user_maps_share_l3 [of "0x80001008" "0xC0001000" 1 "\<lambda>_. 0"]
    by (simp add: calc_index_l3_def user_l0_def)
  moreover have "map_user_to_physical_test 1 0x80001008 (\<lambda>_. 0) = map_user_to_physical_test 1 0x80001000 (\<lambda>_. 0)"
    by (simp add: map_user_to_physical_test_def map_user_tables_cells map_user_page_cells
        calc_index_l0_def calc_index_l1_def calc_index_l2_def calc_index_l3_def make_desc_or)
  ultimately show ?thesis by simp
qed

text \<open>
  Isolation: mapping pages for one process leaves every entry of the four tables of the
  other process as it was, and with them everything that process can reach through them.
\<close>

lemma user_maps_isolated:
  assumes "(pid = 1) \<noteq> (other = 1)" and "k < 4" and "i < 0x200"
  shows "map_user_to_physical pid address m (cell (user_table other k) i) = m (cell (user_table other k) i) \<and>
    map_user_to_physical_test pid address m (cell (user_table other k) i) = m (cell (user_table other k) i)"
proof -
  have k: "k = 0 \<or> k = 1 \<or> k = 2 \<or> k = 3" using assms(2) by linarith
  have al: "page_aligned (user_table other k)" "convert_to_physical (user_table other k) = user_table other k"
    using k by (auto simp: user_table_def)
  have "user_table other k \<noteq> user_table pid l" if "l < 4" for l
  proof -
    have "l = 0 \<or> l = 1 \<or> l = 2 \<or> l = 3" using that by linarith
    then show ?thesis using k assms(1) by (auto simp: user_table_def user_l0_def)
  qed
  then show ?thesis
    using map_user_frame [OF al(1) assms(3), of pid] al(2) by simp
qed

lemma user_maps_isolated_witness:
  "map_user_to_physical 1 0x80001f38 (\<lambda>_. 7) (cell (user_table 2 3) 1) = 7"
  using user_maps_isolated [of 1 2 3 1 "0x80001f38" "\<lambda>_. 7"] by simp

end
