(* ===== verification/Mmio.thy ===== *)
theory Mmio
  imports Prelude
begin

text \<open>
  Memory mapped device registers.  What the kernel does to a device is the sequence of its
  register accesses, so the state of the bus is the history of accesses, oldest first.  What a
  device answers to a read is not in the repository: it is a parameter, a function of the
  history so far and the address.  \<open>bus_write\<close> and \<open>bus_read\<close> are the two accesses; the
  drivers' own \<open>w32\<close>, \<open>r32\<close>, \<open>write_into_reg\<close> and \<open>read_from_reg\<close> are built on them.
\<close>

datatype bus_event = BusWrite u64 u32 | BusRead u64 u32

type_synonym bus = "bus_event list"

type_synonym device = "bus \<Rightarrow> u64 \<Rightarrow> u32"

definition bus_write :: "u64 \<Rightarrow> u32 \<Rightarrow> bus \<Rightarrow> bus" where
  "bus_write a v h = h @ [BusWrite a v]"

definition bus_read :: "device \<Rightarrow> u64 \<Rightarrow> bus \<Rightarrow> u32 \<times> bus" where
  "bus_read dev a h = (dev h a, h @ [BusRead a (dev h a)])"

text \<open>The writes of a history, in order, and the last value written to a register.\<close>

fun bus_writes :: "bus \<Rightarrow> (u64 \<times> u32) list" where
  "bus_writes [] = []"
| "bus_writes (BusWrite a v # h) = (a, v) # bus_writes h"
| "bus_writes (BusRead a v # h) = bus_writes h"

definition last_written :: "u64 \<Rightarrow> bus \<Rightarrow> u32 option" where
  "last_written a h = map_of (rev (bus_writes h)) a"

named_theorems bus_simps \<open>histories after a sequence of accesses\<close>

lemma bus_writes_append [simp]: "bus_writes (h @ h') = bus_writes h @ bus_writes h'"
  by (induction h rule: bus_writes.induct) simp_all

lemma bus_writes_write [bus_simps]: "bus_writes (bus_write a v h) = bus_writes h @ [(a, v)]"
  by (simp add: bus_write_def)

lemma bus_writes_read [bus_simps]: "bus_writes (snd (bus_read dev a h)) = bus_writes h"
  by (simp add: bus_read_def)

lemma last_written_write [bus_simps]:
  "last_written a (bus_write b v h) = (if a = b then Some v else last_written a h)"
  by (simp add: last_written_def bus_simps)

lemma last_written_read [bus_simps]: "last_written a (snd (bus_read dev b h)) = last_written a h"
  by (simp add: last_written_def bus_simps)

end
