(* ===== verification/Irq.thy ===== *)
theory Irq
  imports Mmio
begin

text \<open>
  The interrupt controller \<^verbatim>\<open>kernel/drivers/irq/gicv2.c\<close> and the virtual timer
  \<^verbatim>\<open>kernel/core/scheduler/timer.c\<close>.  The record \<open>irq_state\<close> holds the bus history of the
  controller, the system registers of the timer, the static \<open>cntfrq\<close> and the saved program
  status \<open>SPSR_EL1\<close> that \<open>check_current_el\<close> reads; the scheduler's state extends it.
\<close>

record irq_state =
  gic_bus :: bus
  CNTV_TVAL_EL0 :: u64
  CNTV_CTL_EL0 :: u64
  CNTFRQ_EL0 :: u64
  cntfrq :: u64
  SPSR_EL1 :: u64

section \<open>The interrupt controller\<close>

definition VIRTUAL_GICD :: u64 where "VIRTUAL_GICD = 0xffff000081400000"
definition VIRTUAL_GICC :: u64 where "VIRTUAL_GICC = 0xffff000081410000"
definition IRQ_VTIMER :: nat where "IRQ_VTIMER = 27"

definition w32 :: "u64 \<Rightarrow> u32 \<Rightarrow> 'a irq_state_scheme \<Rightarrow> 'a irq_state_scheme" where
  "w32 a v s = s\<lparr>gic_bus := bus_write a v (gic_bus s)\<rparr>"

definition r32 :: "device \<Rightarrow> u64 \<Rightarrow> 'a irq_state_scheme \<Rightarrow> u32 \<times> 'a irq_state_scheme" where
  "r32 dev a s = (case bus_read dev a (gic_bus s) of (v, h) \<Rightarrow> (v, s\<lparr>gic_bus := h\<rparr>))"

definition gic_init :: "'a irq_state_scheme \<Rightarrow> 'a irq_state_scheme" where
  "gic_init s =
    (let s = w32 (VIRTUAL_GICD + 0x000) 1 s;
         s = w32 (VIRTUAL_GICD + 0x100) (push_bit IRQ_VTIMER 1) s;
         s = w32 (VIRTUAL_GICC + 0x000) 1 s
     in w32 (VIRTUAL_GICC + 0x004) 0xf0 s)"

definition gic_ack :: "device \<Rightarrow> 'a irq_state_scheme \<Rightarrow> u32 \<times> 'a irq_state_scheme" where
  "gic_ack dev s = r32 dev (VIRTUAL_GICC + 0x00C) s"

definition gic_eoi :: "u32 \<Rightarrow> 'a irq_state_scheme \<Rightarrow> 'a irq_state_scheme" where
  "gic_eoi irq s = w32 (VIRTUAL_GICC + 0x010) irq s"

section \<open>The timer\<close>

definition msr_cntv_tval :: "u64 \<Rightarrow> 'a irq_state_scheme \<Rightarrow> 'a irq_state_scheme" where
  "msr_cntv_tval v s = s\<lparr>CNTV_TVAL_EL0 := v\<rparr>"

definition enable_cntv :: "'a irq_state_scheme \<Rightarrow> 'a irq_state_scheme" where
  "enable_cntv s = s\<lparr>CNTV_CTL_EL0 := 1\<rparr>"

definition disable_cntv :: "'a irq_state_scheme \<Rightarrow> 'a irq_state_scheme" where
  "disable_cntv s = s\<lparr>CNTV_CTL_EL0 := 0\<rparr>"

definition read_cntfrq :: "'a irq_state_scheme \<Rightarrow> 'a irq_state_scheme" where
  "read_cntfrq s = s\<lparr>cntfrq := CNTFRQ_EL0 s\<rparr>"

definition set_cntv :: "'a irq_state_scheme \<Rightarrow> 'a irq_state_scheme" where
  "set_cntv s =
    (let s = read_cntfrq s;
         our_freq = cntfrq s div 10
     in msr_cntv_tval our_freq s)"

definition timer_init_1khz :: "'a irq_state_scheme \<Rightarrow> 'a irq_state_scheme" where
  "timer_init_1khz s = enable_cntv (set_cntv (read_cntfrq s))"

section \<open>Facts\<close>

lemma w32_simps [simp]:
  "gic_bus (w32 a v s) = bus_write a v (gic_bus s)"
  "irq_state.more (w32 a v s) = irq_state.more s"
  "SPSR_EL1 (w32 a v s) = SPSR_EL1 s"
  "CNTFRQ_EL0 (w32 a v s) = CNTFRQ_EL0 s" "CNTV_TVAL_EL0 (w32 a v s) = CNTV_TVAL_EL0 s"
  by (simp_all add: w32_def)

lemma set_cntv_eq:
  "set_cntv s = s\<lparr>cntfrq := CNTFRQ_EL0 s, CNTV_TVAL_EL0 := CNTFRQ_EL0 s div 10\<rparr>"
  by (simp add: set_cntv_def read_cntfrq_def msr_cntv_tval_def)

text \<open>
  \<open>timer_init_1khz\<close> enables the timer with an interval of a tenth of a second, whatever the
  frequency of the counter is: ten intervals fit into one second and eleven do not (the
  comments of the code speak of 1 ms and the name of 1 kHz).
\<close>

lemma timer_interval_tenth_second:
  "CNTV_CTL_EL0 (timer_init_1khz s) = 1 \<and>
   10 * unat (CNTV_TVAL_EL0 (timer_init_1khz s)) \<le> unat (CNTFRQ_EL0 s) \<and>
   unat (CNTFRQ_EL0 s) < 10 * (unat (CNTV_TVAL_EL0 (timer_init_1khz s)) + 1)"
proof -
  have "unat (CNTFRQ_EL0 s div 10) = unat (CNTFRQ_EL0 s) div 10" by (simp add: unat_div)
  then show ?thesis
    by (simp add: timer_init_1khz_def set_cntv_eq read_cntfrq_def enable_cntv_def)
qed

text \<open>The four writes of \<open>gic_init\<close>: distributor, interrupt 27, CPU interface, priority mask.\<close>

lemma gic_init_writes:
  "gic_bus (gic_init s) = gic_bus s @
     [BusWrite 0xffff000081400000 1, BusWrite 0xffff000081400100 0x08000000,
      BusWrite 0xffff000081410000 1, BusWrite 0xffff000081410004 0xf0]"
  by (simp add: gic_init_def bus_write_def VIRTUAL_GICD_def VIRTUAL_GICC_def IRQ_VTIMER_def)

end
