(* ===== verification/Simulation.thy ===== *)
theory Simulation
  imports Prelude
begin

text \<open>
  Runs as sequences of events, and when one system implements another along all of them.  The locale
  \<open>forward_simulation\<close> lifts the simulation of one event to a run; \<open>budgeted_simulation\<close> extends it
  with a cost per event (frames on a stack, pages of a pool), and says that a run within the budget can
  always be made.  \<open>Runtime\<close> and \<open>Traps\<close> interpret them, and the scheduler's contract in \<open>Sched\<close> is a case of the first.
\<close>

primrec run_events :: "('e \<Rightarrow> 's \<Rightarrow> 's option) \<Rightarrow> 'e list \<Rightarrow> 's \<Rightarrow> 's option" where
  "run_events step [] s = Some s"
| "run_events step (e # es) s = Option.bind (step e s) (run_events step es)"

primrec events_fit :: "('e \<Rightarrow> 'a \<Rightarrow> 'a) \<Rightarrow> ('e \<Rightarrow> 'a \<Rightarrow> bool) \<Rightarrow> 'e list \<Rightarrow> 'a \<Rightarrow> bool" where
  "events_fit astep fits [] a \<longleftrightarrow> True"
| "events_fit astep fits (e # es) a \<longleftrightarrow> fits e a \<and> events_fit astep fits es (astep e a)"

lemma events_fit_True: "events_fit astep (\<lambda>_ _. True) es a"
  by (induction es arbitrary: a) simp_all

text \<open>Events that are always handled.\<close>

lemma run_events_total: "run_events (\<lambda>e s. Some (f e s)) es s = Some (fold f es s)"
  by (induction es arbitrary: s) simp_all

locale forward_simulation =
  fixes step :: "'e \<Rightarrow> 's \<Rightarrow> 's option"
    and astep :: "'e \<Rightarrow> 'a \<Rightarrow> 'a"
    and rel :: "'s \<Rightarrow> 'a \<Rightarrow> bool"
    and fits :: "'e \<Rightarrow> 'a \<Rightarrow> bool"
  assumes event_simulates: "rel s a \<Longrightarrow> fits e a \<Longrightarrow> \<exists>s'. step e s = Some s' \<and> rel s' (astep e a)"
begin

lemma run_simulates:
  "rel s a \<Longrightarrow> events_fit astep fits es a \<Longrightarrow> \<exists>s'. run_events step es s = Some s' \<and> rel s' (fold astep es a)"
proof (induction es arbitrary: s a)
  case (Cons e es)
  then obtain s1 where "step e s = Some s1" "rel s1 (astep e a)" using event_simulates [of s a e] by auto
  then show ?case using Cons.IH [of s1 "astep e a"] Cons.prems(2) by simp
qed simp

end

text \<open>What is spent stays within \<open>limit\<close>; an event that is \<open>ok\<close> and can be paid for fits.\<close>

locale budgeted_simulation = forward_simulation step astep rel fits
  for step :: "'e \<Rightarrow> 's \<Rightarrow> 's option" and astep :: "'e \<Rightarrow> 'a \<Rightarrow> 'a" and rel :: "'s \<Rightarrow> 'a \<Rightarrow> bool" and fits :: "'e \<Rightarrow> 'a \<Rightarrow> bool" +
  fixes ok :: "'e \<Rightarrow> bool"
    and cost :: "'e \<Rightarrow> nat"
    and spent :: "'a \<Rightarrow> nat"
    and limit :: nat
  assumes affordable: "rel s a \<Longrightarrow> ok e \<Longrightarrow> spent a + cost e \<le> limit \<Longrightarrow> fits e a"
    and spends: "rel s a \<Longrightarrow> fits e a \<Longrightarrow> spent (astep e a) \<le> spent a + cost e"
begin

lemma run_within_budget:
  assumes "rel s a" and "\<forall>e \<in> set es. ok e" and "spent a + sum_list (map cost es) \<le> limit"
  shows "\<exists>s'. run_events step es s = Some s' \<and> rel s' (fold astep es a)"
  using assms
proof (induction es arbitrary: s a)
  case (Cons e es)
  have fits: "fits e a" using affordable [OF Cons.prems(1), of e] Cons.prems(2,3) by simp
  obtain s1 where s1: "step e s = Some s1" "rel s1 (astep e a)"
    using event_simulates [OF Cons.prems(1) fits] by blast
  have "spent (astep e a) + sum_list (map cost es) \<le> limit"
    using spends [OF Cons.prems(1) fits] Cons.prems(3) by simp
  then show ?case using Cons.IH [OF s1(2)] Cons.prems(2) s1(1) by simp
qed simp

end

end
