(* ===== verification/Sched.thy ===== *)
theory Sched
  imports Irq Simulation
begin

text \<open>
  The scheduler of \<^verbatim>\<open>kernel/core/scheduler/sched.c\<close> with its types from \<^verbatim>\<open>sched.h\<close> and
  \<^verbatim>\<open>context.h\<close>.  Tasks live in a store keyed by their address, the null pointer is 0, and the
  statics \<open>rq_head\<close>, \<open>rq_tail\<close> and \<open>current\<close> are fields of the state.  The run queue is a list
  linked through \<open>next_task\<close>; \<open>rq_rep s xs\<close> says that it holds the tasks \<open>xs\<close>.  The locale
  \<open>run_queue\<close> is what the scheduler needs of the queue, the locale \<open>round_robin\<close> what the
  kernel needs of the scheduler; it is a \<open>forward_simulation\<close> of an abstract one.
\<close>

section \<open>Data\<close>

record Context =
  x_regs :: "u64 list"
  sp_el0 :: u64
  elr_el1 :: u64
  spsr_el1 :: u64
  ttbr0_el1 :: u64

datatype TaskState = READY | RUNNING | BLOCKED

record Task =
  task_id :: int
  task_state :: TaskState
  task_context :: u64
  user_stack :: u64
  kernel_stack :: u64
  slice_left :: int
  task_name :: u64
  next_task :: u64

record sched_state = irq_state +
  tasks :: "u64 \<Rightarrow> Task"
  rq_head :: u64
  rq_tail :: u64
  current :: u64

definition RR_SLICE_TICKS :: int where "RR_SLICE_TICKS = 10"

section \<open>Operations\<close>

definition spsr_el0t_default :: u64 where
  "spsr_el0t_default = (let M_EL0t = 0; DAIF = 0 in M_EL0t OR push_bit 6 DAIF)"

definition build_initial_context :: "u64 \<Rightarrow> u64 \<Rightarrow> Context \<Rightarrow> Context" where
  "build_initial_context entry ustack ctx =
     ctx\<lparr>sp_el0 := ustack, elr_el1 := entry, spsr_el1 := spsr_el0t_default\<rparr>"

text \<open>Writing fields of the task at an address.\<close>

definition upd_task :: "u64 \<Rightarrow> (Task \<Rightarrow> Task) \<Rightarrow> 'a sched_state_scheme \<Rightarrow> 'a sched_state_scheme" where
  "upd_task t f s = s\<lparr>tasks := (tasks s)(t := f (tasks s t))\<rparr>"

definition rq_push :: "u64 \<Rightarrow> 'a sched_state_scheme \<Rightarrow> 'a sched_state_scheme" where
  "rq_push t s =
    (if rq_tail s = 0 then s\<lparr>rq_head := t, rq_tail := t\<rparr>
     else (upd_task (rq_tail s) (next_task_update (\<lambda>_. t)) s)\<lparr>rq_tail := t\<rparr>)"

definition rq_pop :: "'a sched_state_scheme \<Rightarrow> u64 \<times> 'a sched_state_scheme" where
  "rq_pop s =
    (let t = rq_head s in
     if t = 0 then (0, s)
     else
       let s = s\<lparr>rq_head := next_task (tasks s t)\<rparr>;
           s = (if rq_head s = 0 then s\<lparr>rq_tail := 0\<rparr> else s);
           s = upd_task t (next_task_update (\<lambda>_. 0)) s;
           b = rq_head s
       in (b, s))"

definition sched_ready_enqueue :: "u64 \<Rightarrow> 'a sched_state_scheme \<Rightarrow> 'a sched_state_scheme" where
  "sched_ready_enqueue t s =
    (let s = upd_task t (task_state_update (\<lambda>_. READY)) s;
         s = upd_task t (slice_left_update (\<lambda>_. RR_SLICE_TICKS)) s
     in rq_push t s)"

definition sched_set_current :: "u64 \<Rightarrow> 'a sched_state_scheme \<Rightarrow> 'a sched_state_scheme" where
  "sched_set_current t s =
    (let s = s\<lparr>current := t\<rparr> in upd_task (current s) (task_state_update (\<lambda>_. RUNNING)) s)"

text \<open>The second half of \<open>schedule_on_tick\<close>, from the call of \<open>rq_pop\<close> on.\<close>

definition schedule_next :: "u64 \<Rightarrow> 'a sched_state_scheme \<Rightarrow> u64 \<times> 'a sched_state_scheme" where
  "schedule_next tf s =
    (case rq_pop s of (next, s) \<Rightarrow>
       if next = 0 then
         (if current s \<noteq> 0 then (task_context (tasks s (current s)), s) else (tf, s))
       else
         let s = upd_task next (task_state_update (\<lambda>_. RUNNING)) s;
             s = s\<lparr>current := next\<rparr>;
             s = set_cntv s
         in (task_context (tasks s (current s)), s))"

definition schedule_on_tick :: "u64 \<Rightarrow> 'a sched_state_scheme \<Rightarrow> u64 \<times> 'a sched_state_scheme" where
  "schedule_on_tick tf s =
    (if current s \<noteq> 0 \<and> task_state (tasks s (current s)) = RUNNING then
       let s = upd_task (current s) (task_context_update (\<lambda>_. tf)) s;
           s = upd_task (current s) (slice_left_update (\<lambda>n. n - 1)) s
       in if slice_left (tasks s (current s)) > 0 then (task_context (tasks s (current s)), s)
       else
         let s = upd_task (current s) (slice_left_update (\<lambda>_. RR_SLICE_TICKS)) s;
             s = upd_task (current s) (task_state_update (\<lambda>_. READY)) s;
             s = rq_push (current s) s
         in schedule_next tf s
     else schedule_next tf s)"

section \<open>The run queue as a linked list\<close>

fun path :: "(u64 \<Rightarrow> u64) \<Rightarrow> u64 \<Rightarrow> u64 list \<Rightarrow> u64 \<Rightarrow> bool" where
  "path nx p [] q \<longleftrightarrow> p = q"
| "path nx p (x # xs) q \<longleftrightarrow> p = x \<and> x \<noteq> 0 \<and> path nx (nx x) xs q"

definition next_of :: "'a sched_state_scheme \<Rightarrow> u64 \<Rightarrow> u64" where
  "next_of s t = next_task (tasks s t)"

definition rq_rep :: "'a sched_state_scheme \<Rightarrow> u64 list \<Rightarrow> bool" where
  "rq_rep s xs \<longleftrightarrow> path (next_of s) (rq_head s) xs 0 \<and> distinct xs \<and>
     rq_tail s = (if xs = [] then 0 else last xs)"

lemma path_append: "path nx p (xs @ ys) q \<longleftrightarrow> (\<exists>r. path nx p xs r \<and> path nx r ys q)"
  by (induction xs arbitrary: p) auto

lemma path_upd [simp]: "a \<notin> set xs \<Longrightarrow> path (nx(a := b)) p xs q \<longleftrightarrow> path nx p xs q"
  by (induction xs arbitrary: p) auto

lemma path_nonnull: "path nx p xs q \<Longrightarrow> 0 \<notin> set xs"
  by (induction xs arbitrary: p) auto

text \<open>Redirecting the link of the last element of a list that ends in it.\<close>

lemma path_extend:
  assumes "path nx p xs q" and "distinct xs" and "xs \<noteq> []"
  shows "path (nx(last xs := r)) p xs r"
proof -
  have xs: "xs = butlast xs @ [last xs]" using assms(3) by simp
  have "last xs \<notin> set (butlast xs)" using assms(2) xs by (metis distinct_append not_distinct_conv_prefix)
  then show ?thesis
    using assms(1) by (subst xs, subst (asm) xs) (simp add: path_append)
qed

lemma next_of_upd_task:
  "next_of (upd_task t f s) = (next_of s)(t := next_task (f (tasks s t)))"
  by (auto simp: next_of_def upd_task_def)

lemma upd_task_simps [simp]:
  "rq_head (upd_task t f s) = rq_head s" "rq_tail (upd_task t f s) = rq_tail s"
  "current (upd_task t f s) = current s"
  "tasks (upd_task t f s) = (tasks s)(t := f (tasks s t))"
  by (simp_all add: upd_task_def)

lemma next_of_simps [simp]:
  "next_of (s\<lparr>rq_head := h\<rparr>) = next_of s" "next_of (s\<lparr>rq_tail := h\<rparr>) = next_of s"
  "next_of (s\<lparr>current := h\<rparr>) = next_of s"
  by (auto simp: next_of_def)

text \<open>Fields of a task that are not the link can be written without touching the queue.\<close>

lemma rq_rep_upd_task:
  assumes "\<And>u. next_task (f u) = next_task u"
  shows "rq_rep (upd_task t f s) xs \<longleftrightarrow> rq_rep s xs"
proof -
  have "next_of (upd_task t f s) = next_of s"
    using assms by (auto simp: next_of_def upd_task_def)
  then show ?thesis by (simp add: rq_rep_def)
qed

text \<open>The three uses of the queue: enqueueing, popping, and moving the head to the end.\<close>

lemma rq_push_rep:
  assumes "rq_rep s xs" and "t \<notin> set xs" and "t \<noteq> 0" and "next_of s t = 0"
  shows "rq_rep (rq_push t s) (xs @ [t])"
proof (cases "xs = []")
  case True
  then show ?thesis using assms by (simp add: rq_rep_def rq_push_def)
next
  case False
  have p: "path (next_of s) (rq_head s) xs 0" and d: "distinct xs" and tl: "rq_tail s = last xs"
    using assms(1) False by (simp_all add: rq_rep_def)
  have "last xs \<in> set xs" using False by simp
  then have "last xs \<noteq> 0" "last xs \<noteq> t" using path_nonnull [OF p] assms(2) by auto
  then show ?thesis
    using False path_extend [OF p d False, of t] assms d tl
    by (simp add: rq_rep_def rq_push_def next_of_upd_task path_append)
qed

lemma rq_pop_rep:
  assumes "rq_rep s (x # xs)"
  shows "fst (rq_pop s) = (if xs = [] then 0 else hd xs)" "rq_rep (snd (rq_pop s)) xs"
    "next_of (snd (rq_pop s)) x = 0"
proof -
  have p: "path (next_of s) (next_of s x) xs 0" "rq_head s = x" "x \<noteq> 0" "distinct xs" "x \<notin> set xs"
    "rq_tail s = last (x # xs)"
    using assms by (simp_all add: rq_rep_def)
  have h: "next_of s x = (if xs = [] then 0 else hd xs)" using p(1) by (cases xs) simp_all
  have n: "next_of s x = 0 \<longleftrightarrow> xs = []" using p(1) by (cases xs) auto
  have pop: "rq_pop s = (next_of s x,
      upd_task x (next_task_update (\<lambda>_. 0))
        (s\<lparr>rq_head := next_of s x, rq_tail := if xs = [] then 0 else rq_tail s\<rparr>))"
    using p(2,3) n by (simp add: rq_pop_def Let_def next_of_def)
  show "fst (rq_pop s) = (if xs = [] then 0 else hd xs)" by (simp add: pop h)
  show "rq_rep (snd (rq_pop s)) xs"
    using p by (simp add: pop rq_rep_def next_of_upd_task)
  show "next_of (snd (rq_pop s)) x = 0" by (simp add: pop next_of_upd_task)
qed

lemma rq_rotate_rep:
  assumes "rq_rep s (x # xs)"
  shows "fst (rq_pop (rq_push x s)) = hd (xs @ [x])" "rq_rep (snd (rq_pop (rq_push x s))) (xs @ [x])"
proof -
  show "fst (rq_pop (rq_push x s)) = hd (xs @ [x])"
    using assms by (cases xs) (auto simp: rq_rep_def rq_pop_def rq_push_def Let_def upd_task_def next_of_def)
  show "rq_rep (snd (rq_pop (rq_push x s))) (xs @ [x])"
  proof (cases "xs = []")
    case True
    then show ?thesis
      using assms by (simp add: rq_rep_def rq_pop_def rq_push_def Let_def next_of_upd_task)
  next
    case False
    have p: "path (next_of s) (next_of s x) xs 0" "rq_head s = x" "x \<noteq> 0" and d: "distinct xs" "x \<notin> set xs"
      and tl: "rq_tail s = last xs"
      using assms False by (simp_all add: rq_rep_def)
    have l: "last xs \<in> set xs" "xs = hd xs # tl xs" using False by simp_all
    then have "hd xs \<in> set xs" by (metis list.set_intros(1))
    then have ne: "last xs \<noteq> 0" "last xs \<noteq> x" "hd xs \<noteq> 0"
      using path_nonnull [OF p(1)] d l(1) by auto
    have hd: "next_of s x = hd xs" using p(1) by (subst (asm) l(2)) simp
    have "path ((next_of s)(last xs := x, x := 0)) (hd xs) (xs @ [x]) 0"
      using path_extend [OF p(1) d(1) False, of x] d(2) p(3) hd by (simp add: path_append)
    then show ?thesis
      using False p d tl ne hd
      by (simp add: rq_rep_def rq_pop_def rq_push_def Let_def next_of_upd_task)
        (simp add: upd_task_def next_of_def)
  qed
qed


text \<open>Queue operations write links only.\<close>

lemma rq_fields [simp]:
  "task_state (tasks (rq_push t s) a) = task_state (tasks s a)"
  "slice_left (tasks (rq_push t s) a) = slice_left (tasks s a)"
  "task_context (tasks (rq_push t s) a) = task_context (tasks s a)"
  "current (rq_push t s) = current s"
  "task_state (tasks (snd (rq_pop s)) a) = task_state (tasks s a)"
  "slice_left (tasks (snd (rq_pop s)) a) = slice_left (tasks s a)"
  "task_context (tasks (snd (rq_pop s)) a) = task_context (tasks s a)"
  "current (snd (rq_pop s)) = current s"
  by (simp_all add: rq_push_def rq_pop_def upd_task_def Let_def)

lemma rq_rep_set_cntv [simp]: "rq_rep (set_cntv s) xs \<longleftrightarrow> rq_rep s xs"
  by (simp add: rq_rep_def set_cntv_eq next_of_def [abs_def])

lemma rq_rep_current [simp]: "rq_rep (s\<lparr>current := c\<rparr>) xs \<longleftrightarrow> rq_rep s xs"
  by (simp add: rq_rep_def)

lemma set_cntv_sched [simp]:
  "tasks (set_cntv s) = tasks s" "current (set_cntv s) = current s"
  by (simp_all add: set_cntv_eq)

lemma rq_rep_nonnull: "rq_rep s xs \<Longrightarrow> 0 \<notin> set xs"
  by (auto simp: rq_rep_def dest: path_nonnull)

section \<open>Interfaces\<close>

text \<open>
  What the scheduler relies on: the queue keeps the order of the tasks, a task that is
  enqueued comes last, and requeueing the head and popping yields the new head.
\<close>

locale run_queue =
  fixes rep :: "'s \<Rightarrow> 'p list \<Rightarrow> bool"
    and push :: "'p \<Rightarrow> 's \<Rightarrow> 's"
    and pop :: "'s \<Rightarrow> 'p \<times> 's"
    and fresh :: "'s \<Rightarrow> 'p \<Rightarrow> bool"
  assumes push_fresh: "rep s xs \<Longrightarrow> t \<notin> set xs \<Longrightarrow> fresh s t \<Longrightarrow> rep (push t s) (xs @ [t])"
    and pop_push: "rep s (x # xs) \<Longrightarrow>
      fst (pop (push x s)) = hd (xs @ [x]) \<and> rep (snd (pop (push x s))) (xs @ [x])"
begin

lemma rotate_once:
  assumes "rep s xs" and "xs \<noteq> []"
  shows "fst (pop (push (hd xs) s)) = hd (rotate1 xs)" "rep (snd (pop (push (hd xs) s))) (rotate1 xs)"
  using assms pop_push [of s "hd xs" "tl xs"] by (cases xs; simp)+

end

interpretation rq: run_queue rq_rep rq_push rq_pop "\<lambda>s t. t \<noteq> 0 \<and> next_of s t = 0"
  by unfold_locales (simp_all add: rq_push_rep rq_rotate_rep)

text \<open>
  What the kernel relies on: a tick with time left only counts down; the tick that ends a
  slice moves the running task to the end of the queue and starts a full slice of the next.
\<close>

text \<open>The tasks in their order with the ticks left of the first, under a tick.\<close>

fun robin_tick :: "nat \<Rightarrow> 'p list \<times> nat \<Rightarrow> 'p list \<times> nat" where
  "robin_tick q (xs, k) = (if 1 < k then (xs, k - 1) else (rotate1 xs, q))"

lemma robin_ticks:
  assumes "0 < q"
  shows "fold (\<lambda>_. robin_tick q) cs (xs, q) = (rotate (length cs div q) xs, q - length cs mod q)"
proof (induction cs rule: rev_induct)
  case (snoc c cs)
  let ?n = "length cs"
  have lt: "?n mod q < q" using assms by simp
  show ?case
  proof (cases "Suc (?n mod q) = q")
    case True
    then have "Suc ?n mod q = 0" "Suc ?n div q = Suc (?n div q)" "q - ?n mod q = 1"
      by (simp_all add: mod_Suc div_Suc)
    then show ?thesis using snoc by simp
  next
    case False
    then have "Suc ?n mod q = Suc (?n mod q)" "Suc ?n div q = ?n div q" "1 < q - ?n mod q"
      using lt by (simp_all add: mod_Suc div_Suc)
    then show ?thesis using snoc by simp
  qed
qed simp

locale round_robin =
  fixes inv :: "'s \<Rightarrow> 'p list \<Rightarrow> nat \<Rightarrow> bool"
    and tick :: "'c \<Rightarrow> 's \<Rightarrow> 'c \<times> 's"
    and running :: "'s \<Rightarrow> 'p"
    and slice :: nat
  assumes slice_pos: "0 < slice"
    and inv_running: "inv s xs k \<Longrightarrow> xs \<noteq> [] \<and> running s = hd xs \<and> 1 \<le> k \<and> k \<le> slice"
    and tick_counts: "inv s xs (Suc (Suc k)) \<Longrightarrow> inv (snd (tick c s)) xs (Suc k)"
    and tick_rotates: "inv s xs 1 \<Longrightarrow> inv (snd (tick c s)) (rotate1 xs) slice"
begin

lemma tick_keeps:
  assumes "inv s xs k"
  shows "case robin_tick slice (xs, k) of (xs, k) \<Rightarrow> inv (snd (tick c s)) xs k"
proof (cases "1 < k")
  case True
  define j where "j = k - 2"
  have k: "k = Suc (Suc j)" using True by (simp add: j_def)
  then show ?thesis using tick_counts [of s xs j c] assms by simp
next
  case False
  then have "k = 1" using inv_running [OF assms] by simp
  then show ?thesis using tick_rotates [of s xs c] assms by simp
qed

end

text \<open>Such a scheduler simulates the abstract one, tick by tick.\<close>

sublocale round_robin \<subseteq> ticks: forward_simulation "\<lambda>c s. Some (snd (tick c s))" "\<lambda>_. robin_tick slice"
    "\<lambda>s a. inv s (fst a) (snd a)" "\<lambda>_ _. True"
proof unfold_locales
  show "\<exists>s'. Some (snd (tick c s)) = Some s' \<and> inv s' (fst (robin_tick slice a)) (snd (robin_tick slice a))"
    if "inv s (fst a) (snd a)" for s a c
    using tick_keeps [OF that, of c] by (simp add: split_beta)
qed

context round_robin
begin

text \<open>After \<open>n\<close> ticks that began with a full slice.\<close>

lemma after_ticks:
  assumes "inv s xs slice"
  shows "inv (fold (\<lambda>c s. snd (tick c s)) cs s) (rotate (length cs div slice) xs)
    (slice - length cs mod slice)"
proof -
  have "inv s (fst (xs, slice)) (snd (xs, slice))" using assms by simp
  from ticks.run_simulates [OF this, of cs] show ?thesis
    by (simp add: events_fit_True run_events_total robin_ticks slice_pos)
qed

lemma running_after_ticks:
  assumes "inv s xs slice"
  shows "running (fold (\<lambda>c s. snd (tick c s)) cs s) = xs ! ((length cs div slice) mod length xs)"
proof -
  have "xs \<noteq> []" using inv_running [OF assms] by simp
  then show ?thesis
    using inv_running [OF after_ticks [OF assms, of cs]] by (simp add: hd_rotate_conv_nth)
qed

text \<open>A task is at the front again after as many slices as there are tasks.\<close>

lemma period:
  assumes "inv s xs slice" and "length cs = slice * length xs"
  shows "inv (fold (\<lambda>c s. snd (tick c s)) cs s) xs slice"
  using after_ticks [OF assms(1), of cs] slice_pos assms(2) by (simp add: rotate_conv_mod [of "length xs"])

end

section \<open>schedule_on_tick\<close>

definition sched_inv :: "'a sched_state_scheme \<Rightarrow> u64 list \<Rightarrow> nat \<Rightarrow> bool" where
  "sched_inv s xs k \<longleftrightarrow>
     rq_rep s xs \<and> xs \<noteq> [] \<and> current s = hd xs \<and> 1 \<le> k \<and> k \<le> 10 \<and>
     task_state (tasks s (hd xs)) = RUNNING \<and> slice_left (tasks s (hd xs)) = int k \<and>
     (\<forall>t \<in> set (tl xs). task_state (tasks s t) = READY \<and> slice_left (tasks s t) = 10)"

lemma sched_inv_hd:
  assumes "sched_inv s xs k"
  shows "hd xs \<in> set xs" "hd xs \<noteq> 0" "hd xs \<notin> set (tl xs)" "current s = hd xs"
proof -
  have ne: "xs \<noteq> []" "rq_rep s xs" using assms by (simp_all add: sched_inv_def)
  then show "hd xs \<in> set xs" by simp
  then show "hd xs \<noteq> 0" using rq_rep_nonnull [OF ne(2)] by auto
  show "hd xs \<notin> set (tl xs)" using ne by (cases xs) (simp_all add: rq_rep_def)
  show "current s = hd xs" using assms by (simp add: sched_inv_def)
qed

lemma tick_counts_down:
  assumes "sched_inv s xs k" and "1 < k"
  shows "fst (schedule_on_tick tf s) = tf" "sched_inv (snd (schedule_on_tick tf s)) xs (k - 1)"
    "task_context (tasks (snd (schedule_on_tick tf s)) t) =
       (if t = current s then tf else task_context (tasks s t))"
  using assms sched_inv_hd [OF assms(1)]
  by (auto simp: sched_inv_def schedule_on_tick_def Let_def rq_rep_upd_task of_nat_diff)

text \<open>The tick that ends a slice, up to the call of \<open>rq_pop\<close>.\<close>

definition slice_end :: "u64 \<Rightarrow> 'a sched_state_scheme \<Rightarrow> 'a sched_state_scheme" where
  "slice_end tf s =
     upd_task (current s) (\<lambda>t. t\<lparr>task_context := tf, slice_left := RR_SLICE_TICKS, task_state := READY\<rparr>) s"

lemma schedule_on_tick_slice_end:
  assumes "sched_inv s xs 1"
  shows "schedule_on_tick tf s = schedule_next tf (rq_push (hd xs) (slice_end tf s))"
proof -
  have "upd_task c f (upd_task c g s) = upd_task c (f \<circ> g) s" for c f g and s :: "'a sched_state_scheme"
    by (simp add: upd_task_def)
  then show ?thesis
    using assms sched_inv_hd [OF assms]
    by (simp add: sched_inv_def schedule_on_tick_def Let_def slice_end_def o_def)
qed

lemma tick_switches:
  assumes "sched_inv s xs 1"
  shows "sched_inv (snd (schedule_on_tick tf s)) (rotate1 xs) 10"
    "fst (schedule_on_tick tf s) =
       task_context (tasks (snd (schedule_on_tick tf s)) (hd (rotate1 xs)))"
    "task_context (tasks (snd (schedule_on_tick tf s)) t) =
       (if t = current s then tf else task_context (tasks s t))"
proof -
  note h = sched_inv_hd [OF assms]
  let ?s = "slice_end tf s"
  have ne: "xs \<noteq> []" and r: "rq_rep ?s xs"
    using assms by (simp_all add: sched_inv_def slice_end_def rq_rep_upd_task)
  define p where "p = snd (rq_pop (rq_push (hd xs) ?s))"
  note rot = rq.rotate_once [OF r ne, folded p_def]
  have hr: "hd (rotate1 xs) \<in> set xs" using ne by (metis hd_in_set rotate1_is_Nil_conv set_rotate1)
  then have hn: "hd (rotate1 xs) \<noteq> 0" using rq_rep_nonnull [OF r] by auto
  have eq: "rq_pop (rq_push (hd xs) ?s) = (hd (rotate1 xs), p)"
    using rot(1) by (simp add: p_def prod_eq_iff)
  have tick: "schedule_on_tick tf s = schedule_next tf (rq_push (hd xs) ?s)"
    by (rule schedule_on_tick_slice_end [OF assms])
  have tk: "task_state (tasks p a) = task_state (tasks ?s a)" "slice_left (tasks p a) = slice_left (tasks ?s a)"
    "task_context (tasks p a) = task_context (tasks ?s a)" for a
    by (simp_all add: p_def)
  have all: "task_state (tasks ?s a) = READY \<and> slice_left (tasks ?s a) = 10" if "a \<in> set xs" for a
  proof -
    have "a = hd xs \<or> a \<in> set (tl xs)" using that by (cases xs) auto
    then show ?thesis
      using assms h by (auto simp: slice_end_def sched_inv_def RR_SLICE_TICKS_def)
  qed
  have "set (rotate1 xs) = set xs" "distinct xs" using r by (simp_all add: rq_rep_def)
  then have tl: "a \<in> set xs \<and> a \<noteq> hd (rotate1 xs)" if "a \<in> set (tl (rotate1 xs))" for a
  proof -
    obtain y ys where "rotate1 xs = y # ys" using ne by (metis neq_Nil_conv rotate1_is_Nil_conv)
    then show ?thesis
      using that \<open>distinct xs\<close> \<open>set (rotate1 xs) = set xs\<close> distinct1_rotate [of xs]
      by (metis distinct.simps(2) list.sel(1,3) list.set_intros(2))
  qed
  show "sched_inv (snd (schedule_on_tick tf s)) (rotate1 xs) 10"
    using ne hn rot(2) all hr tl
    by (auto simp: tick schedule_next_def eq Let_def sched_inv_def rq_rep_upd_task tk)
  show "fst (schedule_on_tick tf s) =
       task_context (tasks (snd (schedule_on_tick tf s)) (hd (rotate1 xs)))"
    using hn by (simp add: tick schedule_next_def eq Let_def)
  show "task_context (tasks (snd (schedule_on_tick tf s)) t) =
       (if t = current s then tf else task_context (tasks s t))"
    using hn by (simp add: tick schedule_next_def eq Let_def tk) (simp add: slice_end_def)
qed

interpretation rr: round_robin sched_inv schedule_on_tick current 10
proof unfold_locales
  show "sched_inv (snd (schedule_on_tick c s)) xs (Suc k)" if "sched_inv s xs (Suc (Suc k))" for s xs k c
    using tick_counts_down(2) [OF that, of c] by simp
  show "sched_inv (snd (schedule_on_tick c s)) (rotate1 xs) 10" if "sched_inv s xs 1" for s xs c
    using that by (rule tick_switches(1))
qed (simp_all add: sched_inv_def)

section \<open>Enqueueing the first tasks\<close>

lemma sched_ready_enqueue_fields:
  "task_state (tasks (sched_ready_enqueue t s) a) = (if a = t then READY else task_state (tasks s a))"
  "slice_left (tasks (sched_ready_enqueue t s) a) = (if a = t then 10 else slice_left (tasks s a))"
  "current (sched_ready_enqueue t s) = current s"
  by (simp_all add: sched_ready_enqueue_def Let_def RR_SLICE_TICKS_def)

lemma sched_ready_enqueue_rep:
  assumes "rq_rep s xs" and "t \<notin> set xs" and "t \<noteq> 0" and "next_of s t = 0"
  shows "rq_rep (sched_ready_enqueue t s) (xs @ [t])"
    "\<And>a. a \<noteq> t \<Longrightarrow> a \<notin> set xs \<Longrightarrow> next_of (sched_ready_enqueue t s) a = next_of s a"
proof -
  let ?s = "upd_task t (slice_left_update (\<lambda>_. RR_SLICE_TICKS)) (upd_task t (task_state_update (\<lambda>_. READY)) s)"
  have n: "next_of ?s = next_of s" by (auto simp: next_of_def upd_task_def)
  show "rq_rep (sched_ready_enqueue t s) (xs @ [t])"
    unfolding sched_ready_enqueue_def Let_def
    by (rule rq.push_fresh) (use assms n in \<open>simp_all add: rq_rep_upd_task\<close>)
  show "next_of (sched_ready_enqueue t s) a = next_of s a" if "a \<noteq> t" "a \<notin> set xs" for a
  proof (cases "xs = []")
    case True
    then show ?thesis
      using assms(1) that by (simp add: sched_ready_enqueue_def Let_def rq_push_def n rq_rep_def)
  next
    case False
    then have "last xs \<noteq> a" "rq_tail s = last xs" using that assms(1) by (auto simp: rq_rep_def)
    then show ?thesis
      using that(1) by (simp add: sched_ready_enqueue_def Let_def rq_push_def next_of_upd_task n)
  qed
qed

lemma enqueue_all_rep:
  assumes "rq_rep s xs" and "distinct (xs @ ts)" and "0 \<notin> set ts" and "\<forall>t \<in> set ts. next_of s t = 0"
    and "\<forall>t \<in> set xs. task_state (tasks s t) = READY \<and> slice_left (tasks s t) = 10"
  shows "rq_rep (fold sched_ready_enqueue ts s) (xs @ ts) \<and>
    (\<forall>t \<in> set (xs @ ts). task_state (tasks (fold sched_ready_enqueue ts s) t) = READY \<and>
       slice_left (tasks (fold sched_ready_enqueue ts s) t) = 10)"
  using assms
proof (induction ts arbitrary: xs s)
  case Nil
  then show ?case by simp
next
  case (Cons t ts)
  have t: "t \<notin> set xs" "t \<noteq> 0" "next_of s t = 0" "t \<notin> set ts" using Cons.prems by auto
  note e = sched_ready_enqueue_rep [OF Cons.prems(1) t(1-3)]
  have "\<forall>a \<in> set ts. next_of (sched_ready_enqueue t s) a = 0"
  proof
    fix a assume a: "a \<in> set ts"
    then have "a \<noteq> t" "a \<notin> set xs" using Cons.prems(2) by auto
    then show "next_of (sched_ready_enqueue t s) a = 0" using a Cons.prems(4) by (simp add: e(2))
  qed
  then show ?case
    using Cons.IH [OF e(1)] Cons.prems t by (simp add: sched_ready_enqueue_fields)
qed

lemma boot_sched_inv:
  assumes "rq_head s = 0" and "rq_tail s = 0" and "ts \<noteq> []" and "distinct ts" and "0 \<notin> set ts"
    and "\<forall>t \<in> set ts. next_of s t = 0"
  shows "sched_inv (sched_set_current (hd ts) (fold sched_ready_enqueue ts s)) ts 10"
proof -
  have "rq_rep s []" using assms(1,2) by (simp add: rq_rep_def)
  note e = enqueue_all_rep [OF this, of ts]
  have "hd ts \<notin> set (tl ts)" "a \<in> set ts" if "a \<in> set (tl ts)" for a
    using assms(3,4) that by (cases ts; simp)+
  then show ?thesis
    using e assms
    by (auto simp: sched_inv_def sched_set_current_def Let_def rq_rep_upd_task)
qed

section \<open>Properties\<close>


text \<open>
  Round robin from boot: after enqueueing the tasks \<open>ts\<close> into the empty queue and making the
  first one current, as \<open>kmain\<close> does, the task that runs after \<open>n\<close> timer ticks is task number
  \<open>n div 10\<close>, counted modulo the number of tasks: every task gets exactly ten ticks in turn,
  whatever the interrupted contexts are.
\<close>

lemma round_robin_from_boot:
  assumes "rq_head s = 0" and "rq_tail s = 0" and "ts \<noteq> []" and "distinct ts" and "0 \<notin> set ts"
    and "\<forall>t \<in> set ts. next_of s t = 0"
  shows "current (fold (\<lambda>tf s. snd (schedule_on_tick tf s)) tfs
           (sched_set_current (hd ts) (fold sched_ready_enqueue ts s))) =
         ts ! ((length tfs div 10) mod length ts)"
  by (rule rr.running_after_ticks [OF boot_sched_inv [OF assms]])

definition no_task :: Task where
  "no_task = \<lparr>task_id = 0, task_state = BLOCKED, task_context = 0, user_stack = 0, kernel_stack = 0,
     slice_left = 0, task_name = 0, next_task = 0\<rparr>"

definition idle_sched :: sched_state where
  "idle_sched = \<lparr>gic_bus = [], CNTV_TVAL_EL0 = 0, CNTV_CTL_EL0 = 0, CNTFRQ_EL0 = 62500000, cntfrq = 0,
     SPSR_EL1 = 0, tasks = (\<lambda>_. no_task), rq_head = 0, rq_tail = 0, current = 0\<rparr>"

lemma idle_sched_simps [simp]:
  "rq_head idle_sched = 0" "rq_tail idle_sched = 0" "next_of idle_sched t = 0" "current idle_sched = 0"
  by (simp_all add: idle_sched_def next_of_def no_task_def)


lemma round_robin_from_boot_witness:
  "current (fold (\<lambda>tf s. snd (schedule_on_tick tf s)) (replicate 13 0x9000)
     (sched_set_current 0x1000 (fold sched_ready_enqueue [0x1000, 0x2000] idle_sched))) = 0x2000"
  using round_robin_from_boot [of idle_sched "[0x1000, 0x2000]" "replicate 13 0x9000"] by simp

text \<open>
  \<open>rq_pop\<close> removes the head and returns the one after it.  This suits the tick only because
  the running task is still the head of the queue; when nothing is running (\<open>current\<close> is null)
  the first task of the queue is dropped: it is removed and not scheduled, and the second one
  runs.
\<close>

lemma pop_drops_first_task:
  assumes "rq_rep s (x # y # ys)" and "current s = 0"
  shows "case schedule_on_tick tf s of (ctx, s') \<Rightarrow>
    current s' = y \<and> rq_rep s' (y # ys) \<and> x \<notin> set (y # ys)"
proof -
  have p: "fst (rq_pop s) = y" "rq_rep (snd (rq_pop s)) (y # ys)"
    using rq_pop_rep [OF assms(1)] by simp_all
  have ne: "y \<noteq> 0" "x \<notin> set (y # ys)"
    using rq_rep_nonnull [OF assms(1)] assms(1) by (auto simp: rq_rep_def)
  show ?thesis
    using p ne assms(2)
    by (auto simp: schedule_on_tick_def schedule_next_def split_beta Let_def rq_rep_upd_task)
qed

lemma pop_drops_first_task_witness:
  "current (snd (schedule_on_tick 0x9000 (fold sched_ready_enqueue [0x1000, 0x2000] idle_sched))) = 0x2000"
proof -
  have "rq_rep (fold sched_ready_enqueue [0x1000, 0x2000] idle_sched) [0x1000, 0x2000]"
    using enqueue_all_rep [of idle_sched "[]" "[0x1000, 0x2000]"] by (simp add: rq_rep_def)
  then show ?thesis
    using pop_drops_first_task [of "fold sched_ready_enqueue [0x1000, 0x2000] idle_sched" "0x1000" "0x2000" "[]" "0x9000"]
    by (simp add: sched_ready_enqueue_fields split_beta)
qed

end
