(* ===== verification/Spinlock.thy ===== *)
theory Spinlock
  imports Prelude
begin

text \<open>
  The spin lock of \<^verbatim>\<open>kernel/core/spinlock.c\<close>.  The first part models the two inline assembly
  loops instruction by instruction, for any number of processors that run interleaved: each
  has its registers \<open>w0\<close> and \<open>w1\<close> and its exclusive monitor, as the comment of \<^verbatim>\<open>spinlock.h\<close>
  describes it (\<open>LDAXR\<close> sets the monitor, a successful \<open>STLXR\<close> clears all monitors, and an
  \<open>STLXR\<close> fails when the monitor is clear; it may also fail spuriously, and a monitor may be
  lost at any time).  The second part is the same code as a function, for a caller that runs
  alone, together with the interrupt masking of \<open>spin_lock_with_mask\<close>.
\<close>

section \<open>The instructions\<close>

text \<open>
  \<open>Lock k\<close> is the \<open>k\<close>-th instruction of the loop of \<open>spin_lock\<close>, \<open>Unlock k\<close> that of \<open>spin_unlock\<close>;
  \<open>Outside\<close> and \<open>Critical\<close> are the caller's code before and after.
\<close>

datatype pc = Outside | Lock nat | Critical | Unlock nat

record cpu =
  pc :: pc
  w0 :: u32
  w1 :: u32
  monitor :: bool

record lock_state =
  lock :: u32
  cpus :: "nat \<Rightarrow> cpu"

definition set_cpu :: "nat \<Rightarrow> cpu \<Rightarrow> lock_state \<Rightarrow> lock_state" where
  "set_cpu c t s = s\<lparr>cpus := (cpus s)(c := t)\<rparr>"

definition ldaxr :: "nat \<Rightarrow> pc \<Rightarrow> lock_state \<Rightarrow> lock_state" where
  "ldaxr c nxt s = set_cpu c ((cpus s c)\<lparr>w0 := lock s, monitor := True, pc := nxt\<rparr>) s"

definition stlxr_ok :: "nat \<Rightarrow> pc \<Rightarrow> lock_state \<Rightarrow> lock_state" where
  "stlxr_ok c nxt s =
     s\<lparr>lock := w0 (cpus s c),
       cpus := (\<lambda>d. if d = c then (cpus s c)\<lparr>w1 := 0, monitor := False, pc := nxt\<rparr>
                    else (cpus s d)\<lparr>monitor := False\<rparr>)\<rparr>"

definition stlxr_fail :: "nat \<Rightarrow> pc \<Rightarrow> lock_state \<Rightarrow> lock_state" where
  "stlxr_fail c nxt s = set_cpu c ((cpus s c)\<lparr>w1 := 1, monitor := False, pc := nxt\<rparr>) s"

definition goto :: "nat \<Rightarrow> pc \<Rightarrow> lock_state \<Rightarrow> lock_state" where
  "goto c nxt s = set_cpu c ((cpus s c)\<lparr>pc := nxt\<rparr>) s"

text \<open>
  The step relation.  \<open>spin_lock\<close> is LDAXR, CBNZ, MOV, STLXR, CBNZ; \<open>spin_unlock\<close> is LDAXR, MOV,
  STLXR, CBNZ.  The first four rules are the caller's.
\<close>

inductive lock_step :: "lock_state \<Rightarrow> lock_state \<Rightarrow> bool" where
  call_lock: "pc (cpus s c) = Outside \<Longrightarrow> lock_step s (goto c (Lock 0) s)"
| call_unlock: "pc (cpus s c) = Critical \<Longrightarrow> lock_step s (goto c (Unlock 0) s)"
| lose_monitor: "lock_step s (set_cpu c ((cpus s c)\<lparr>monitor := False\<rparr>) s)"
| lock_ldaxr: "pc (cpus s c) = Lock 0 \<Longrightarrow> lock_step s (ldaxr c (Lock 1) s)"
| lock_cbnz_busy: "pc (cpus s c) = Lock 1 \<Longrightarrow> w0 (cpus s c) \<noteq> 0 \<Longrightarrow> lock_step s (goto c (Lock 0) s)"
| lock_cbnz_free: "pc (cpus s c) = Lock 1 \<Longrightarrow> w0 (cpus s c) = 0 \<Longrightarrow> lock_step s (goto c (Lock 2) s)"
| lock_mov: "pc (cpus s c) = Lock 2 \<Longrightarrow>
    lock_step s (set_cpu c ((cpus s c)\<lparr>w0 := 1, pc := Lock 3\<rparr>) s)"
| lock_stlxr_ok: "pc (cpus s c) = Lock 3 \<Longrightarrow> monitor (cpus s c) \<Longrightarrow> lock_step s (stlxr_ok c (Lock 4) s)"
| lock_stlxr_fail: "pc (cpus s c) = Lock 3 \<Longrightarrow> lock_step s (stlxr_fail c (Lock 4) s)"
| lock_retry: "pc (cpus s c) = Lock 4 \<Longrightarrow> w1 (cpus s c) \<noteq> 0 \<Longrightarrow> lock_step s (goto c (Lock 0) s)"
| lock_return: "pc (cpus s c) = Lock 4 \<Longrightarrow> w1 (cpus s c) = 0 \<Longrightarrow> lock_step s (goto c Critical s)"
| unlock_ldaxr: "pc (cpus s c) = Unlock 0 \<Longrightarrow> lock_step s (ldaxr c (Unlock 1) s)"
| unlock_mov: "pc (cpus s c) = Unlock 1 \<Longrightarrow>
    lock_step s (set_cpu c ((cpus s c)\<lparr>w0 := 0, pc := Unlock 2\<rparr>) s)"
| unlock_stlxr_ok: "pc (cpus s c) = Unlock 2 \<Longrightarrow> monitor (cpus s c) \<Longrightarrow> lock_step s (stlxr_ok c (Unlock 3) s)"
| unlock_stlxr_fail: "pc (cpus s c) = Unlock 2 \<Longrightarrow> lock_step s (stlxr_fail c (Unlock 3) s)"
| unlock_retry: "pc (cpus s c) = Unlock 3 \<Longrightarrow> w1 (cpus s c) \<noteq> 0 \<Longrightarrow> lock_step s (goto c (Unlock 0) s)"
| unlock_return: "pc (cpus s c) = Unlock 3 \<Longrightarrow> w1 (cpus s c) = 0 \<Longrightarrow> lock_step s (goto c Outside s)"

definition lock_init :: lock_state where
  "lock_init = \<lparr>lock = 0, cpus = (\<lambda>_. \<lparr>pc = Outside, w0 = 0, w1 = 0, monitor = False\<rparr>)\<rparr>"

section \<open>The invariant\<close>

text \<open>A processor holds the lock from its successful store on, until its releasing store.\<close>

definition holds :: "cpu \<Rightarrow> bool" where
  "holds t \<longleftrightarrow> pc t = Lock 4 \<and> w1 t = 0 \<or> pc t = Critical \<or> pc t = Unlock 0 \<or> pc t = Unlock 1 \<or>
     pc t = Unlock 2 \<or> pc t = Unlock 3 \<and> w1 t \<noteq> 0"

text \<open>What a processor whose monitor is set knows of the lock, and its registers.\<close>

definition cpu_ok :: "u32 \<Rightarrow> cpu \<Rightarrow> bool" where
  "cpu_ok l t \<longleftrightarrow>
     (monitor t \<and> pc t = Lock 1 \<longrightarrow> w0 t = l) \<and>
     (monitor t \<and> (pc t = Lock 2 \<or> pc t = Lock 3) \<longrightarrow> l = 0) \<and>
     (pc t = Lock 3 \<longrightarrow> w0 t = 1) \<and> (pc t = Unlock 2 \<longrightarrow> w0 t = 0) \<and>
     (holds t \<longrightarrow> l = 1)"

definition lock_inv :: "lock_state \<Rightarrow> bool" where
  "lock_inv s \<longleftrightarrow> (\<forall>c. cpu_ok (lock s) (cpus s c)) \<and>
     (\<forall>c d. holds (cpus s c) \<longrightarrow> holds (cpus s d) \<longrightarrow> c = d) \<and>
     (lock s \<noteq> 0 \<longrightarrow> (\<exists>c. holds (cpus s c)))"

lemma lock_inv_init: "lock_inv lock_init"
  by (simp add: lock_inv_def lock_init_def cpu_ok_def holds_def)

text \<open>A step that changes one processor, not the lock and not who holds it.\<close>

lemma lock_inv_local:
  assumes "lock_inv s" and "cpu_ok (lock s) (cpus s c) \<Longrightarrow> cpu_ok (lock s) t"
    and "holds t = holds (cpus s c)"
  shows "lock_inv (set_cpu c t s)"
  using assms by (auto simp: lock_inv_def set_cpu_def)

lemma cpu_ok_clear_monitor: "cpu_ok l t \<Longrightarrow> \<not> holds t \<Longrightarrow> cpu_ok l' (t\<lparr>monitor := False\<rparr>)"
  by (auto simp: cpu_ok_def holds_def)

lemma lock_inv_cpu: "lock_inv s \<Longrightarrow> cpu_ok (lock s) (cpus s c)"
  by (simp add: lock_inv_def)

lemma lock_inv_acquire:
  assumes "lock_inv s" and "pc (cpus s c) = Lock 3" and "monitor (cpus s c)"
  shows "lock_inv (stlxr_ok c (Lock 4) s)"
proof -
  have l: "lock s = 0" "w0 (cpus s c) = 1"
    using lock_inv_cpu [OF assms(1), of c] assms(2,3) by (auto simp: cpu_ok_def)
  have "\<not> holds (cpus s d)" for d
    using assms(1) l(1) by (auto simp: lock_inv_def cpu_ok_def)
  then have o: "\<not> holds ((cpus s d)\<lparr>monitor := False\<rparr>)" for d
    by (simp add: holds_def)
  have k: "cpu_ok 1 ((cpus s d)\<lparr>monitor := False\<rparr>)" for d
    using assms(1) \<open>\<And>d. \<not> holds (cpus s d)\<close> by (intro cpu_ok_clear_monitor) (auto simp: lock_inv_def)
  show ?thesis
    using o k l(2) by (auto simp: lock_inv_def stlxr_ok_def cpu_ok_def holds_def)
qed

lemma lock_inv_release:
  assumes "lock_inv s" and "pc (cpus s c) = Unlock 2" and "monitor (cpus s c)"
  shows "lock_inv (stlxr_ok c (Unlock 3) s)"
proof -
  have w: "w0 (cpus s c) = 0" using lock_inv_cpu [OF assms(1), of c] assms(2) by (auto simp: cpu_ok_def)
  have h: "holds (cpus s c)" using assms(2) by (simp add: holds_def)
  then have "\<not> holds (cpus s d)" if "d \<noteq> c" for d
    using assms(1) that by (auto simp: lock_inv_def)
  then have k: "\<not> holds ((cpus s d)\<lparr>monitor := False\<rparr>)" "cpu_ok 0 ((cpus s d)\<lparr>monitor := False\<rparr>)"
    if "d \<noteq> c" for d
    using assms(1) that by (simp add: holds_def, intro cpu_ok_clear_monitor, auto simp: lock_inv_def)
  have "cpu_ok 0 ((cpus s c)\<lparr>w1 := 0, monitor := False, pc := Unlock 3\<rparr>)"
    "\<not> holds ((cpus s c)\<lparr>w1 := 0, monitor := False, pc := Unlock 3\<rparr>)"
    by (simp_all add: cpu_ok_def holds_def)
  then show ?thesis
    using k w by (auto simp: lock_inv_def stlxr_ok_def)
qed

lemma lock_inv_step: "lock_step s s' \<Longrightarrow> lock_inv s \<Longrightarrow> lock_inv s'"
proof (induction rule: lock_step.induct)
  case (lock_stlxr_ok s c)
  then show ?case by (simp add: lock_inv_acquire)
next
  case (unlock_stlxr_ok s c)
  then show ?case by (simp add: lock_inv_release)
qed ((simp only: goto_def ldaxr_def stlxr_fail_def)?;
    erule lock_inv_local; auto simp: cpu_ok_def holds_def)+

lemma lock_inv_steps: "lock_step\<^sup>*\<^sup>* s s' \<Longrightarrow> lock_inv s \<Longrightarrow> lock_inv s'"
  by (induction rule: rtranclp_induct) (auto intro: lock_inv_step)


section \<open>The routines for a caller that runs alone\<close>

text \<open>
  \<open>stx n\<close> says whether the \<open>n\<close>-th store-exclusive succeeds.  The loop of \<open>spin_lock\<close> reads the
  lock, goes back while it is taken, and goes back when the store fails; it may run forever,
  which is the result \<open>None\<close>.  The routines return the register \<open>w1\<close>, which is 0.
\<close>

partial_function (option) spin_lock :: "(nat \<Rightarrow> bool) \<Rightarrow> nat \<Rightarrow> u32 \<Rightarrow> (u32 \<times> nat \<times> u32) option" where
  "spin_lock stx n lck =
    (let temp = lck in
     if temp \<noteq> 0 then spin_lock stx n lck
     else let temp = 1 in
       if stx n then Some (0, Suc n, temp) else spin_lock stx (Suc n) lck)"

partial_function (option) spin_unlock :: "(nat \<Rightarrow> bool) \<Rightarrow> nat \<Rightarrow> u32 \<Rightarrow> (u32 \<times> nat \<times> u32) option" where
  "spin_unlock stx n lck =
    (let temp = 0 in
     if stx n then Some (0, Suc n, temp) else spin_unlock stx (Suc n) lck)"

text \<open>The mask bits D, A, I and F are the bits 9 to 6 of DAIF.\<close>

definition mask_interrupts :: "u64 \<Rightarrow> u64" where
  "mask_interrupts daif = daif OR push_bit 6 0xf"

definition unmask_interrupts :: "u64 \<Rightarrow> u64" where
  "unmask_interrupts daif = daif AND NOT (push_bit 6 2)"

definition spin_lock_with_mask :: "(nat \<Rightarrow> bool) \<Rightarrow> nat \<Rightarrow> u64 \<times> u32 \<Rightarrow> (u32 \<times> nat \<times> u64 \<times> u32) option" where
  "spin_lock_with_mask stx n s =
    (let daif = mask_interrupts (fst s) in
     map_option (\<lambda>(r, n, lck). (r, n, daif, lck)) (spin_lock stx n (snd s)))"

definition spin_unlock_with_mask :: "(nat \<Rightarrow> bool) \<Rightarrow> nat \<Rightarrow> u64 \<times> u32 \<Rightarrow> (u32 \<times> nat \<times> u64 \<times> u32) option" where
  "spin_unlock_with_mask stx n s =
     map_option (\<lambda>(r, n, lck). (r, n, unmask_interrupts (fst s), lck)) (spin_unlock stx n (snd s))"

lemma spin_lock_free:
  assumes "stx m" and "n \<le> m" and "\<forall>k. n \<le> k \<and> k < m \<longrightarrow> \<not> stx k"
  shows "spin_lock stx n 0 = Some (0, Suc m, 1)" and "spin_unlock stx n l = Some (0, Suc m, 0)"
proof -
  have "\<forall>n \<le> m. (\<forall>k. n \<le> k \<and> k < m \<longrightarrow> \<not> stx k) \<longrightarrow>
      spin_lock stx n 0 = Some (0, Suc m, 1) \<and> spin_unlock stx n l = Some (0, Suc m, 0)"
  proof (intro allI impI)
    fix n
    assume "n \<le> m" "\<forall>k. n \<le> k \<and> k < m \<longrightarrow> \<not> stx k"
    then show "spin_lock stx n 0 = Some (0, Suc m, 1) \<and> spin_unlock stx n l = Some (0, Suc m, 0)"
    proof (induction "m - n" arbitrary: n)
      case 0
      then have "n = m" by simp
      then show ?case
        using assms(1) by (subst spin_lock.simps, subst spin_unlock.simps) simp
    next
      case (Suc d)
      then have "\<not> stx n" by simp
      moreover have "spin_lock stx (Suc n) 0 = Some (0, Suc m, 1) \<and>
          spin_unlock stx (Suc n) l = Some (0, Suc m, 0)"
        using Suc.hyps(2) Suc.prems by (intro Suc.hyps(1)) auto
      ultimately show ?case
        by (simp add: spin_lock.simps [of stx n 0] spin_unlock.simps [of stx n])
    qed
  qed
  then show "spin_lock stx n 0 = Some (0, Suc m, 1)" "spin_unlock stx n l = Some (0, Suc m, 0)"
    using assms(2,3) by blast+
qed

lemma spin_lock_some: "spin_lock stx n l = Some r \<Longrightarrow> l = 0"
  by (erule spin_lock.raw_induct [where P = "\<lambda>_ _ l _. l = 0", rotated])
    (auto simp: Let_def split: if_splits)

lemma spin_unlock_some: "spin_unlock stx n l = Some r \<Longrightarrow> snd (snd r) = 0"
  by (erule spin_unlock.raw_induct [where P = "\<lambda>_ _ _ r. snd (snd r) = 0", rotated])
    (auto simp: Let_def split: if_splits)

lemma spin_lock_busy: "l \<noteq> 0 \<Longrightarrow> spin_lock stx n l = None"
  using spin_lock_some [of stx n l] by (cases "spin_lock stx n l") auto

section \<open>Properties\<close>

text \<open>
  C11. Mutual exclusion of the lock at the level of instructions: in every interleaving of any
  number of processors that take and release the lock, with monitors lost and exclusive stores
  failing arbitrarily, at most one processor is between the return of \<open>spin_lock\<close> and its call
  of \<open>spin_unlock\<close>, and the lock word is 1 as long as one is.
\<close>

theorem spin_lock_mutual_exclusion:
  assumes "lock_step\<^sup>*\<^sup>* lock_init s" and "pc (cpus s c) = Critical"
  shows "lock s = 1 \<and> (\<forall>d. d \<noteq> c \<longrightarrow> pc (cpus s d) \<noteq> Critical)"
proof -
  have i: "lock_inv s" using lock_inv_steps [OF assms(1) lock_inv_init] .
  have h: "holds (cpus s c)" using assms(2) by (simp add: holds_def)
  then have "lock s = 1" using lock_inv_cpu [OF i, of c] by (simp add: cpu_ok_def)
  moreover have "pc (cpus s d) \<noteq> Critical" if "d \<noteq> c" for d
    using i h that by (metis holds_def lock_inv_def)
  ultimately show ?thesis by blast
qed

text \<open>The states of a processor that takes the free lock without interference.\<close>

lemma lock_alone:
  assumes "pc (cpus s c) = Outside" and "lock s = 0"
  shows "\<exists>s'. lock_step\<^sup>*\<^sup>* s s' \<and> pc (cpus s' c) = Critical \<and> lock s' = 1"
proof -
  define s1 where "s1 = goto c (Lock 0) s"
  define s2 where "s2 = ldaxr c (Lock 1) s1"
  define s3 where "s3 = goto c (Lock 2) s2"
  define s4 where "s4 = set_cpu c ((cpus s3 c)\<lparr>w0 := 1, pc := Lock 3\<rparr>) s3"
  define s5 where "s5 = stlxr_ok c (Lock 4) s4"
  define s6 where "s6 = goto c Critical s5"
  note defs = s1_def s2_def s3_def s4_def s5_def s6_def goto_def ldaxr_def stlxr_ok_def set_cpu_def
  have st: "lock_step s s1" unfolding s1_def using assms(1) by (rule call_lock)
  have st1: "lock_step s1 s2" unfolding s2_def by (rule lock_ldaxr) (simp add: defs)
  have st2: "lock_step s2 s3" unfolding s3_def by (rule lock_cbnz_free) (simp_all add: defs assms)
  have st3: "lock_step s3 s4" unfolding s4_def by (rule lock_mov) (simp add: defs)
  have st4: "lock_step s4 s5" unfolding s5_def by (rule lock_stlxr_ok) (simp_all add: defs)
  have st5: "lock_step s5 s6" unfolding s6_def by (rule lock_return) (simp_all add: defs)
  have "lock_step\<^sup>*\<^sup>* s s6"
    using st st1 st2 st3 st4 st5 by (meson converse_rtranclp_into_rtranclp r_into_rtranclp)
  moreover have "pc (cpus s6 c) = Critical" "lock s6 = 1" by (simp_all add: defs)
  ultimately show ?thesis by blast
qed

theorem spin_lock_mutual_exclusion_witness:
  "\<exists>s. lock_step\<^sup>*\<^sup>* lock_init s \<and> pc (cpus s 0) = Critical \<and> pc (cpus s 1) \<noteq> Critical"
proof -
  obtain s where s: "lock_step\<^sup>*\<^sup>* lock_init s" "pc (cpus s 0) = Critical"
    using lock_alone [of lock_init 0] by (auto simp: lock_init_def)
  then show ?thesis using spin_lock_mutual_exclusion [OF s] by auto
qed

text \<open>
  Progress: \<open>spin_lock\<close> on a free lock returns 0 with the lock taken as soon as one of its
  exclusive stores succeeds, and on a taken lock it does not return: a processor that asks for
  a lock it already holds, with interrupts masked, is stuck.
\<close>

lemma spin_lock_returns_iff:
  assumes "\<exists>k \<ge> n. stx k"
  shows "(\<exists>n'. spin_lock stx n l = Some (0, n', 1)) \<longleftrightarrow> l = 0"
proof
  assume "l = 0"
  let ?m = "LEAST k. n \<le> k \<and> stx k"
  have "n \<le> ?m \<and> stx ?m" using assms by (metis (mono_tags, lifting) LeastI)
  moreover have "\<forall>k. n \<le> k \<and> k < ?m \<longrightarrow> \<not> stx k" using not_less_Least by blast
  ultimately show "\<exists>n'. spin_lock stx n l = Some (0, n', 1)"
    using spin_lock_free(1) [of stx ?m n] \<open>l = 0\<close> by blast
qed (auto dest: spin_lock_some)

lemma spin_lock_returns_iff_witness:
  "(\<exists>n'. spin_lock (\<lambda>k. k = 3) 0 0 = Some (0, n', 1)) \<and> \<not> (\<exists>n'. spin_lock (\<lambda>k. k = 3) 0 1 = Some (0, n', 1))"
  using spin_lock_returns_iff [of 0 "\<lambda>k. k = 3" 0] spin_lock_returns_iff [of 0 "\<lambda>k. k = 3" 1] by simp

text \<open>
  \<open>spin_unlock_with_mask\<close> does not restore the interrupt mask that \<open>spin_lock_with_mask\<close>
  found.  Whatever it was, after the pair IRQs are enabled and D, A and F are masked, so a
  caller that had IRQs masked (as \<open>kmain\<close> and the exception handlers do) runs with IRQs enabled
  afterwards.
\<close>

lemma unlock_enables_irqs:
  assumes "spin_lock_with_mask stx n (daif, l) = Some (r, n', s)"
    and "spin_unlock_with_mask stx n' s = Some (r', n'', daif', l')"
  shows "daif' = (daif OR 0x340) AND NOT 0x80 \<and> l' = 0"
proof -
  have "fst s = mask_interrupts daif" "daif' = unmask_interrupts (fst s)" "l' = 0"
    using assms by (auto simp: spin_lock_with_mask_def spin_unlock_with_mask_def dest: spin_unlock_some)
  moreover have "(daif OR 0x3C0) AND NOT 0x80 = (daif OR 0x340) AND NOT 0x80"
    by (simp add: bit.conj_disj_distrib2)
  ultimately show ?thesis by (simp add: mask_interrupts_def unmask_interrupts_def)
qed

lemma unlock_enables_irqs_witness:
  "\<exists>r n' s r' n'' daif' l'. spin_lock_with_mask (\<lambda>_. True) 0 (0x3C0, 0) = Some (r, n', s) \<and>
     spin_unlock_with_mask (\<lambda>_. True) n' s = Some (r', n'', daif', l') \<and> daif' = 0x340"
proof -
  have "spin_lock_with_mask (\<lambda>_. True) 0 (0x3C0, 0) = Some (0, 1, 0x3C0, 1)"
    using spin_lock_free(1) [of "\<lambda>_. True" 0 0] by (simp add: spin_lock_with_mask_def mask_interrupts_def)
  moreover have "\<exists>d. spin_unlock_with_mask (\<lambda>_. True) 1 (0x3C0, 1) = Some (0, 2, d, 0)"
    using spin_lock_free(2) [of "\<lambda>_. True" 1 1] by (simp add: spin_unlock_with_mask_def numeral_2_eq_2)
  ultimately show ?thesis
    using unlock_enables_irqs [of "\<lambda>_. True" 0 "0x3C0" 0 0 1 "(0x3C0, 1)"] by fastforce
qed

end
