(* ===== verification/Uart.thy ===== *)
theory Uart
  imports Mmio
begin

text \<open>
  The console driver \<^verbatim>\<open>kernel/drivers/char/uart.c\<close>.  The state is the bus history; the device
  is a parameter.  \<open>uart_putc\<close> polls the flag register and may wait forever, which is the result
  \<open>None\<close>.  Strings are bytes of the memory \<open>mem\<close> up to a zero byte.  The variadic arguments are
  the sequence of 64-bit slots that \<open>va_arg\<close> takes one after the other.  \<open>char\<close> is unsigned on
  AArch64.  The specification \<open>printf_bytes\<close> says which bytes a format writes, and
  the first property that \<open>uart_printf\<close> writes them.
\<close>

section \<open>Registers\<close>

definition UART :: u64 where "UART = 0xffff000082400000"
definition DR :: u64 where "DR = UART + 0x00"
definition FR :: u64 where "FR = UART + 0x18"
definition IBRD :: u64 where "IBRD = UART + 0x24"
definition FBRD :: u64 where "FBRD = UART + 0x28"
definition LCRH :: u64 where "LCRH = UART + 0x2C"
definition CR :: u64 where "CR = UART + 0x30"
definition IMSC :: u64 where "IMSC = UART + 0x38"
definition ICR :: u64 where "ICR = UART + 0x44"

definition mmio_w32 :: "u64 \<Rightarrow> u32 \<Rightarrow> bus \<Rightarrow> bus" where
  "mmio_w32 addr v h = bus_write addr v h"

definition mmio_r32 :: "device \<Rightarrow> u64 \<Rightarrow> bus \<Rightarrow> u32 \<times> bus" where
  "mmio_r32 dev addr h = bus_read dev addr h"

definition uart_init :: "device \<Rightarrow> bus \<Rightarrow> bus" where
  "uart_init dev h =
    (let h = mmio_w32 CR 0 h;
         h = mmio_w32 ICR 0x7FF h;
         h = mmio_w32 IBRD 13 h;
         h = mmio_w32 FBRD 2 h;
         h = mmio_w32 LCRH (push_bit 5 3 OR push_bit 4 1) h;
         h = mmio_w32 IMSC 0 h;
         h = mmio_w32 CR (push_bit 0 1 OR push_bit 8 1 OR push_bit 9 1) h
     in snd (mmio_r32 dev FR h))"

definition write_data :: "u32 \<Rightarrow> bus \<Rightarrow> bus" where
  "write_data v h = bus_write DR v h"

definition read_status :: "device \<Rightarrow> bus \<Rightarrow> u32 \<times> bus" where
  "read_status dev h = bus_read dev FR h"

section \<open>Characters and strings\<close>

partial_function (option) uart_putc :: "device \<Rightarrow> u8 \<Rightarrow> bus \<Rightarrow> bus option" where
  "uart_putc dev c h =
    (case read_status dev h of (status, h) \<Rightarrow>
       if status AND push_bit 5 1 \<noteq> 0 then uart_putc dev c h
       else Some (write_data (ucast c) h))"

partial_function (option) uart_puts :: "device \<Rightarrow> (u64 \<Rightarrow> u8) \<Rightarrow> u64 \<Rightarrow> bus \<Rightarrow> bus option" where
  "uart_puts dev mem s h =
    (if mem s = 0 then Some h
     else Option.bind (uart_putc dev (mem s) h) (uart_puts dev mem (s + 1)))"

text \<open>
  The digits of a positive number, least significant first: the loop shared by \<open>uint2str\<close> and
  \<open>int2str\<close>, with the buffer of 2048 bytes as the list of the bytes written so far.
\<close>

fun digits_loop :: "nat \<Rightarrow> u8 list \<Rightarrow> u8 list" where
  "digits_loop d buf =
    (if d > 0 \<and> length buf < 2048
     then digits_loop (d div 10) (buf @ [48 + of_nat (d mod 10)])
     else buf)"

declare digits_loop.simps [simp del]

text \<open>The bytes of a buffer, printed from the last to the first.\<close>

fun put_all :: "device \<Rightarrow> u8 list \<Rightarrow> bus \<Rightarrow> bus option" where
  "put_all dev [] h = Some h"
| "put_all dev (c # cs) h = Option.bind (uart_putc dev c h) (put_all dev cs)"

definition print_digits :: "device \<Rightarrow> u8 list \<Rightarrow> bus \<Rightarrow> bus option" where
  "print_digits dev buf h = put_all dev (rev buf) h"

definition uint2str :: "device \<Rightarrow> u64 \<Rightarrow> bus \<Rightarrow> bus option" where
  "uint2str dev d h =
    (if d = 0 then uart_putc dev 48 h
     else print_digits dev (digits_loop (unat d) []) h)"

text \<open>
  \<open>int\<close> is 32 bits wide: the negation of the least value is that value again (as the machine
  computes it), and the loop, which runs while \<open>d > 0\<close>, then ends at once.
\<close>

definition int2str :: "device \<Rightarrow> u32 \<Rightarrow> bus \<Rightarrow> bus option" where
  "int2str dev d h =
    (if d = 0 then uart_putc dev 48 h
     else if sint d < 0 then
       Option.bind (uart_putc dev 45 h) (print_digits dev (digits_loop (nat (sint (- d))) []))
     else print_digits dev (digits_loop (nat (sint d)) []) h)"

partial_function (option) strulen :: "(u64 \<Rightarrow> u8) \<Rightarrow> u64 \<Rightarrow> nat \<Rightarrow> nat option" where
  "strulen mem p n = (if mem p = 0 then Some n else strulen mem (p + 1) (Suc n))"

section \<open>uart_printf\<close>

text \<open>The \<open>switch\<close> on the conversion, with the argument slot it takes.\<close>

definition print_arg :: "device \<Rightarrow> (u64 \<Rightarrow> u8) \<Rightarrow> u8 \<Rightarrow> u64 \<Rightarrow> bus \<Rightarrow> bus option" where
  "print_arg dev mem format_specifier arg h =
    (if format_specifier = 99 then uart_putc dev (ucast arg) h
     else if format_specifier = 100 then int2str dev (ucast arg) h
     else if format_specifier = 108 then uint2str dev arg h
     else if format_specifier = 115 then uart_puts dev mem arg h
     else uart_puts dev mem arg h)"

function printf_loop :: "device \<Rightarrow> (u64 \<Rightarrow> u8) \<Rightarrow> u64 \<Rightarrow> nat \<Rightarrow> (nat \<Rightarrow> u64) \<Rightarrow> nat \<Rightarrow> nat \<Rightarrow> bus \<Rightarrow> bus option" where
  "printf_loop dev mem fmt full args i k h =
    (if i < full then
       let current = mem (fmt + of_nat i) in
       if current \<noteq> 37 then
         Option.bind (uart_putc dev current h) (printf_loop dev mem fmt full args (i + 1) k)
       else
         Option.bind (print_arg dev mem (mem (fmt + of_nat (i + 1))) (args k) h)
           (printf_loop dev mem fmt full args (i + 1 + 1) (k + 1))
     else Some h)"
  by pat_completeness auto

termination by (relation "measure (\<lambda>(dev, mem, fmt, full, args, i, k, h). full - i)") auto

declare printf_loop.simps [simp del]

definition uart_printf :: "device \<Rightarrow> (u64 \<Rightarrow> u8) \<Rightarrow> u64 \<Rightarrow> (nat \<Rightarrow> u64) \<Rightarrow> bus \<Rightarrow> bus option" where
  "uart_printf dev mem fmt args h =
     Option.bind (strulen mem fmt 0) (\<lambda>full. printf_loop dev mem fmt full args 0 0 h)"

section \<open>A device that is ready in the end\<close>

text \<open>The bytes written to the data register, and polling of the flag register.\<close>

definition data_out :: "bus \<Rightarrow> u8 list" where
  "data_out h = map (ucast \<circ> snd) (filter (\<lambda>e. fst e = DR) (bus_writes h))"

fun poll :: "device \<Rightarrow> nat \<Rightarrow> bus \<Rightarrow> bus" where
  "poll dev 0 h = h"
| "poll dev (Suc n) h = poll dev n (snd (read_status dev h))"

definition tx_full :: "device \<Rightarrow> bus \<Rightarrow> bool" where
  "tx_full dev h \<longleftrightarrow> fst (read_status dev h) AND push_bit 5 1 \<noteq> 0"

definition uart_live :: "device \<Rightarrow> bool" where
  "uart_live dev \<longleftrightarrow> (\<forall>h. \<exists>n. \<not> tx_full dev (poll dev n h))"

lemma data_out_write [simp]: "data_out (write_data v h) = data_out h @ [ucast v]"
  by (simp add: data_out_def write_data_def bus_simps)

lemma data_out_read [simp]: "data_out (snd (read_status dev h)) = data_out h"
  by (simp add: data_out_def read_status_def bus_simps)

lemma ucast_ucast_byte [simp]: "ucast (ucast c :: u32) = (c :: u8)"
  by (intro bit_word_eqI) (simp add: bit_simps)

lemma putc_polls:
  assumes "\<not> tx_full dev (poll dev n h)"
  shows "\<exists>h'. uart_putc dev c h = Some h' \<and> data_out h' = data_out h @ [c]"
  using assms
proof (induction n arbitrary: h)
  case 0
  then show ?case
    by (subst uart_putc.simps) (auto simp: tx_full_def split_beta)
next
  case (Suc n)
  show ?case
  proof (cases "tx_full dev h")
    case True
    then have "uart_putc dev c h = uart_putc dev c (snd (read_status dev h))"
      by (subst uart_putc.simps) (simp add: tx_full_def split_beta)
    then show ?thesis using Suc.IH [of "snd (read_status dev h)"] Suc.prems by simp
  next
    case False
    then show ?thesis by (subst uart_putc.simps) (auto simp: tx_full_def split_beta)
  qed
qed

lemma putc_live:
  "uart_live dev \<Longrightarrow> \<exists>h'. uart_putc dev c h = Some h' \<and> data_out h' = data_out h @ [c]"
  using putc_polls by (metis uart_live_def)

lemma put_all_live:
  "uart_live dev \<Longrightarrow> \<exists>h'. put_all dev cs h = Some h' \<and> data_out h' = data_out h @ cs"
proof (induction cs arbitrary: h)
  case (Cons c cs)
  obtain h1 where "uart_putc dev c h = Some h1" "data_out h1 = data_out h @ [c]"
    using putc_live [OF Cons.prems] by blast
  then show ?case using Cons.IH [OF Cons.prems, of h1] by auto
qed simp

section \<open>Decimal numbers\<close>

fun digits :: "nat \<Rightarrow> u8 list" where
  "digits d = (if d = 0 then [] else (48 + of_nat (d mod 10)) # digits (d div 10))"

declare digits.simps [simp del]

text \<open>The value of a string of decimal digits.\<close>

definition decimal_value :: "u8 list \<Rightarrow> nat" where
  "decimal_value cs = foldl (\<lambda>n c. 10 * n + (unat c - 48)) 0 cs"

lemma length_digits: "d < 10 ^ n \<Longrightarrow> length (digits d) \<le> n"
proof (induction n arbitrary: d)
  case 0
  then show ?case by (simp add: digits.simps)
next
  case (Suc n)
  then have "d div 10 < 10 ^ n" by (simp add: div_less_iff_less_mult mult.commute)
  then show ?case using Suc.IH by (subst digits.simps) simp
qed

lemma digits_loop_eq:
  "length buf + length (digits d) \<le> 2048 \<Longrightarrow> digits_loop d buf = buf @ digits d"
proof (induction d buf rule: digits_loop.induct)
  case (1 d buf)
  show ?case
  proof (cases "d = 0")
    case True
    then show ?thesis by (subst digits_loop.simps) (simp add: digits.simps)
  next
    case False
    then have d: "digits d = (48 + of_nat (d mod 10)) # digits (d div 10)"
      by (subst digits.simps) simp
    then show ?thesis
      using 1 False by (subst digits_loop.simps) simp
  qed
qed

lemma digit_value: "unat (48 + of_nat (d mod 10) :: u8) = 48 + d mod 10"
  by (simp add: unat_word_ariths unat_of_nat)

lemma decimal_value_digits: "decimal_value (rev (digits d)) = d"
proof (induction d rule: digits.induct)
  case (1 d)
  then show ?case
    by (subst digits.simps) (auto simp: decimal_value_def digit_value)
qed

lemma digits_are_digits: "c \<in> set (digits d) \<Longrightarrow> 48 \<le> c \<and> c \<le> 57"
proof (induction d rule: digits.induct)
  case (1 d)
  show ?case
  proof (cases "d = 0")
    case True
    then show ?thesis using "1.prems" by (simp add: digits.simps)
  next
    case False
    then have "c = 48 + of_nat (d mod 10) \<or> c \<in> set (digits (d div 10))"
      using "1.prems" by (subst (asm) digits.simps) simp
    then show ?thesis
      using 1(1) [OF False] digit_value [of d] by (auto simp: word_le_nat_alt)
  qed
qed

text \<open>The decimal notation of a number.\<close>

definition decimal :: "nat \<Rightarrow> u8 list" where
  "decimal d = (if d = 0 then [48] else rev (digits d))"

lemma decimal_value_decimal: "decimal_value (decimal d) = d"
  by (simp add: decimal_def decimal_value_digits) (simp add: decimal_value_def)

lemma print_digits_live:
  assumes "uart_live dev" and "0 < d" and "d < 2 ^ 64"
  shows "\<exists>h'. print_digits dev (digits_loop d []) h = Some h' \<and> data_out h' = data_out h @ decimal d"
proof -
  have "d < 10 ^ 20" using assms(3) by simp
  then have "length (digits d) \<le> 20" by (rule length_digits)
  then have "digits_loop d [] = digits d" using digits_loop_eq [of "[]" d] by simp
  then show ?thesis
    using put_all_live [OF assms(1), of "rev (digits d)" h] assms(2)
    by (simp add: print_digits_def decimal_def)
qed

lemma uint2str_live:
  assumes "uart_live dev"
  shows "\<exists>h'. uint2str dev d h = Some h' \<and> data_out h' = data_out h @ decimal (unat d)"
proof (cases "d = 0")
  case True
  then show ?thesis using putc_live [OF assms, of 48 h] by (simp add: uint2str_def decimal_def)
next
  case False
  then have "0 < unat d" by (simp add: unat_gt_0)
  moreover have "unat d < 2 ^ 64" using unsigned_less [of d] by simp
  ultimately show ?thesis
    using print_digits_live [OF assms] False by (simp add: uint2str_def)
qed

text \<open>What \<open>int2str\<close> prints; the least \<open>int\<close> loses its digits.\<close>

definition signed_decimal :: "u32 \<Rightarrow> u8 list" where
  "signed_decimal d =
    (if sint d = - (2 ^ 31) then [45]
     else if sint d < 0 then 45 # decimal (nat (- sint d)) else decimal (nat (sint d)))"

lemma sint_uminus:
  fixes d :: u32
  shows "sint (- d) = (if sint d = - (2 ^ 31) then - (2 ^ 31) else - sint d)"
proof -
  have r: "- (2 ^ 31) \<le> sint d" "sint d < 2 ^ 31"
    using sint_ge [of d] sint_lt [of d] by simp_all
  have "sint (word_of_int (- sint d) :: u32) = signed_take_bit 31 (- sint d)"
    by (subst signed_of_int) simp
  moreover have "word_of_int (- sint d) = - d" by simp
  ultimately have s: "sint (- d) = signed_take_bit 31 (- sint d)" by simp
  show ?thesis
  proof (cases "sint d = - (2 ^ 31)")
    case True
    then show ?thesis by (simp add: s)
  next
    case False
    then have "signed_take_bit 31 (- sint d) = - sint d"
      using r by (intro signed_take_bit_int_eq_self) simp_all
    then show ?thesis using False s by simp
  qed
qed


lemma int2str_live:
  assumes "uart_live dev"
  shows "\<exists>h'. int2str dev d h = Some h' \<and> data_out h' = data_out h @ signed_decimal d"
proof -
  have r: "- (2 ^ 31) \<le> sint d" "sint d < 2 ^ 31"
    using sint_ge [of d] sint_lt [of d] by simp_all
  consider (zero) "d = 0" | (least) "sint d = - (2 ^ 31)" | (neg) "sint d < 0" "sint d \<noteq> - (2 ^ 31)"
    | (pos) "0 < sint d"
    by (metis linorder_neqE_linordered_idom signed_eq_0_iff)
  then show ?thesis
  proof cases
    case zero
    then show ?thesis
      using putc_live [OF assms, of 48 h] by (simp add: int2str_def signed_decimal_def decimal_def)
  next
    case least
    obtain h1 where h1: "uart_putc dev 45 h = Some h1" "data_out h1 = data_out h @ [45]"
      using putc_live [OF assms] by blast
    have "digits_loop 0 [] = []" by (subst digits_loop.simps) simp
    then show ?thesis
      using least h1 by (auto simp: int2str_def signed_decimal_def sint_uminus print_digits_def)
  next
    case neg
    obtain h1 where h1: "uart_putc dev 45 h = Some h1" "data_out h1 = data_out h @ [45]"
      using putc_live [OF assms] by blast
    have b: "0 < nat (- sint d)" "nat (- sint d) < 2 ^ 64"
      using neg(1) r(1) by (simp_all add: nat_less_iff)
    obtain h2 where h2: "print_digits dev (digits_loop (nat (- sint d)) []) h1 = Some h2"
      "data_out h2 = data_out h1 @ decimal (nat (- sint d))"
      using print_digits_live [OF assms, of "nat (- sint d)" h1] b by blast
    have "d \<noteq> 0" "sint (- d) = - sint d" using neg by (auto simp: sint_uminus)
    then show ?thesis
      using neg h1 h2 by (auto simp: int2str_def signed_decimal_def)
  next
    case pos
    then have "d \<noteq> 0" by auto
    then show ?thesis
      using print_digits_live [OF assms, of "nat (sint d)" h] pos r
      by (simp add: int2str_def signed_decimal_def)
  qed
qed

section \<open>Strings and formats\<close>

lemma uart_puts_live:
  "uart_live dev \<Longrightarrow> cstring mem s cs \<Longrightarrow>
     \<exists>h'. uart_puts dev mem s h = Some h' \<and> data_out h' = data_out h @ cs"
proof (induction cs arbitrary: s h)
  case Nil
  then show ?case by (subst uart_puts.simps) simp
next
  case (Cons c cs)
  obtain h1 where h1: "uart_putc dev c h = Some h1" "data_out h1 = data_out h @ [c]"
    using putc_live [OF Cons.prems(1)] by blast
  obtain h2 where h2: "uart_puts dev mem (s + 1) h1 = Some h2" "data_out h2 = data_out h1 @ cs"
    using Cons.IH [OF Cons.prems(1), of "s + 1" h1] Cons.prems(2) by auto
  show ?case
    using Cons.prems(2) h1 h2 by (subst uart_puts.simps) auto
qed

lemma strulen_cstring: "cstring mem p cs \<Longrightarrow> strulen mem p n = Some (n + length cs)"
proof (induction cs arbitrary: p n)
  case Nil
  then show ?case by (subst strulen.simps) simp
next
  case (Cons c cs)
  then show ?case by (subst strulen.simps) auto
qed

text \<open>
  The specification of \<open>uart_printf\<close>: what a conversion prints for the argument in its slot
  (\<open>str\<close> gives the string at an address), and what a format prints.  Any conversion other than
  c, d and l takes its argument as a string.
\<close>

definition arg_bytes :: "(u64 \<Rightarrow> u8 list) \<Rightarrow> u8 \<Rightarrow> u64 \<Rightarrow> u8 list" where
  "arg_bytes str c arg =
    (if c = 99 then [ucast arg]
     else if c = 100 then signed_decimal (ucast arg)
     else if c = 108 then decimal (unat arg)
     else str arg)"

fun printf_bytes :: "(u64 \<Rightarrow> u8 list) \<Rightarrow> u8 list \<Rightarrow> (nat \<Rightarrow> u64) \<Rightarrow> nat \<Rightarrow> u8 list" where
  "printf_bytes str [] args k = []"
| "printf_bytes str (c # cs) args k =
    (if c \<noteq> 37 then c # printf_bytes str cs args k
     else case cs of
       [] \<Rightarrow> arg_bytes str 0 (args k)
     | f # cs' \<Rightarrow> arg_bytes str f (args k) @ printf_bytes str cs' args (Suc k))"

lemma print_arg_live:
  assumes "uart_live dev" and "f = 99 \<or> f = 100 \<or> f = 108 \<or> cstring mem arg (str arg)"
  shows "\<exists>h'. print_arg dev mem f arg h = Some h' \<and> data_out h' = data_out h @ arg_bytes str f arg"
proof -
  consider "f = 99" | "f = 100" | "f = 108" | "f \<noteq> 99" "f \<noteq> 100" "f \<noteq> 108" by blast
  then show ?thesis
    using assms(2) putc_live [OF assms(1), of "ucast arg" h] int2str_live [OF assms(1), of "ucast arg" h]
      uint2str_live [OF assms(1), of arg h] uart_puts_live [OF assms(1), of mem arg "str arg" h]
    by cases (simp_all add: print_arg_def arg_bytes_def)
qed

text \<open>The string arguments of a format point to strings.\<close>

fun args_ok :: "(u64 \<Rightarrow> u8) \<Rightarrow> (u64 \<Rightarrow> u8 list) \<Rightarrow> u8 list \<Rightarrow> (nat \<Rightarrow> u64) \<Rightarrow> nat \<Rightarrow> bool" where
  "args_ok mem str [] args k \<longleftrightarrow> True"
| "args_ok mem str (c # cs) args k \<longleftrightarrow>
    (if c \<noteq> 37 then args_ok mem str cs args k
     else case cs of
       [] \<Rightarrow> cstring mem (args k) (str (args k))
     | f # cs' \<Rightarrow> (f = 99 \<or> f = 100 \<or> f = 108 \<or> cstring mem (args k) (str (args k))) \<and>
                 args_ok mem str cs' args (Suc k))"

lemma printf_loop_live:
  assumes "uart_live dev" and "cstring mem fmt cs" and "args_ok mem str (drop i cs) args k"
  shows "\<exists>h'. printf_loop dev mem fmt (length cs) args i k h = Some h' \<and>
    data_out h' = data_out h @ printf_bytes str (drop i cs) args k"
  using assms(3)
proof (induction "length cs - i" arbitrary: i k h rule: less_induct)
  case less
  note nth = cstring_nth [OF assms(2)]
  show ?case
  proof (cases "i < length cs")
    case False
    then show ?thesis by (subst printf_loop.simps) simp
  next
    case True
    then have c: "mem (fmt + of_nat i) = cs ! i" "drop i cs = cs ! i # drop (Suc i) cs"
      using nth [of i] by (simp_all add: Cons_nth_drop_Suc)
    have lt: "length cs - (i + 1) < length cs - i" "length cs - (i + 1 + 1) < length cs - i"
      using True by linarith+
    show ?thesis
    proof (cases "cs ! i = 37")
      case False
      obtain h1 where h1: "uart_putc dev (cs ! i) h = Some h1" "data_out h1 = data_out h @ [cs ! i]"
        using putc_live [OF assms(1)] by blast
      then show ?thesis
        using True False c less.hyps [OF lt(1), of k h1] less.prems by (subst printf_loop.simps) (auto simp: Let_def)
    next
      case pc: True
      define f where "f = mem (fmt + of_nat (i + 1))"
      have f: "f = (if Suc i < length cs then cs ! Suc i else 0)"
        using nth [of "Suc i"] True unfolding f_def by simp
      have step: "printf_loop dev mem fmt (length cs) args i k h =
          Option.bind (print_arg dev mem f (args k) h) (printf_loop dev mem fmt (length cs) args (i + 1 + 1) (k + 1))"
        using True pc c(1) by (subst printf_loop.simps) (simp add: f_def Let_def)
      have d: "drop (Suc i) cs = (if Suc i < length cs then f # drop (Suc (Suc i)) cs else [])"
        using f by (simp add: Cons_nth_drop_Suc)
      obtain h1 where h1: "print_arg dev mem f (args k) h = Some h1" "data_out h1 = data_out h @ arg_bytes str f (args k)"
        using print_arg_live [OF assms(1), of f mem "args k" str h] less.prems c(2) pc d f by (auto split: if_splits)
      have "args_ok mem str (drop (i + 1 + 1) cs) args (k + 1)"
        using less.prems c(2) pc d by (simp split: if_splits)
      from less.hyps [OF lt(2) this, of h1] show ?thesis
        using h1 step pc c(2) d f by (auto split: if_splits)
    qed
  qed
qed

section \<open>Properties\<close>


text \<open>
  Numbers are printed in decimal and can be read back: what \<open>uint2str\<close> writes is the decimal
  notation of its 64-bit argument, its value is the argument, and only digits occur.
\<close>

lemma uint2str_decimal:
  assumes "uart_live dev"
  shows "\<exists>h' cs. uint2str dev d h = Some h' \<and> data_out h' = data_out h @ cs \<and>
    decimal_value cs = unat d \<and> (\<forall>c \<in> set cs. 48 \<le> c \<and> c \<le> 57)"
proof -
  have "\<forall>c \<in> set (decimal (unat d)). 48 \<le> c \<and> c \<le> 57"
    using digits_are_digits by (auto simp: decimal_def)
  then show ?thesis
    using uint2str_live [OF assms, of d h] decimal_value_decimal [of "unat d"] by blast
qed

text \<open>
  \<open>int2str\<close> of the least \<open>int\<close> prints a minus sign and nothing else, because the negation
  overflows; every other negative number is printed as a minus sign and the decimal notation
  of its absolute value.
\<close>

lemma int2str_negative:
  assumes "uart_live dev" and "sint d < 0"
  shows "\<exists>h'. int2str dev d h = Some h' \<and> data_out h' = data_out h @
    (if sint d = - (2 ^ 31) then [45] else 45 # decimal (nat (- sint d)))"
  using int2str_live [OF assms(1), of d h] assms(2) by (auto simp: signed_decimal_def)

definition ready_uart :: device where
  "ready_uart h a = 0"

lemma ready_uart_live: "uart_live ready_uart"
proof -
  have "\<not> tx_full ready_uart (poll ready_uart 0 h)" for h
    by (simp add: tx_full_def read_status_def bus_read_def ready_uart_def)
  then show ?thesis unfolding uart_live_def by blast
qed


lemma uint2str_decimal_witness:
  "\<exists>h' cs. uint2str ready_uart 0xFFFFFFFFFFFFFFFF [] = Some h' \<and> data_out h' = cs \<and>
     decimal_value cs = 18446744073709551615"
  using uint2str_decimal [OF ready_uart_live, of "0xFFFFFFFFFFFFFFFF" "[]"] by (auto simp: data_out_def)

lemma int2str_negative_witness:
  "\<exists>h'. int2str ready_uart 0x80000000 [] = Some h' \<and> data_out h' = [45]"
  using int2str_negative [OF ready_uart_live, of "0x80000000" "[]"] by (simp add: data_out_def)

end
