(* ===== verification/Dtb.thy ===== *)
theory Dtb
  imports Prelude
begin

text \<open>
  The device tree readers of \<^verbatim>\<open>kernel/core/dtd.c\<close>: \<open>get_total_ram\<close> sums the sizes of the memory
  node, \<open>get_drive_info\<close> finds the registers and the interrupt of the first virtio node.  Memory is
  a function from addresses to bytes.  The parse loops follow the blob and may run forever on
  one that does not end, so they are partial functions with result \<open>None\<close>.  The specification
  is stated on the token sequence: \<open>fdt_at mem p items\<close> says that the blob at \<open>p\<close> encodes
  \<open>items\<close>.  Log output is left out.
\<close>

section \<open>Reading\<close>

definition TOKEN_BEGIN_NODE :: u32 where "TOKEN_BEGIN_NODE = 0x1"
definition TOKEN_END_NODE :: u32 where "TOKEN_END_NODE = 0x2"
definition TOKEN_PROP :: u32 where "TOKEN_PROP = 0x3"
definition TOKEN_NOP :: u32 where "TOKEN_NOP = 0x4"
definition TOKEN_END :: u32 where "TOKEN_END = 0x9"

definition read_b32 :: "(u64 \<Rightarrow> u8) \<Rightarrow> u64 \<Rightarrow> u32" where
  "read_b32 mem p =
     push_bit 24 (ucast (mem p)) OR push_bit 16 (ucast (mem (p + 1))) OR
     push_bit 8 (ucast (mem (p + 2))) OR push_bit 0 (ucast (mem (p + 3)))"

text \<open>
  The header fields are loaded as little endian words and swapped; \<open>off_dt_struct\<close> is at offset
  8 of the packed header and \<open>off_dt_strings\<close> at offset 12.
\<close>

definition load32 :: "(u64 \<Rightarrow> u8) \<Rightarrow> u64 \<Rightarrow> u32" where
  "load32 mem p =
     ucast (mem p) OR push_bit 8 (ucast (mem (p + 1))) OR
     push_bit 16 (ucast (mem (p + 2))) OR push_bit 24 (ucast (mem (p + 3)))"

definition bswap32 :: "u32 \<Rightarrow> u32" where
  "bswap32 w =
     push_bit 24 (w AND 0xFF) OR push_bit 8 (w AND 0xFF00) OR
     drop_bit 8 (w AND 0xFF0000) OR drop_bit 24 (w AND 0xFF000000)"

definition dtb_off_dt_struct :: "(u64 \<Rightarrow> u8) \<Rightarrow> u64 \<Rightarrow> u32" where
  "dtb_off_dt_struct mem header = bswap32 (load32 mem (header + 8))"

definition dtb_off_dt_strings :: "(u64 \<Rightarrow> u8) \<Rightarrow> u64 \<Rightarrow> u32" where
  "dtb_off_dt_strings mem header = bswap32 (load32 mem (header + 12))"

text \<open>The two pointer loops: to the end of a string, and to the next multiple of four.\<close>

partial_function (option) skip_string :: "(u64 \<Rightarrow> u8) \<Rightarrow> u64 \<Rightarrow> u64 option" where
  "skip_string mem p = (if mem p \<noteq> 0 then skip_string mem (p + 1) else Some p)"

lemma unat_and_3: "unat ((p :: u64) AND 3) = unat p mod 4"
proof -
  have "(3 :: u64) = mask 2" by (simp add: mask_eq_decr_exp)
  then show ?thesis using unat_and_mask [of p 2] by simp
qed

lemma unat_plus_1_mod_4: "unat ((p :: u64) + 1) mod 4 = Suc (unat p mod 4) mod 4"
  by (simp add: unat_word_ariths mod_mod_cancel mod_Suc_eq)

function align4 :: "u64 \<Rightarrow> u64" where
  "align4 p = (if p AND 3 \<noteq> 0 then align4 (p + 1) else p)"
  by pat_completeness auto

termination
proof (relation "measure (\<lambda>p. (4 - unat p mod 4) mod 4)")
  fix p :: u64
  assume "p AND 3 \<noteq> 0"
  then have "unat p mod 4 \<noteq> 0" by (simp flip: unat_and_3 unat_eq_0)
  then have "unat p mod 4 = 1 \<or> unat p mod 4 = 2 \<or> unat p mod 4 = 3" by linarith
  then show "(p + 1, p) \<in> measure (\<lambda>p. (4 - unat p mod 4) mod 4)"
    using unat_plus_1_mod_4 [of p] by auto
qed simp

declare align4.simps [simp del]

text \<open>
  The parse loops are \<open>for (;;)\<close> around a \<open>switch\<close>: the body yields the state of the next
  iteration (\<open>Inl\<close>) or the value returned (\<open>Inr\<close>).
\<close>

partial_function (option) token_loop :: "('s \<Rightarrow> ('s + 'r) option) \<Rightarrow> 's \<Rightarrow> 'r option" where
  "token_loop body s =
    Option.bind (body s) (\<lambda>x. case x of Inl s' \<Rightarrow> token_loop body s' | Inr r \<Rightarrow> Some r)"

section \<open>get_total_ram\<close>

text \<open>The loop over the entries of the reg property, four words each.\<close>

fun ram_regs :: "(u64 \<Rightarrow> u8) \<Rightarrow> u64 \<Rightarrow> nat \<Rightarrow> u64 \<Rightarrow> u64" where
  "ram_regs mem p 0 tot = tot"
| "ram_regs mem p (Suc n) tot =
    (let add2 = read_b32 mem p; add1 = read_b32 mem (p + 4);
         size2 = read_b32 mem (p + 8); size1 = read_b32 mem (p + 12);
         add = push_bit 32 (ucast add2) OR ucast add1 :: u64;
         sz = push_bit 32 (ucast size2) OR ucast size1
     in ram_regs mem (p + 16) n (tot + sz))"

text \<open>
  The body of \<open>for (;;)\<close>: \<open>Inl\<close> is the next position with the flag \<open>inside_memory_node\<close>, \<open>Inr\<close>
  the value returned.
\<close>

definition ram_token :: "(u64 \<Rightarrow> u8) \<Rightarrow> u64 \<Rightarrow> u64 \<times> bool \<Rightarrow> (u64 \<times> bool + u64) option" where
  "ram_token mem dt_strings st =
    (case st of (p, inside_memory_node) \<Rightarrow>
     let token = read_b32 mem p; p = p + 4; tot = 0 in
     if token = TOKEN_BEGIN_NODE then
       let inside = (if mem p = 0 then False
                     else if mem p = 109 \<and> mem (p + 1) = 101 \<and> mem (p + 5) = 121 then True
                     else False)
       in map_option (\<lambda>p. Inl (align4 (p + 1), inside)) (skip_string mem p)
     else if token = TOKEN_PROP then
       let len = read_b32 mem p; p = p + 4;
           string_offset = read_b32 mem p; p = p + 4;
           string = dt_strings + ucast string_offset
       in if inside_memory_node \<and> mem string = 114 \<and> mem (string + 2) = 103 then
            (if len \<le> 0 then Some (Inr 0)
             else let max = len div 16 in Some (Inr (ram_regs mem p (unat max) tot)))
          else Some (Inl (align4 (p + ucast len), inside_memory_node))
     else if token = TOKEN_END_NODE then Some (Inl (p, False))
     else if token = TOKEN_NOP then Some (Inl (p, inside_memory_node))
     else if token = TOKEN_END then Some (Inr tot)
     else Some (Inr tot))"

text \<open>The constant \<open>DTB_BASE\<close> is an \<open>int\<close>, so its sum with an offset is a 32-bit number.\<close>

definition get_total_ram :: "(u64 \<Rightarrow> u8) \<Rightarrow> u64 option" where
  "get_total_ram mem =
    (let off_dt_struct = dtb_off_dt_struct mem 0x40000000;
         off_dt_string = dtb_off_dt_strings mem 0x40000000;
         dt_struct = ucast (0x40000000 + off_dt_struct :: u32);
         dt_strings = ucast (0x40000000 + off_dt_string :: u32)
     in token_loop (ram_token mem dt_strings) (dt_struct, False))"

section \<open>get_drive_info\<close>

text \<open>The words of a reg or an interrupts property that are stored into the result array.\<close>

definition drive_reg :: "(u64 \<Rightarrow> u8) \<Rightarrow> u64 \<Rightarrow> (nat \<Rightarrow> u64) \<Rightarrow> nat \<Rightarrow> u64" where
  "drive_reg mem p result =
    (let add2 = read_b32 mem p; add1 = read_b32 mem (p + 4);
         size2 = read_b32 mem (p + 8); size1 = read_b32 mem (p + 12);
         add = push_bit 32 (ucast add2) OR ucast add1;
         sz = push_bit 32 (ucast size2) OR ucast size1
     in result(0 := add, 1 := sz))"

definition drive_interrupts :: "(u64 \<Rightarrow> u8) \<Rightarrow> u64 \<Rightarrow> (nat \<Rightarrow> u64) \<Rightarrow> nat \<Rightarrow> u64" where
  "drive_interrupts mem p result =
    (let num1 = read_b32 mem (p + 4); type1 = read_b32 mem (p + 0); edge1 = read_b32 mem (p + 8)
     in result(2 := push_bit 32 0 OR ucast type1, 3 := push_bit 32 0 OR ucast num1,
               4 := push_bit 32 0 OR ucast edge1))"

type_synonym drive_state = "u64 \<times> bool \<times> (nat \<Rightarrow> u64)"

definition drive_token :: "(u64 \<Rightarrow> u8) \<Rightarrow> u64 \<Rightarrow> drive_state \<Rightarrow> (drive_state + (nat \<Rightarrow> u64)) option" where
  "drive_token mem dt_strings st =
    (case st of (p, inside_virtio, result) \<Rightarrow>
     let token = read_b32 mem p; p = p + 4 in
     if token = TOKEN_BEGIN_NODE then
       let inside = (if mem p = 0 then False
                     else if mem p = 118 \<and> mem (p + 1) = 105 \<and> mem (p + 2) = 114 then True
                     else False)
       in map_option (\<lambda>p. Inl (align4 (if mem p = 0 then p + 1 else p), inside, result))
            (skip_string mem p)
     else if token = TOKEN_PROP then
       let len = read_b32 mem p; p = p + 4;
           string_offset = read_b32 mem p; p = p + 4;
           string = dt_strings + ucast string_offset
       in if inside_virtio \<and> mem string = 114 \<and> mem (string + 2) = 103 then
            (if len \<le> 0 then Some (Inl (p, inside_virtio, result))
             else Some (Inr (drive_reg mem p result)))
          else if inside_virtio \<and> mem string = 105 \<and> mem (string + 1) = 110 \<and> mem (string + 2) = 116 then
            (if len \<le> 0 then Some (Inl (p, inside_virtio, result))
             else Some (Inl (align4 (p + ucast len), inside_virtio, drive_interrupts mem p result)))
          else Some (Inl (align4 (p + ucast len), inside_virtio, result))
     else if token = TOKEN_END_NODE then Some (Inl (p, False, result))
     else if token = TOKEN_NOP then Some (Inl (p, inside_virtio, result))
     else if token = TOKEN_END then Some (Inr result)
     else Some (Inl (p + 4, inside_virtio, result)))"

definition get_drive_info :: "(u64 \<Rightarrow> u8) \<Rightarrow> (nat \<Rightarrow> u64) \<Rightarrow> (nat \<Rightarrow> u64) option" where
  "get_drive_info mem result =
    (let off_dt_struct = dtb_off_dt_struct mem 0xffff000085400000;
         off_dt_string = dtb_off_dt_strings mem 0xffff000085400000;
         dt_struct = 0xffff000085400000 + ucast off_dt_struct;
         dt_strings = 0xffff000085400000 + ucast off_dt_string
     in token_loop (drive_token mem dt_strings) (dt_struct, False, result))"

section \<open>The token sequence of a blob\<close>

datatype fdt_item = BeginNode "u8 list" | EndNode | PropItem u32 "u8 list" | NopItem

fun fdt_at :: "(u64 \<Rightarrow> u8) \<Rightarrow> u64 \<Rightarrow> fdt_item list \<Rightarrow> bool" where
  "fdt_at mem p [] \<longleftrightarrow> read_b32 mem p = TOKEN_END"
| "fdt_at mem p (BeginNode nm # its) \<longleftrightarrow>
     read_b32 mem p = TOKEN_BEGIN_NODE \<and> cstring mem (p + 4) nm \<and>
     fdt_at mem (align4 (p + 4 + of_nat (length nm) + 1)) its"
| "fdt_at mem p (PropItem off v # its) \<longleftrightarrow>
     read_b32 mem p = TOKEN_PROP \<and> length v < 2 ^ 32 \<and> read_b32 mem (p + 4) = of_nat (length v) \<and>
     read_b32 mem (p + 8) = off \<and> bytes_at mem (p + 12) v \<and>
     fdt_at mem (align4 (p + 12 + of_nat (length v))) its"
| "fdt_at mem p (EndNode # its) \<longleftrightarrow> read_b32 mem p = TOKEN_END_NODE \<and> fdt_at mem (p + 4) its"
| "fdt_at mem p (NopItem # its) \<longleftrightarrow> read_b32 mem p = TOKEN_NOP \<and> fdt_at mem (p + 4) its"

text \<open>Big endian numbers in the value of a property.\<close>

definition be32 :: "u8 list \<Rightarrow> nat \<Rightarrow> u32" where
  "be32 v i = push_bit 24 (ucast (v ! i)) OR push_bit 16 (ucast (v ! (i + 1))) OR
     push_bit 8 (ucast (v ! (i + 2))) OR push_bit 0 (ucast (v ! (i + 3)))"

definition be64 :: "u8 list \<Rightarrow> nat \<Rightarrow> u64" where
  "be64 v i = push_bit 32 (ucast (be32 v i)) OR ucast (be32 v (i + 4))"

text \<open>
  The specification.  A property is looked at when the last node token opened a node of
  interest; \<open>is_reg\<close> and \<open>is_int\<close> say of a name offset whether it names a reg or an interrupts
  property.
\<close>

definition memory_node :: "u8 list \<Rightarrow> bool" where
  "memory_node nm \<longleftrightarrow> 5 < length nm \<and> nm ! 0 = 109 \<and> nm ! 1 = 101 \<and> nm ! 5 = 121"

definition virtio_node :: "u8 list \<Rightarrow> bool" where
  "virtio_node nm \<longleftrightarrow> take 3 nm = [118, 105, 114]"

fun ram_spec :: "(u32 \<Rightarrow> bool) \<Rightarrow> bool \<Rightarrow> fdt_item list \<Rightarrow> u64" where
  "ram_spec is_reg inside [] = 0"
| "ram_spec is_reg inside (BeginNode nm # its) = ram_spec is_reg (memory_node nm) its"
| "ram_spec is_reg inside (EndNode # its) = ram_spec is_reg False its"
| "ram_spec is_reg inside (NopItem # its) = ram_spec is_reg inside its"
| "ram_spec is_reg inside (PropItem off v # its) =
    (if inside \<and> is_reg off then (\<Sum>i \<leftarrow> [0..<length v div 16]. be64 v (16 * i + 8))
     else ram_spec is_reg inside its)"

fun drive_spec :: "(u32 \<Rightarrow> bool) \<Rightarrow> (u32 \<Rightarrow> bool) \<Rightarrow> bool \<Rightarrow> (nat \<Rightarrow> u64) \<Rightarrow> fdt_item list \<Rightarrow> nat \<Rightarrow> u64" where
  "drive_spec is_reg is_int inside result [] = result"
| "drive_spec is_reg is_int inside result (BeginNode nm # its) =
     drive_spec is_reg is_int (virtio_node nm) result its"
| "drive_spec is_reg is_int inside result (EndNode # its) = drive_spec is_reg is_int False result its"
| "drive_spec is_reg is_int inside result (NopItem # its) = drive_spec is_reg is_int inside result its"
| "drive_spec is_reg is_int inside result (PropItem off v # its) =
    (if inside \<and> is_reg off then result(0 := be64 v 0, 1 := be64 v 8)
     else if inside \<and> is_int off then
       drive_spec is_reg is_int inside
         (result(2 := ucast (be32 v 0), 3 := ucast (be32 v 4), 4 := ucast (be32 v 8))) its
     else drive_spec is_reg is_int inside result its)"

text \<open>
  What the code takes for granted: a node name that begins with the letters me has at least
  five characters, and the values it decodes have their full length.
\<close>

fun ram_item_ok :: "fdt_item \<Rightarrow> bool" where
  "ram_item_ok (BeginNode nm) \<longleftrightarrow> 5 \<le> length nm \<or> take 2 nm \<noteq> [109, 101]"
| "ram_item_ok _ \<longleftrightarrow> True"

fun drive_item_ok :: "(u32 \<Rightarrow> bool) \<Rightarrow> (u32 \<Rightarrow> bool) \<Rightarrow> fdt_item \<Rightarrow> bool" where
  "drive_item_ok is_reg is_int (PropItem off v) \<longleftrightarrow>
     (is_reg off \<longrightarrow> 16 \<le> length v) \<and> (is_int off \<longrightarrow> 12 \<le> length v)"
| "drive_item_ok is_reg is_int _ \<longleftrightarrow> True"

text \<open>The name tests of the code, on the strings block at \<open>ds\<close>.\<close>

definition names_reg :: "(u64 \<Rightarrow> u8) \<Rightarrow> u64 \<Rightarrow> u32 \<Rightarrow> bool" where
  "names_reg mem ds off \<longleftrightarrow> mem (ds + ucast off) = 114 \<and> mem (ds + ucast off + 2) = 103"

definition names_int :: "(u64 \<Rightarrow> u8) \<Rightarrow> u64 \<Rightarrow> u32 \<Rightarrow> bool" where
  "names_int mem ds off \<longleftrightarrow>
     mem (ds + ucast off) = 105 \<and> mem (ds + ucast off + 1) = 110 \<and> mem (ds + ucast off + 2) = 116"

section \<open>Decoding\<close>

lemma skip_string_cstring: "cstring mem p nm \<Longrightarrow> skip_string mem p = Some (p + of_nat (length nm))"
proof (induction nm arbitrary: p)
  case Nil
  then show ?case by (subst skip_string.simps) simp
next
  case (Cons c nm)
  then show ?case by (subst skip_string.simps) (auto simp: algebra_simps)
qed

lemma read_b32_bytes:
  assumes "bytes_at mem p v" and "i + 4 \<le> length v"
  shows "read_b32 mem (p + of_nat i) = be32 v i"
proof -
  have b: "mem (p + of_nat i + of_nat k) = v ! (i + k)" if "k < 4" for k
  proof -
    have "mem (p + of_nat (i + k)) = v ! (i + k)"
      using assms that by (simp only: bytes_at_def)
    then show ?thesis by (simp only: of_nat_add add.assoc)
  qed
  show ?thesis
    using b [of 0] b [of 1] b [of 2] b [of 3] by (simp add: read_b32_def be32_def)
qed

lemma read_b32_offset:
  assumes "bytes_at mem p v" and "i + k + 4 \<le> length v"
  shows "read_b32 mem (p + of_nat i + of_nat k) = be32 v (i + k)"
  using read_b32_bytes [OF assms(1), of "i + k"] assms(2) by (simp only: of_nat_add add.assoc)

lemmas read_b32_cells =
  read_b32_offset [where k = 0, unfolded semiring_1_class.of_nat_0 add_0_right]
  read_b32_offset [where k = 4, unfolded of_nat_numeral]
  read_b32_offset [where k = 8, unfolded of_nat_numeral]
  read_b32_offset [where k = 12, unfolded of_nat_numeral]

text \<open>Swapping the bytes of a little endian word is reading it big endian.\<close>

lemma bit_bytes:
  assumes "r < 8"
  shows "bit (a :: u8) (8 + r) = False" "bit a (16 + r) = False" "bit a (24 + r) = False"
  by (auto dest: bit_imp_le_length)

lemma bit_load32:
  assumes "r < 8"
  shows "bit (load32 mem p) r = bit (mem p) r" "bit (load32 mem p) (8 + r) = bit (mem (p + 1)) r"
    "bit (load32 mem p) (16 + r) = bit (mem (p + 2)) r" "bit (load32 mem p) (24 + r) = bit (mem (p + 3)) r"
  using assms bit_bytes [OF assms]
  by (simp_all add: load32_def bit_or_iff bit_push_bit_iff bit_unsigned_iff)

lemma bit_read_b32:
  assumes "r < 8"
  shows "bit (read_b32 mem p) r = bit (mem (p + 3)) r" "bit (read_b32 mem p) (8 + r) = bit (mem (p + 2)) r"
    "bit (read_b32 mem p) (16 + r) = bit (mem (p + 1)) r" "bit (read_b32 mem p) (24 + r) = bit (mem p) r"
  using assms bit_bytes [OF assms]
  by (simp_all add: read_b32_def bit_or_iff bit_push_bit_iff bit_unsigned_iff)

lemma byte_masks:
  "(0xFF :: u32) = mask 8" "(0xFF00 :: u32) = push_bit 8 (mask 8)"
  "(0xFF0000 :: u32) = push_bit 16 (mask 8)" "(0xFF000000 :: u32) = push_bit 24 (mask 8)"
  by (simp_all add: mask_eq_decr_exp push_bit_eq_mult)

lemma bit_bswap32:
  assumes "r < 8"
  shows "bit (bswap32 w) r = bit w (24 + r)" "bit (bswap32 w) (8 + r) = bit w (16 + r)"
    "bit (bswap32 w) (16 + r) = bit w (8 + r)" "bit (bswap32 w) (24 + r) = bit w r"
  using assms bit_imp_le_length [of w "24 + r"] bit_imp_le_length [of w "32 + r"]
  unfolding bswap32_def byte_masks
  by (simp_all add: bit_or_iff bit_and_iff bit_push_bit_iff bit_drop_bit_eq bit_mask_iff)

lemma bswap_load32: "bswap32 (load32 mem p) = read_b32 mem p"
proof (rule bit_word_eqI)
  fix n
  assume "n < LENGTH(32)"
  then consider "n < 8" | "8 \<le> n" "n < 16" | "16 \<le> n" "n < 24" | "24 \<le> n" "n < 32" by fastforce
  then obtain r where "r < 8" and "n = r \<or> n = 8 + r \<or> n = 16 + r \<or> n = 24 + r"
    by cases (auto intro: that [of n] that [of "n - 8"] that [of "n - 16"] that [of "n - 24"])
  then show "bit (bswap32 (load32 mem p)) n \<longleftrightarrow> bit (read_b32 mem p) n"
    by (auto simp: bit_bswap32 bit_load32 bit_read_b32)
qed

lemma ram_regs_sum:
  assumes "bytes_at mem p v" and "16 * (i + n) \<le> length v"
  shows "ram_regs mem (p + of_nat (16 * i)) n tot = tot + (\<Sum>j \<leftarrow> [i..<i + n]. be64 v (16 * j + 8))"
  using assms(2)
proof (induction n arbitrary: i tot)
  case 0
  then show ?case by simp
next
  case (Suc n)
  have len: "16 * i + 8 + 4 \<le> length v" "16 * i + 12 + 4 \<le> length v" using Suc.prems by simp_all
  have sz: "push_bit 32 (ucast (read_b32 mem (p + of_nat (16 * i) + 8))) OR
      ucast (read_b32 mem (p + of_nat (16 * i) + 12)) = be64 v (16 * i + 8)"
    unfolding read_b32_cells(3) [OF assms(1) len(1)] read_b32_cells(4) [OF assms(1) len(2)] be64_def
    by (simp add: add.commute)
  have "p + of_nat (16 * i) + 16 = p + of_nat (16 * Suc i)" by (simp add: algebra_simps)
  then have "ram_regs mem (p + of_nat (16 * i)) (Suc n) tot =
      ram_regs mem (p + of_nat (16 * Suc i)) n (tot + be64 v (16 * i + 8))"
    by (simp only: ram_regs.simps Let_def sz)
  also have "\<dots> = tot + be64 v (16 * i + 8) + (\<Sum>j \<leftarrow> [Suc i..<Suc i + n]. be64 v (16 * j + 8))"
    using Suc.prems by (intro Suc.IH) simp
  finally show ?case
    using upt_conv_Cons [of i "i + Suc n"] by (simp add: add.assoc)
qed

section \<open>The loops follow the token sequence\<close>

lemma token_loop_Inl: "body s = Some (Inl s') \<Longrightarrow> token_loop body s = token_loop body s'"
  by (subst token_loop.simps) simp

lemma token_loop_Inr: "body s = Some (Inr r) \<Longrightarrow> token_loop body s = Some r"
  by (subst token_loop.simps) simp

lemma tokens_distinct [simp]:
  "TOKEN_BEGIN_NODE \<noteq> TOKEN_PROP" "TOKEN_BEGIN_NODE \<noteq> TOKEN_END_NODE" "TOKEN_BEGIN_NODE \<noteq> TOKEN_NOP"
  "TOKEN_BEGIN_NODE \<noteq> TOKEN_END" "TOKEN_PROP \<noteq> TOKEN_BEGIN_NODE" "TOKEN_PROP \<noteq> TOKEN_END_NODE"
  "TOKEN_PROP \<noteq> TOKEN_NOP" "TOKEN_PROP \<noteq> TOKEN_END" "TOKEN_END_NODE \<noteq> TOKEN_BEGIN_NODE"
  "TOKEN_END_NODE \<noteq> TOKEN_PROP" "TOKEN_END_NODE \<noteq> TOKEN_NOP" "TOKEN_END_NODE \<noteq> TOKEN_END"
  "TOKEN_NOP \<noteq> TOKEN_BEGIN_NODE" "TOKEN_NOP \<noteq> TOKEN_PROP" "TOKEN_NOP \<noteq> TOKEN_END_NODE"
  "TOKEN_NOP \<noteq> TOKEN_END" "TOKEN_END \<noteq> TOKEN_BEGIN_NODE" "TOKEN_END \<noteq> TOKEN_PROP"
  "TOKEN_END \<noteq> TOKEN_END_NODE" "TOKEN_END \<noteq> TOKEN_NOP"
  by (simp_all add: TOKEN_BEGIN_NODE_def TOKEN_END_NODE_def TOKEN_PROP_def TOKEN_NOP_def TOKEN_END_def)

text \<open>The tests of node names.\<close>

lemma cstring_char:
  assumes "cstring mem p nm" and "i \<le> length nm"
  shows "mem (p + of_nat i) = c \<and> c \<noteq> 0 \<longleftrightarrow> i < length nm \<and> nm ! i = c \<and> c \<noteq> 0"
  using cstring_nth [OF assms] by auto

lemma memory_name:
  assumes "cstring mem p nm" and "ram_item_ok (BeginNode nm)"
  shows "(if mem p = 0 then False
          else if mem p = 109 \<and> mem (p + 1) = 101 \<and> mem (p + 5) = 121 then True else False)
    \<longleftrightarrow> memory_node nm"
proof (cases "length nm < 2")
  case True
  then have "nm = [] \<or> (\<exists>c. nm = [c])" by (cases nm) auto
  then show ?thesis using assms(1) by (auto simp: memory_node_def)
next
  case False
  then obtain a b cs where nm: "nm = a # b # cs"
    by (cases nm; cases "tl nm") auto
  have ab: "mem p = a" "mem (p + 1) = b" "a \<noteq> 0" using assms(1) nm by auto
  show ?thesis
  proof (cases "a = 109 \<and> b = 101")
    case False
    then show ?thesis using ab nm by (auto simp: memory_node_def)
  next
    case True
    then have "5 \<le> length nm" using assms(2) nm by simp
    then have "mem (p + 5) = 121 \<longleftrightarrow> 5 < length nm \<and> nm ! 5 = 121"
      using cstring_char [OF assms(1), of 5 121] by simp
    then show ?thesis using True ab nm by (auto simp: memory_node_def)
  qed
qed

lemma virtio_name:
  assumes "cstring mem p nm"
  shows "(if mem p = 0 then False
          else if mem p = 118 \<and> mem (p + 1) = 105 \<and> mem (p + 2) = 114 then True else False)
    \<longleftrightarrow> virtio_node nm"
  using assms
  by (cases nm; cases "tl nm"; cases "tl (tl nm)") (auto simp: virtio_node_def add.assoc)

lemma length_of_nat: "length v < 2 ^ 32 \<Longrightarrow> unat (of_nat (length v) :: u32) = length v"
  by (simp add: unat_of_nat)

lemma ucast_length: "length v < 2 ^ 32 \<Longrightarrow> (ucast (of_nat (length v) :: u32) :: u64) = of_nat (length v)"
  by (simp add: word_unat_eq_iff unsigned_ucast_eq unat_of_nat take_bit_nat_eq_self)

text \<open>The step at a property, in both scans.\<close>

lemma ram_token_prop:
  assumes "read_b32 mem p = TOKEN_PROP" and "length v < 2 ^ 32" and "read_b32 mem (p + 4) = of_nat (length v)"
    and "read_b32 mem (p + 8) = off" and "bytes_at mem (p + 12) v"
  shows "ram_token mem ds (p, inside) =
    (if inside \<and> names_reg mem ds off then Some (Inr (\<Sum>i \<leftarrow> [0..<length v div 16]. be64 v (16 * i + 8)))
     else Some (Inl (align4 (p + 12 + of_nat (length v)), inside)))"
proof -
  have "ram_token mem ds (p, inside) =
      (if inside \<and> names_reg mem ds off then
         (if of_nat (length v) \<le> (0 :: u32) then Some (Inr 0)
          else Some (Inr (ram_regs mem (p + 12) (unat (of_nat (length v) div 16 :: u32)) 0)))
       else Some (Inl (align4 (p + 12 + of_nat (length v)), inside)))"
    using assms(1,3,4) ucast_length [OF assms(2)] by (simp add: ram_token_def names_reg_def Let_def add.assoc)
  moreover have "ram_regs mem (p + 12) (length v div 16) 0 = (\<Sum>i \<leftarrow> [0..<length v div 16]. be64 v (16 * i + 8))"
    using ram_regs_sum [OF assms(5), of 0 "length v div 16" 0] by simp
  moreover have "unat (of_nat (length v) div 16 :: u32) = length v div 16"
    using length_of_nat [OF assms(2)] by (simp add: unat_div)
  moreover have "length v = 0" if "of_nat (length v) \<le> (0 :: u32)"
    using that length_of_nat [OF assms(2)] by (simp add: word_le_nat_alt)
  ultimately show ?thesis by auto
qed

lemma drive_token_prop:
  assumes "read_b32 mem p = TOKEN_PROP" and "length v < 2 ^ 32" and "read_b32 mem (p + 4) = of_nat (length v)"
    and "read_b32 mem (p + 8) = off" and "bytes_at mem (p + 12) v"
    and "names_reg mem ds off \<Longrightarrow> 16 \<le> length v" and "names_int mem ds off \<Longrightarrow> 12 \<le> length v"
  shows "drive_token mem ds (p, inside, result) =
    (if inside \<and> names_reg mem ds off then Some (Inr (result(0 := be64 v 0, 1 := be64 v 8)))
     else Some (Inl (align4 (p + 12 + of_nat (length v)), inside,
       if inside \<and> names_int mem ds off
       then result(2 := ucast (be32 v 0), 3 := ucast (be32 v 4), 4 := ucast (be32 v 8)) else result)))"
proof -
  let ?q = "p + 12"
  have le: "of_nat (length v) \<le> (0 :: u32) \<longleftrightarrow> length v = 0"
    using length_of_nat [OF assms(2)] by (simp add: word_le_nat_alt)
  have tk: "drive_token mem ds (p, inside, result) =
      (if inside \<and> names_reg mem ds off then
         (if length v = 0 then Some (Inl (?q, inside, result)) else Some (Inr (drive_reg mem ?q result)))
       else if inside \<and> names_int mem ds off then
         (if length v = 0 then Some (Inl (?q, inside, result))
          else Some (Inl (align4 (?q + of_nat (length v)), inside, drive_interrupts mem ?q result)))
       else Some (Inl (align4 (?q + of_nat (length v)), inside, result)))"
    using assms(1,3,4) ucast_length [OF assms(2)] le
    by (simp add: drive_token_def names_reg_def names_int_def Let_def add.assoc)
  note cells = read_b32_cells [OF assms(5), of 0, unfolded semiring_1_class.of_nat_0 add_0_right add_0]
  have "drive_reg mem ?q result = result(0 := be64 v 0, 1 := be64 v 8)" if "16 \<le> length v"
    using cells that by (simp add: drive_reg_def Let_def be64_def)
  moreover have "drive_interrupts mem ?q result =
      result(2 := ucast (be32 v 0), 3 := ucast (be32 v 4), 4 := ucast (be32 v 8))" if "12 \<le> length v"
    using cells that by (simp add: drive_interrupts_def Let_def)
  ultimately show ?thesis using tk assms(6,7) by auto
qed

lemma ram_loop_items:
  assumes "fdt_at mem p its" and "\<forall>it \<in> set its. ram_item_ok it"
  shows "token_loop (ram_token mem ds) (p, inside) = Some (ram_spec (names_reg mem ds) inside its)"
  using assms
proof (induction its arbitrary: p inside)
  case Nil
  then show ?case by (intro token_loop_Inr) (simp add: ram_token_def)
next
  case (Cons it its)
  show ?case
  proof (cases it)
    case (BeginNode nm)
    then have c: "cstring mem (p + 4) nm" "read_b32 mem p = TOKEN_BEGIN_NODE" "ram_item_ok (BeginNode nm)"
      "fdt_at mem (align4 (p + 4 + of_nat (length nm) + 1)) its"
      using Cons.prems by auto
    have "ram_token mem ds (p, inside) =
        Some (Inl (align4 (p + 4 + of_nat (length nm) + 1), memory_node nm))"
      unfolding ram_token_def prod.case Let_def c(2) memory_name [OF c(1,3)]
      by (simp add: skip_string_cstring [OF c(1)])
    then show ?thesis
      using Cons.IH [OF c(4), of "memory_node nm"] Cons.prems(2) BeginNode by (simp add: token_loop_Inl)
  next
    case EndNode
    then have "ram_token mem ds (p, inside) = Some (Inl (p + 4, False))"
      using Cons.prems(1) by (simp add: ram_token_def)
    then show ?thesis using Cons EndNode by (simp add: token_loop_Inl)
  next
    case NopItem
    then have "ram_token mem ds (p, inside) = Some (Inl (p + 4, inside))"
      using Cons.prems(1) by (simp add: ram_token_def)
    then show ?thesis using Cons NopItem by (simp add: token_loop_Inl)
  next
    case (PropItem off v)
    then have c: "read_b32 mem p = TOKEN_PROP" "length v < 2 ^ 32" "read_b32 mem (p + 4) = of_nat (length v)"
      "read_b32 mem (p + 8) = off" "bytes_at mem (p + 12) v" "fdt_at mem (align4 (p + 12 + of_nat (length v))) its"
      using Cons.prems by auto
    note tk = ram_token_prop [OF c(1-5), of ds inside]
    show ?thesis
    proof (cases "inside \<and> names_reg mem ds off")
      case True
      then show ?thesis using tk PropItem by (simp add: token_loop_Inr)
    next
      case False
      then show ?thesis
        using tk Cons.IH [OF c(6), of inside] Cons.prems(2) PropItem by (auto simp: token_loop_Inl)
    qed
  qed
qed


lemma drive_loop_items:
  assumes "fdt_at mem p its"
    and "\<forall>it \<in> set its. drive_item_ok (names_reg mem ds) (names_int mem ds) it"
  shows "token_loop (drive_token mem ds) (p, inside, result) =
    Some (drive_spec (names_reg mem ds) (names_int mem ds) inside result its)"
  using assms
proof (induction its arbitrary: p inside result)
  case Nil
  then show ?case by (intro token_loop_Inr) (simp add: drive_token_def)
next
  case (Cons it its)
  show ?case
  proof (cases it)
    case (BeginNode nm)
    then have c: "cstring mem (p + 4) nm" "read_b32 mem p = TOKEN_BEGIN_NODE"
      "fdt_at mem (align4 (p + 4 + of_nat (length nm) + 1)) its"
      using Cons.prems by auto
    have "mem (p + 4 + of_nat (length nm)) = 0" using cstring_nth [OF c(1), of "length nm"] by simp
    then have "drive_token mem ds (p, inside, result) =
        Some (Inl (align4 (p + 4 + of_nat (length nm) + 1), virtio_node nm, result))"
      unfolding drive_token_def prod.case Let_def c(2) virtio_name [OF c(1)]
      by (simp add: skip_string_cstring [OF c(1)])
    then show ?thesis
      using Cons.IH [OF c(3)] Cons.prems(2) BeginNode by (simp add: token_loop_Inl)
  next
    case EndNode
    then have "drive_token mem ds (p, inside, result) = Some (Inl (p + 4, False, result))"
      using Cons.prems(1) by (simp add: drive_token_def)
    then show ?thesis using Cons EndNode by (simp add: token_loop_Inl)
  next
    case NopItem
    then have "drive_token mem ds (p, inside, result) = Some (Inl (p + 4, inside, result))"
      using Cons.prems(1) by (simp add: drive_token_def)
    then show ?thesis using Cons NopItem by (simp add: token_loop_Inl)
  next
    case (PropItem off v)
    then have c: "read_b32 mem p = TOKEN_PROP" "length v < 2 ^ 32" "read_b32 mem (p + 4) = of_nat (length v)"
      "read_b32 mem (p + 8) = off" "bytes_at mem (p + 12) v" "fdt_at mem (align4 (p + 12 + of_nat (length v))) its"
      and vl: "names_reg mem ds off \<Longrightarrow> 16 \<le> length v" "names_int mem ds off \<Longrightarrow> 12 \<le> length v"
      using Cons.prems by auto
    note tk = drive_token_prop [OF c(1-5) vl, where inside = inside and result = result]
    show ?thesis
    proof (cases "inside \<and> names_reg mem ds off")
      case True
      then show ?thesis using tk PropItem by (simp add: token_loop_Inr fun_upd_def)
    next
      case False
      then show ?thesis
        using tk Cons.IH [OF c(6)] Cons.prems(2) PropItem by (auto simp: token_loop_Inl)
    qed
  qed
qed

section \<open>Properties\<close>

text \<open>
  C16. \<open>get_total_ram\<close> returns, and computes the size of the memory: for a blob at \<open>DTB_BASE\<close> whose
  header leads to the encoding of a token sequence, the result is the sum of the sizes of all
  entries of the first reg property of a memory node, or 0 when there is none.
\<close>

theorem get_total_ram_correct:
  assumes "fdt_at mem (ucast (0x40000000 + read_b32 mem 0x40000008)) its"
    and "\<forall>it \<in> set its. ram_item_ok it"
  shows "get_total_ram mem =
    Some (ram_spec (names_reg mem (ucast (0x40000000 + read_b32 mem 0x4000000C))) False its)"
  using ram_loop_items [OF assms]
  by (simp add: get_total_ram_def dtb_off_dt_struct_def dtb_off_dt_strings_def bswap_load32 Let_def)

text \<open>
  \<open>get_drive_info\<close> returns, with the address, the size and the interrupt of the first virtio
  node: the entries of the result array are those of the first reg property inside a node whose
  name begins with vir, and of the interrupts properties inside such nodes before it; when there
  is none the array is unchanged.
\<close>

lemma get_drive_info_correct:
  fixes mem :: "u64 \<Rightarrow> u8"
  defines "ds \<equiv> 0xffff000085400000 + ucast (read_b32 mem 0xffff00008540000C)"
  assumes "fdt_at mem (0xffff000085400000 + ucast (read_b32 mem 0xffff000085400008)) its"
    and "\<forall>it \<in> set its. drive_item_ok (names_reg mem ds) (names_int mem ds) it"
  shows "get_drive_info mem result =
    Some (drive_spec (names_reg mem ds) (names_int mem ds) False result its)"
  using drive_loop_items [OF assms(2,3)]
  by (simp add: get_drive_info_def dtb_off_dt_struct_def dtb_off_dt_strings_def bswap_load32 Let_def ds_def)


text \<open>Two small blobs: a memory node and a virtio node with their properties.\<close>

definition mem_of :: "u64 \<Rightarrow> u8 list \<Rightarrow> u64 \<Rightarrow> u8" where
  "mem_of base bytes a = (let i = unat (a - base) in if i < length bytes then bytes ! i else 0)"

definition memory_blob :: "u8 list" where
  "memory_blob =
    [208, 13, 254, 237, 0, 0, 0, 0, 0, 0, 0, 16, 0, 0, 0, 60, 0, 0, 0, 1, 109, 101, 109, 111,
     114, 121, 0, 0, 0, 0, 0, 3, 0, 0, 0, 16, 0, 0, 0, 0, 0, 0, 0, 0, 64, 0, 0, 0, 0, 0, 0, 1,
     32, 0, 0, 0, 0, 0, 0, 9, 114, 101, 103, 0]"

definition virtio_blob :: "u8 list" where
  "virtio_blob =
    [208, 13, 254, 237, 0, 0, 0, 0, 0, 0, 0, 16, 0, 0, 0, 84, 0, 0, 0, 1, 118, 105, 114, 116,
     105, 111, 0, 0, 0, 0, 0, 3, 0, 0, 0, 12, 0, 0, 0, 0, 0, 0, 0, 0, 0, 0, 0, 16, 0, 0, 0, 1,
     0, 0, 0, 3, 0, 0, 0, 16, 0, 0, 0, 4, 0, 0, 0, 0, 10, 0, 0, 0, 0, 0, 0, 0, 0, 0, 2, 0, 0,
     0, 0, 9, 105, 110, 116, 0, 114, 101, 103, 0]"

theorem get_total_ram_correct_witness:
  "get_total_ram (mem_of 0x40000000 memory_blob) = Some 0x120000000"
proof -
  let ?m = "mem_of 0x40000000 memory_blob"
  let ?v = "[0, 0, 0, 0, 64, 0, 0, 0, 0, 0, 0, 1, 32, 0, 0, 0] :: u8 list"
  have "fdt_at ?m (ucast (0x40000000 + read_b32 ?m 0x40000008))
      [BeginNode [109, 101, 109, 111, 114, 121], PropItem 0 ?v]"
    by (simp add: read_b32_def mem_of_def memory_blob_def align4.simps
        TOKEN_BEGIN_NODE_def TOKEN_PROP_def TOKEN_END_def)
  then show ?thesis
    using get_total_ram_correct [of ?m "[BeginNode [109, 101, 109, 111, 114, 121], PropItem 0 ?v]"]
    by (simp add: memory_node_def names_reg_def read_b32_def mem_of_def memory_blob_def be64_def be32_def)
qed


lemma get_drive_info_correct_witness:
  "\<exists>r. get_drive_info (mem_of 0xffff000085400000 virtio_blob) (\<lambda>_. 0) = Some r \<and>
     r 0 = 0x0a000000 \<and> r 1 = 0x200 \<and> r 3 = 16"
proof -
  let ?m = "mem_of 0xffff000085400000 virtio_blob"
  let ?i = "PropItem 0 [0, 0, 0, 0, 0, 0, 0, 16, 0, 0, 0, 1]"
  let ?r = "PropItem 4 [0, 0, 0, 0, 10, 0, 0, 0, 0, 0, 0, 0, 0, 0, 2, 0]"
  let ?its = "[BeginNode [118, 105, 114, 116, 105, 111], ?i, ?r]"
  have "fdt_at ?m (0xffff000085400000 + ucast (read_b32 ?m 0xffff000085400008)) ?its"
    by (simp add: read_b32_def mem_of_def virtio_blob_def align4.simps
        TOKEN_BEGIN_NODE_def TOKEN_PROP_def TOKEN_END_def)
  then show ?thesis
    using get_drive_info_correct [of ?m ?its "\<lambda>_. 0"]
    by (simp add: virtio_node_def names_reg_def names_int_def read_b32_def mem_of_def virtio_blob_def
        be64_def be32_def)
qed

end
