(* ===== verification/VirtioBlk.thy ===== *)
theory VirtioBlk
  imports Mmio
begin

text \<open>
  The virtio transport of \<^verbatim>\<open>kernel/drivers/virtio_blk/virtio_blk.c\<close> and the structures of
  \<^verbatim>\<open>virtio_blk.h\<close>.  The state is the bus history, the device a parameter.  The memory barriers
  order accesses that the model orders anyway.  \<open>virtio_device\<close> states what the specification of
  the transport promises of the status register.
\<close>

section \<open>Constants and structures\<close>

definition VIRTIO_MAGIC_VALUE :: u32 where "VIRTIO_MAGIC_VALUE = 0x000"
definition VIRTIO_VERSION :: u32 where "VIRTIO_VERSION = 0x004"
definition VIRTIO_DEVICEID :: u32 where "VIRTIO_DEVICEID = 0x008"
definition VIRTIO_STATUS :: u32 where "VIRTIO_STATUS = 0x070"
definition VIRTIO_QueueSel :: u32 where "VIRTIO_QueueSel = 0x030"
definition VIRTIO_QueueNumMax :: u32 where "VIRTIO_QueueNumMax = 0x034"
definition VIRTIO_QueueNum :: u32 where "VIRTIO_QueueNum = 0x038"
definition VIRTIO_QueueReady :: u32 where "VIRTIO_QueueReady = 0x044"
definition VIRTIO_QueueNotify :: u32 where "VIRTIO_QueueNotify = 0x050"
definition VIRTIO_QueueDescLow :: u32 where "VIRTIO_QueueDescLow = 0x080"
definition VIRTIO_QueueDescHigh :: u32 where "VIRTIO_QueueDescHigh = 0x084"
definition VIRTIO_QueueAvailLow :: u32 where "VIRTIO_QueueAvailLow = 0x090"
definition VIRTIO_QueueAvailHigh :: u32 where "VIRTIO_QueueAvailHigh = 0x094"
definition VIRTIO_QueueUsedLow :: u32 where "VIRTIO_QueueUsedLow = 0x0a0"
definition VIRTIO_QueueUsedHigh :: u32 where "VIRTIO_QueueUsedHigh = 0x0a4"
definition VIRTIO_DeviceFeatures :: u32 where "VIRTIO_DeviceFeatures = 0x010"
definition VIRTIO_DeviceFeaturesSel :: u32 where "VIRTIO_DeviceFeaturesSel = 0x014"
definition VIRTIO_DriverFeatures :: u32 where "VIRTIO_DriverFeatures = 0x020"
definition VIRTIO_DriverFeaturesSel :: u32 where "VIRTIO_DriverFeaturesSel = 0x024"

lemmas virtio_registers =
  VIRTIO_MAGIC_VALUE_def VIRTIO_VERSION_def VIRTIO_DEVICEID_def VIRTIO_STATUS_def VIRTIO_QueueSel_def
  VIRTIO_QueueNumMax_def VIRTIO_QueueNum_def VIRTIO_QueueReady_def VIRTIO_QueueNotify_def
  VIRTIO_QueueDescLow_def VIRTIO_QueueDescHigh_def VIRTIO_QueueAvailLow_def VIRTIO_QueueAvailHigh_def
  VIRTIO_QueueUsedLow_def VIRTIO_QueueUsedHigh_def VIRTIO_DeviceFeatures_def VIRTIO_DeviceFeaturesSel_def
  VIRTIO_DriverFeatures_def VIRTIO_DriverFeaturesSel_def

definition VIRTIO_STATUS_ACK :: u32 where "VIRTIO_STATUS_ACK = 1"
definition VIRTIO_STATUS_RESET :: u32 where "VIRTIO_STATUS_RESET = 0"
definition VIRTIO_STATUS_DRIVER :: u32 where "VIRTIO_STATUS_DRIVER = 2"
definition VIRTIO_STATUS_DRIVER_OK :: u32 where "VIRTIO_STATUS_DRIVER_OK = 4"
definition VIRTIO_STATUS_FEATURES_OK :: u32 where "VIRTIO_STATUS_FEATURES_OK = 8"

lemmas virtio_status_bits =
  VIRTIO_STATUS_ACK_def VIRTIO_STATUS_RESET_def VIRTIO_STATUS_DRIVER_def VIRTIO_STATUS_DRIVER_OK_def
  VIRTIO_STATUS_FEATURES_OK_def

definition VIRTIO_BLK_T_IN :: u32 where "VIRTIO_BLK_T_IN = 0"
definition VIRTIO_BLK_T_OUT :: u32 where "VIRTIO_BLK_T_OUT = 1"
definition VIRTIO_DESC_F_WRITE :: u16 where "VIRTIO_DESC_F_WRITE = 2"
definition VIRTIO_DESC_F_NEXT :: u16 where "VIRTIO_DESC_F_NEXT = 1"

record virtio_blk_req =
  req_type :: u32
  req_reserved :: u32
  req_sector :: u64

record virtq_dec =
  desc_addr :: u64
  desc_len :: u32
  desc_flags :: u16
  desc_next :: u16

text \<open>
  \<open>avail_ring n\<close> for \<open>n\<close> from 12 on is the memory behind the array: \<open>used_event\<close> and what follows it.
\<close>

record virtq_avail =
  avail_flags :: u16
  avail_idx :: u16
  avail_ring :: "nat \<Rightarrow> u16"

record virtq_used_elem =
  elem_id :: u32
  elem_len :: u32

record virtq_used =
  used_flags :: u16
  used_idx :: u16
  used_ring :: "nat \<Rightarrow> virtq_used_elem"

record virtio =
  virtio_base :: u64
  virtual_virtq_desc :: u64
  virtual_virtq_avail :: u64
  virtual_virtq_used :: u64
  physical_virtq_desc :: u64
  physical_virtq_avail :: u64
  physical_virtq_used :: u64

section \<open>Register access\<close>

definition write_u32 :: "virtio \<Rightarrow> u32 \<Rightarrow> u32 \<Rightarrow> bus \<Rightarrow> bus" where
  "write_u32 v offset val h = bus_write (virtio_base v + ucast offset) val h"

definition read_u32 :: "device \<Rightarrow> virtio \<Rightarrow> u32 \<Rightarrow> bus \<Rightarrow> u32 \<times> bus" where
  "read_u32 dev v offset h = bus_read dev (virtio_base v + ucast offset) h"

definition update_status :: "virtio \<Rightarrow> u32 \<Rightarrow> bus \<Rightarrow> bus" where
  "update_status v status h = write_u32 v VIRTIO_STATUS status h"

definition get_lower_half :: "u64 \<Rightarrow> u32" where
  "get_lower_half val = ucast (val AND 0x00000000ffffffff)"

definition get_upper_half :: "u64 \<Rightarrow> u32" where
  "get_upper_half val = (let temp = val AND 0xffffffff00000000 in ucast (drop_bit 32 temp))"

section \<open>The queue\<close>

definition init_virtio_registers :: "virtio \<Rightarrow> bus \<Rightarrow> bus" where
  "init_virtio_registers v h =
    (let h = write_u32 v VIRTIO_QueueDescLow (get_lower_half (physical_virtq_desc v)) h;
         h = write_u32 v VIRTIO_QueueDescHigh (get_upper_half (physical_virtq_desc v)) h;
         h = write_u32 v VIRTIO_QueueAvailLow (get_lower_half (physical_virtq_avail v)) h;
         h = write_u32 v VIRTIO_QueueAvailHigh (get_upper_half (physical_virtq_avail v)) h;
         h = write_u32 v VIRTIO_QueueUsedLow (get_lower_half (physical_virtq_used v)) h
     in write_u32 v VIRTIO_QueueUsedHigh (get_upper_half (physical_virtq_used v)) h)"

definition init_queue :: "device \<Rightarrow> virtio \<Rightarrow> bus \<Rightarrow> bus" where
  "init_queue dev v h =
    (let h = write_u32 v VIRTIO_QueueSel 0 h;
         (ready_status, h) = read_u32 dev v VIRTIO_QueueReady h;
         (device_version, h) = read_u32 dev v VIRTIO_VERSION h;
         (device_id, h) = read_u32 dev v VIRTIO_DEVICEID h;
         (device_features, h) = read_u32 dev v VIRTIO_DeviceFeatures h
     in if ready_status \<noteq> 0 then h
     else
       let (queue_max_size, h) = read_u32 dev v VIRTIO_QueueNumMax h
       in if queue_max_size = 0 then h
       else
         let h = write_u32 v VIRTIO_QueueNum 12 h;
             h = init_virtio_registers v h
         in write_u32 v VIRTIO_QueueReady 1 h)"

definition check_virtio_driver :: "device \<Rightarrow> virtio \<Rightarrow> bus \<Rightarrow> u32 \<times> bus" where
  "check_virtio_driver dev v h =
    (let (magic_value, h) = read_u32 dev v VIRTIO_MAGIC_VALUE h;
         (device_version, h) = read_u32 dev v VIRTIO_VERSION h;
         (device_id, h) = read_u32 dev v VIRTIO_DEVICEID h
     in if magic_value = 0x74726976 \<and> device_version = 2 \<and> device_id \<noteq> 0 then (1, h) else (0, h))"

section \<open>init_virtio_driver\<close>

text \<open>The part before the queue is set up: status, features, and the acceptance of the features.\<close>

definition negotiate :: "device \<Rightarrow> virtio \<Rightarrow> bus \<Rightarrow> bus" where
  "negotiate dev v h =
    (let h = update_status v VIRTIO_STATUS_RESET h;
         h = update_status v VIRTIO_STATUS_ACK h;
         h = update_status v (VIRTIO_STATUS_ACK OR VIRTIO_STATUS_DRIVER) h;
         (_, h) = read_u32 dev v VIRTIO_STATUS h;
         h = write_u32 v VIRTIO_DeviceFeaturesSel 0 h;
         (device_features_sel_zero, h) = read_u32 dev v VIRTIO_DeviceFeatures h;
         h = write_u32 v VIRTIO_DeviceFeaturesSel 1 h;
         (device_features_sel_one, h) = read_u32 dev v VIRTIO_DeviceFeatures h;
         h = write_u32 v VIRTIO_DriverFeaturesSel 0 h;
         h = write_u32 v VIRTIO_DriverFeatures device_features_sel_zero h;
         h = write_u32 v VIRTIO_DriverFeaturesSel 1 h;
         h = write_u32 v VIRTIO_DriverFeatures (push_bit 0 1) h;
         h = write_u32 v VIRTIO_DeviceFeaturesSel 0 h;
         (_, h) = read_u32 dev v VIRTIO_DeviceFeatures h;
         h = write_u32 v VIRTIO_DeviceFeaturesSel 1 h;
         (_, h) = read_u32 dev v VIRTIO_DeviceFeatures h;
         (_, h) = read_u32 dev v VIRTIO_STATUS h;
         (status, h) = read_u32 dev v VIRTIO_STATUS h;
         h = update_status v (status OR VIRTIO_STATUS_FEATURES_OK) h
     in snd (read_u32 dev v VIRTIO_STATUS h))"

definition init_virtio_driver :: "device \<Rightarrow> virtio \<Rightarrow> bus \<Rightarrow> bus" where
  "init_virtio_driver dev v h =
    (let h = negotiate dev v h;
         h = init_queue dev v h;
         (status, h) = read_u32 dev v VIRTIO_STATUS h
     in update_status v (status OR VIRTIO_STATUS_DRIVER_OK) h)"

section \<open>What the device promises\<close>

text \<open>
  A read of the status register returns the value last written to it, and nothing else is
  assumed of the device.
\<close>

definition virtio_device :: "device \<Rightarrow> virtio \<Rightarrow> bool" where
  "virtio_device dev v \<longleftrightarrow>
     (\<forall>h s. last_written (virtio_base v + ucast VIRTIO_STATUS) h = Some s \<longrightarrow>
        dev h (virtio_base v + ucast VIRTIO_STATUS) = s)"

section \<open>Histories of the driver\<close>

lemma halves_join:
  "push_bit 32 (ucast (get_upper_half a)) OR ucast (get_lower_half a) = a"
proof -
  have m: "(0xffffffff :: u64) = mask 32" "(0xffffffff00000000 :: u64) = push_bit 32 (mask 32)"
    by (simp_all add: mask_eq_decr_exp push_bit_eq_mult)
  show ?thesis
    unfolding get_upper_half_def get_lower_half_def Let_def m
    by (intro bit_word_eqI) (auto simp: bit_simps)
qed

lemma last_written_u32 [bus_simps]:
  "last_written (virtio_base v + ucast r) (write_u32 v r' val h) =
     (if r = r' then Some val else last_written (virtio_base v + ucast r) h)"
proof -
  have "(ucast r = (ucast r' :: u64)) \<longleftrightarrow> r = r'"
    by (simp add: word_unat_eq_iff unsigned_ucast_eq take_bit_nat_eq_self unsigned_less [THEN order_less_le_trans])
  then show ?thesis by (simp add: write_u32_def bus_simps)
qed

lemma last_written_read_u32 [bus_simps]:
  "last_written a (snd (read_u32 dev v r h)) = last_written a h"
  by (simp add: read_u32_def bus_simps)

lemma read_status_last:
  assumes "virtio_device dev v" and "last_written (virtio_base v + ucast VIRTIO_STATUS) h = Some s"
  shows "fst (read_u32 dev v VIRTIO_STATUS h) = s"
  using assms by (simp add: virtio_device_def read_u32_def bus_read_def)


text \<open>The values written to a register, in order.\<close>

definition values_written :: "virtio \<Rightarrow> u32 \<Rightarrow> bus \<Rightarrow> u32 list" where
  "values_written v r h = map snd (filter (\<lambda>e. fst e = virtio_base v + ucast r) (bus_writes h))"

lemma ucast_register_eq: "(virtio_base v + ucast r = virtio_base v + (ucast r' :: u64)) \<longleftrightarrow> r = (r' :: u32)"
proof -
  have "(ucast r = (ucast r' :: u64)) \<longleftrightarrow> r = r'"
    by (simp add: word_unat_eq_iff unsigned_ucast_eq take_bit_nat_eq_self unsigned_less [THEN order_less_le_trans])
  then show ?thesis by (simp only: add_left_cancel)
qed

lemma values_written_write [bus_simps]:
  "values_written v r (write_u32 v r' val h) =
     (if r = r' then values_written v r h @ [val] else values_written v r h)"
  using ucast_register_eq [of v r' r] by (auto simp: values_written_def write_u32_def bus_simps)

lemma values_written_read [bus_simps]:
  "values_written v r (snd (read_u32 dev w r' h)) = values_written v r h"
  by (simp add: values_written_def read_u32_def bus_simps)

lemma bus_writes_u32 [bus_simps]:
  "bus_writes (write_u32 v r val h) = bus_writes h @ [(virtio_base v + ucast r, val)]"
  "bus_writes (snd (read_u32 dev v r h)) = bus_writes h"
  by (simp_all add: write_u32_def read_u32_def bus_simps)

text \<open>The device lets the queue be set up: it is not in use and has a size.\<close>

definition queue_accepts :: "device \<Rightarrow> virtio \<Rightarrow> bus \<Rightarrow> bool" where
  "queue_accepts dev v h \<longleftrightarrow>
    (let h0 = write_u32 v VIRTIO_QueueSel 0 h;
         h1 = snd (read_u32 dev v VIRTIO_QueueReady h0);
         h2 = snd (read_u32 dev v VIRTIO_VERSION h1);
         h3 = snd (read_u32 dev v VIRTIO_DEVICEID h2);
         h4 = snd (read_u32 dev v VIRTIO_DeviceFeatures h3)
     in fst (read_u32 dev v VIRTIO_QueueReady h0) = 0 \<and>
        fst (read_u32 dev v VIRTIO_QueueNumMax h4) \<noteq> 0)"

definition queue_setup :: "virtio \<Rightarrow> (u32 \<times> u32) list" where
  "queue_setup v =
    [(VIRTIO_QueueNum, 12),
     (VIRTIO_QueueDescLow, get_lower_half (physical_virtq_desc v)),
     (VIRTIO_QueueDescHigh, get_upper_half (physical_virtq_desc v)),
     (VIRTIO_QueueAvailLow, get_lower_half (physical_virtq_avail v)),
     (VIRTIO_QueueAvailHigh, get_upper_half (physical_virtq_avail v)),
     (VIRTIO_QueueUsedLow, get_lower_half (physical_virtq_used v)),
     (VIRTIO_QueueUsedHigh, get_upper_half (physical_virtq_used v)),
     (VIRTIO_QueueReady, 1)]"

lemma init_queue_writes:
  "bus_writes (init_queue dev v h) = bus_writes h @
     map (\<lambda>p. (virtio_base v + ucast (fst p), snd p))
       ((VIRTIO_QueueSel, 0) # (if queue_accepts dev v h then queue_setup v else []))"
proof -
  have regs: "bus_writes (init_virtio_registers v g) = bus_writes g @
      map (\<lambda>p. (virtio_base v + ucast (fst p), snd p)) (butlast (tl (queue_setup v)))" for g
    by (simp add: init_virtio_registers_def queue_setup_def Let_def bus_simps)
  show ?thesis
    unfolding init_queue_def queue_accepts_def Let_def split_beta
    by (cases "fst (read_u32 dev v VIRTIO_QueueReady (write_u32 v VIRTIO_QueueSel 0 h)) = 0")
      (simp_all add: bus_simps regs queue_setup_def)
qed

lemma values_written_init_queue:
  "values_written v r (init_queue dev v h) = values_written v r h @
     map snd (filter (\<lambda>e. fst e = r)
       ((VIRTIO_QueueSel, 0) # (if queue_accepts dev v h then queue_setup v else [])))"
proof -
  have "filter (\<lambda>e. fst e = virtio_base v + ucast r) (map (\<lambda>p. (virtio_base v + ucast (fst p), snd p)) rs) =
      map (\<lambda>p. (virtio_base v + ucast (fst p), snd p)) (filter (\<lambda>e. fst e = r) rs)" for rs :: "(u32 \<times> u32) list"
    by (induction rs) (simp_all only: list.map filter.simps fst_conv ucast_register_eq if_distrib [of "map _"])
  then have "values_written v r (init_queue dev v h) = values_written v r h @
      map snd (map (\<lambda>p. (virtio_base v + ucast (fst p), snd p)) (filter (\<lambda>e. fst e = r)
       ((VIRTIO_QueueSel, 0) # (if queue_accepts dev v h then queue_setup v else []))))"
    by (simp only: values_written_def init_queue_writes filter_append map_append)
  then show ?thesis by (simp only: map_map o_def snd_conv)
qed

lemma last_written_values:
  "last_written (virtio_base v + ucast r) h =
     (if values_written v r h = [] then None else Some (last (values_written v r h)))"
proof -
  have "map_of (rev ps) a = (if filter (\<lambda>e. fst e = a) ps = [] then None
      else Some (last (map snd (filter (\<lambda>e. fst e = a) ps))))" for ps :: "(u64 \<times> u32) list" and a
    by (induction ps rule: rev_induct) auto
  then show ?thesis by (simp add: last_written_def values_written_def)
qed

text \<open>Negotiation writes the status bits one after the other.\<close>

lemma negotiate_status:
  assumes "virtio_device dev v"
  shows "values_written v VIRTIO_STATUS (negotiate dev v h) = values_written v VIRTIO_STATUS h @ [0, 1, 3, 11]"
proof -
  have r: "fst (read_u32 dev v VIRTIO_STATUS g) = 3"
    if "values_written v VIRTIO_STATUS g = values_written v VIRTIO_STATUS h @ [0, 1, 3]" for g
    using read_status_last [OF assms] that by (simp add: last_written_values)
  show ?thesis
    unfolding negotiate_def Let_def split_beta update_status_def
    by (subst r) (simp_all add: bus_simps virtio_registers virtio_status_bits)
qed

lemma init_queue_status [simp]:
  "values_written v VIRTIO_STATUS (init_queue dev v h) = values_written v VIRTIO_STATUS h"
  by (simp add: values_written_init_queue queue_setup_def virtio_registers)

section \<open>Properties\<close>

text \<open>
  \<open>init_virtio_driver\<close> walks the device through the initialisation states in the order of the
  specification: on a device that reads back its status, the values written to the status
  register are reset, ACK, ACK and DRIVER, then FEATURES_OK added, then DRIVER_OK added, and
  nothing else is written to it.
\<close>

lemma driver_status_sequence:
  assumes "virtio_device dev v"
  shows "values_written v VIRTIO_STATUS (init_virtio_driver dev v h) =
    values_written v VIRTIO_STATUS h @ [0, 1, 3, 11, 15]"
proof -
  let ?h = "init_queue dev v (negotiate dev v h)"
  have s: "values_written v VIRTIO_STATUS ?h = values_written v VIRTIO_STATUS h @ [0, 1, 3, 11]"
    by (simp add: negotiate_status [OF assms])
  then have "fst (read_u32 dev v VIRTIO_STATUS ?h) = 11"
    using read_status_last [OF assms] by (simp add: last_written_values)
  then show ?thesis
    using s by (simp add: init_virtio_driver_def Let_def split_beta update_status_def bus_simps virtio_status_bits)
qed

text \<open>
  The queue is made ready last: when the device accepts it, \<open>init_queue\<close> selects queue 0 and
  writes its size and the three physical addresses, whose halves join to the addresses of the
  driver's structures, and only then writes QueueReady; otherwise it writes nothing but the
  selection.
\<close>

lemma init_queue_ready_last:
  "bus_writes (init_queue dev v h) = bus_writes h @
     map (\<lambda>p. (virtio_base v + ucast (fst p), snd p))
       ((VIRTIO_QueueSel, 0) # (if queue_accepts dev v h then queue_setup v else [])) \<and>
   last (queue_setup v) = (VIRTIO_QueueReady, 1) \<and>
   push_bit 32 (ucast (get_upper_half (physical_virtq_desc v))) OR
     ucast (get_lower_half (physical_virtq_desc v)) = physical_virtq_desc v \<and>
   push_bit 32 (ucast (get_upper_half (physical_virtq_avail v))) OR
     ucast (get_lower_half (physical_virtq_avail v)) = physical_virtq_avail v \<and>
   push_bit 32 (ucast (get_upper_half (physical_virtq_used v))) OR
     ucast (get_lower_half (physical_virtq_used v)) = physical_virtq_used v"
  by (simp add: init_queue_writes halves_join) (simp add: queue_setup_def)

text \<open>
  \<open>init_virtio_driver\<close> does not notice that the queue could not be set up: when the device
  does not accept it, the driver still sets DRIVER_OK, and QueueReady is never written.
\<close>

lemma driver_ok_without_queue:
  assumes "virtio_device dev v" and "\<not> queue_accepts dev v (negotiate dev v h)"
  shows "last (values_written v VIRTIO_STATUS (init_virtio_driver dev v h)) = 15 \<and>
    values_written v VIRTIO_QueueReady (init_virtio_driver dev v h) = values_written v VIRTIO_QueueReady h"
proof -
  have "values_written v VIRTIO_STATUS (init_queue dev v (negotiate dev v h)) =
      values_written v VIRTIO_STATUS h @ [0, 1, 3, 11]"
    by (simp add: negotiate_status [OF assms(1)])
  then have "fst (read_u32 dev v VIRTIO_STATUS (init_queue dev v (negotiate dev v h))) = 11"
    using read_status_last [OF assms(1)] by (simp add: last_written_values)
  then show ?thesis
    using assms(2)
    by (simp add: init_virtio_driver_def Let_def split_beta update_status_def bus_simps virtio_status_bits
        values_written_init_queue)
      (simp add: negotiate_def Let_def split_beta update_status_def bus_simps virtio_registers)
qed

definition test_virtio :: virtio where
  "test_virtio = \<lparr>virtio_base = 0xffff000086400000, virtual_virtq_desc = 0xFFFF0000C0007000,
     virtual_virtq_avail = 0xFFFF0000C0008000, virtual_virtq_used = 0xFFFF0000C0009000,
     physical_virtq_desc = 0xC0007000, physical_virtq_avail = 0xC0008000,
     physical_virtq_used = 0xC0009000\<rparr>"

text \<open>A device that reads back what was written and is zero elsewhere.\<close>

definition echo_device :: device where
  "echo_device h a = (case last_written a h of None \<Rightarrow> 0 | Some x \<Rightarrow> x)"

lemma echo_device_ok: "virtio_device echo_device v"
  by (simp add: virtio_device_def echo_device_def)

lemma driver_status_sequence_witness:
  "values_written test_virtio VIRTIO_STATUS (init_virtio_driver echo_device test_virtio []) = [0, 1, 3, 11, 15]"
  using driver_status_sequence [OF echo_device_ok, of test_virtio "[]"] by (simp add: values_written_def)

lemma driver_ok_without_queue_witness:
  "last (values_written test_virtio VIRTIO_STATUS (init_virtio_driver echo_device test_virtio [])) = 15 \<and>
   values_written test_virtio VIRTIO_QueueReady (init_virtio_driver echo_device test_virtio []) = []"
proof -
  have "values_written test_virtio VIRTIO_QueueNumMax (negotiate echo_device test_virtio []) = []"
    by (simp add: negotiate_def Let_def split_beta update_status_def bus_simps virtio_registers)
      (simp add: values_written_def)
  then have "\<not> queue_accepts echo_device test_virtio (negotiate echo_device test_virtio [])"
    by (simp add: queue_accepts_def Let_def read_u32_def bus_read_def echo_device_def last_written_values
        values_written_def write_u32_def bus_write_def)
  then show ?thesis
    using driver_ok_without_queue [OF echo_device_ok, of test_virtio "[]"] by (simp add: values_written_def)
qed

end
