(* ===== verification/BlockDriver.thy ===== *)
theory BlockDriver
  imports Kmalloc Spinlock VirtioBlk
begin

text \<open>
  The block layer \<^verbatim>\<open>kernel/drivers/block/block_driver.c\<close>.  The record \<open>block_state\<close> holds what
  the driver keeps: the slot table and the counter of \<open>BlockData\<close>, the lock with the interrupt
  mask, the virtio object, the descriptor table and the avail ring, the request headers it has
  written, the allocator and the bus history.  The used ring belongs to the device: a
  parameter gives its contents in a state, and \<open>clock\<close> counts the polls, so the device may
  change it between two reads.  The other parameters are the register device, the outcomes of
  the exclusive stores, and the linker symbol of \<open>kmalloc\<close>.  A result is \<open>None\<close> when a loop of
  the driver never ends, and an error of \<open>kmalloc\<close> is passed on.
\<close>

section \<open>State\<close>

record block_state =
  blk_mm :: mm_state
  blk_bus :: bus
  GLOBAL_VIRTIO_ADDRESS :: "nat \<Rightarrow> u64"
  virtio_obj :: virtio
  used_request_index :: "nat \<Rightarrow> u8"
  global_count :: u8
  blk_lock :: u32
  daif :: u64
  stx_count :: nat
  desc :: "nat \<Rightarrow> virtq_dec"
  avail :: virtq_avail
  requests :: "u64 \<Rightarrow> virtio_blk_req"
  clock :: nat

section \<open>Initialisation\<close>

definition VIRTIO_REGS :: u64 where "VIRTIO_REGS = 0xffff000086400000"

text \<open>The search for a device: the position \<open>i\<close>, and 0 or the base of the registers.\<close>

function probe :: "device \<Rightarrow> u32 \<Rightarrow> bus \<Rightarrow> u64 \<times> u32 \<times> bus" where
  "probe dev i h =
    (if i \<le> 31 then
       let base = VIRTIO_REGS + ucast (i * 0x200);
           temp = \<lparr>virtio_base = base, virtual_virtq_desc = 0, virtual_virtq_avail = 0,
                   virtual_virtq_used = 0, physical_virtq_desc = 0, physical_virtq_avail = 0,
                   physical_virtq_used = 0\<rparr>;
           (found, h) = check_virtio_driver dev temp h
       in if found = 1 then (base, i, h) else probe dev (i + 1) h
     else (0, i, h))"
  by pat_completeness auto

termination
proof (relation "measure (\<lambda>(dev, i, h). 32 - unat i)")
  fix i :: u32
  assume "i \<le> 31"
  then have "unat i \<le> 31" by (simp add: word_le_nat_alt)
  moreover have "unat (i + 1) = Suc (unat i)"
    using \<open>unat i \<le> 31\<close> by (intro unat_Suc_word [where j = 32]) (simp add: word_less_nat_alt)
  ultimately show "((dev, i + 1, h), (dev, i, h')) \<in> measure (\<lambda>(dev, i, h). 32 - unat i)" for dev :: device and h h' :: bus
    by simp
qed simp

declare probe.simps [simp del]

text \<open>
  The sizes that are requested: \<open>BlockData\<close>, \<open>SpinLock\<close>, \<open>virtio\<close>, and 24 times the structures
  of the descriptor table, of the avail ring and of the used ring, which ends in a flexible
  array that does not count.
\<close>

definition backend_sizes :: "u64 list" where
  "backend_sizes = [13, 4, 56, 16 * 24, 30 * 24, 4 * 24]"

definition init_virtio_backend
  :: "u64 \<Rightarrow> device \<Rightarrow> u64 \<Rightarrow> block_state \<Rightarrow> mm_error + block_state" where
  "init_virtio_backend l2mem dev drive_info_register s =
    (case alloc_all (kmalloc l2mem) backend_sizes (blk_mm s) of
       Inl e \<Rightarrow> Inl e
     | Inr (ptrs, m) \<Rightarrow>
         let s = s\<lparr>global_count := 0,
                   used_request_index := (\<lambda>i. if i < 12 then 0 else used_request_index s i),
                   blk_lock := 0,
                   GLOBAL_VIRTIO_ADDRESS := (GLOBAL_VIRTIO_ADDRESS s)
                     (0 := ptrs ! 2, 1 := ptrs ! 3, 2 := ptrs ! 4, 3 := ptrs ! 5),
                   blk_mm := m\<lparr>tbl := add_virtio_page drive_info_register (tbl m)\<rparr>\<rparr>;
             (device_reg, i, h) = probe dev 0 (blk_bus s)
         in if device_reg = 0 then Inr (s\<lparr>blk_bus := h\<rparr>)
         else
           let v = \<lparr>virtio_base = device_reg,
                    virtual_virtq_desc = ptrs ! 3, virtual_virtq_avail = ptrs ! 4,
                    virtual_virtq_used = ptrs ! 5,
                    physical_virtq_desc = convert_to_physical (ptrs ! 3),
                    physical_virtq_avail = convert_to_physical (ptrs ! 4),
                    physical_virtq_used = convert_to_physical (ptrs ! 5)\<rparr>
           in case kmalloc l2mem 28 (blk_mm s) of
                Inl e \<Rightarrow> Inl e
              | Inr (queue, m) \<Rightarrow>
                  Inr (s\<lparr>virtio_obj := v, blk_mm := m, blk_bus := init_virtio_driver dev v h\<rparr>))"

section \<open>Slots\<close>

function free_slot :: "(nat \<Rightarrow> u8) \<Rightarrow> nat \<Rightarrow> nat option" where
  "free_slot used i =
    (if i < 12 then (if used i = 0 then Some i else free_slot used (i + 1)) else None)"
  by pat_completeness auto

termination by (relation "measure (\<lambda>(used, i). 12 - i)") auto

declare free_slot.simps [simp del]

definition find_free_index :: "block_state \<Rightarrow> int \<times> block_state" where
  "find_free_index s =
    (case free_slot (used_request_index s) 0 of
       None \<Rightarrow> (-1, s)
     | Some i \<Rightarrow> (int i * 3, s\<lparr>global_count := global_count s + 1,
                              used_request_index := (used_request_index s)(i := 1)\<rparr>))"

partial_function (option) acquire_index :: "block_state \<Rightarrow> (int \<times> block_state) option" where
  "acquire_index s =
    (case find_free_index s of (free_index, s) \<Rightarrow>
       if free_index = -1 then acquire_index s else Some (free_index, s))"

section \<open>Requests\<close>

text \<open>The three descriptors of a request, from the index \<open>f\<close> on.\<close>

definition write_chain :: "nat \<Rightarrow> u64 \<Rightarrow> u64 \<Rightarrow> u32 \<Rightarrow> u16 \<Rightarrow> u64 \<Rightarrow> block_state \<Rightarrow> block_state" where
  "write_chain f req data len flags2 status s =
    s\<lparr>desc := (desc s)
       (f := (desc s f)\<lparr>desc_addr := kernal_to_user_space req, desc_len := 16,
                desc_flags := VIRTIO_DESC_F_NEXT, desc_next := of_nat f + 1\<rparr>,
        f + 1 := (desc s (f + 1))\<lparr>desc_addr := kernal_to_user_space data, desc_len := len,
                desc_flags := flags2, desc_next := of_nat f + 2\<rparr>,
        f + 2 := (desc s (f + 2))\<lparr>desc_addr := kernal_to_user_space status, desc_len := 1,
                desc_flags := VIRTIO_DESC_F_WRITE\<rparr>)\<rparr>"

definition publish :: "nat \<Rightarrow> block_state \<Rightarrow> block_state" where
  "publish f s =
    s\<lparr>avail := (avail s)\<lparr>avail_flags := 1,
       avail_ring := (avail_ring (avail s))(f := of_nat f),
       avail_idx := avail_idx (avail s) + 1\<rparr>\<rparr>"

partial_function (option) wait_used :: "(block_state \<Rightarrow> virtq_used) \<Rightarrow> u16 \<Rightarrow> block_state \<Rightarrow> block_state option" where
  "wait_used used last_seen_idx s =
    (if used_idx (used s) = last_seen_idx then wait_used used last_seen_idx (s\<lparr>clock := clock s + 1\<rparr>)
     else Some s)"

definition blk_lock_acquire :: "(nat \<Rightarrow> bool) \<Rightarrow> block_state \<Rightarrow> block_state option" where
  "blk_lock_acquire stx s =
     map_option (\<lambda>(r, n, d, l). s\<lparr>stx_count := n, daif := d, blk_lock := l\<rparr>)
       (spin_lock_with_mask stx (stx_count s) (daif s, blk_lock s))"

definition blk_lock_release :: "(nat \<Rightarrow> bool) \<Rightarrow> block_state \<Rightarrow> block_state option" where
  "blk_lock_release stx s =
     map_option (\<lambda>(r, n, d, l). s\<lparr>stx_count := n, daif := d, blk_lock := l\<rparr>)
       (spin_unlock_with_mask stx (stx_count s) (daif s, blk_lock s))"

text \<open>
  The body of a request once its slot is known: \<open>block_read\<close> and \<open>block_write\<close> have the same
  statements but for the type, the length and the flags of the data descriptor.
\<close>

definition run_request :: "(nat \<Rightarrow> bool) \<Rightarrow> (block_state \<Rightarrow> virtq_used) \<Rightarrow> nat \<Rightarrow> u64 \<Rightarrow> u64 \<Rightarrow> u32 \<Rightarrow> u16 \<Rightarrow> u64
    \<Rightarrow> block_state \<Rightarrow> (u64 \<times> block_state) option" where
  "run_request stx used f req data len flags2 status s =
    (let s = write_chain f req data len flags2 status s;
         s = publish f s;
         last_seen_idx = used_idx (used s);
         s = s\<lparr>blk_bus := write_u32 (virtio_obj s) VIRTIO_QueueNotify 0 (blk_bus s)\<rparr>
     in Option.bind (blk_lock_release stx s)
          (\<lambda>s. Option.bind (wait_used used last_seen_idx s)
            (\<lambda>s. let s = s\<lparr>used_request_index := (used_request_index s)(f := 0)\<rparr>
                 in Some (ucast (elem_len (used_ring (used s) f)), s))))"

definition block_request :: "u64 \<Rightarrow> (nat \<Rightarrow> bool) \<Rightarrow> (block_state \<Rightarrow> virtq_used) \<Rightarrow> u32 \<Rightarrow> u32 \<Rightarrow> u64 \<Rightarrow> u32 \<Rightarrow> u16
    \<Rightarrow> block_state \<Rightarrow> (mm_error + u64 \<times> block_state) option" where
  "block_request l2mem stx used typ sector data len flags2 s =
    (case kmalloc l2mem 16 (blk_mm s) of
       Inl e \<Rightarrow> Some (Inl e)
     | Inr (req, m) \<Rightarrow>
         let s = s\<lparr>blk_mm := m,
                   requests := (requests s)
                     (req := \<lparr>req_type = typ, req_reserved = 0, req_sector = ucast sector\<rparr>)\<rparr>
         in Option.bind (blk_lock_acquire stx s)
           (\<lambda>s. Option.bind (acquire_index s)
             (\<lambda>(free_index, s).
                case kmalloc l2mem 1 (blk_mm s) of
                  Inl e \<Rightarrow> Some (Inl e)
                | Inr (status, m) \<Rightarrow>
                    map_option Inr (run_request stx used (nat free_index) req data len flags2 status
                      (s\<lparr>blk_mm := m\<rparr>)))))"

definition block_read :: "u64 \<Rightarrow> (nat \<Rightarrow> bool) \<Rightarrow> (block_state \<Rightarrow> virtq_used) \<Rightarrow> u32 \<Rightarrow> u64 \<Rightarrow> u64
    \<Rightarrow> block_state \<Rightarrow> (mm_error + u64 \<times> block_state) option" where
  "block_read l2mem stx used sector data sz s =
     block_request l2mem stx used VIRTIO_BLK_T_IN sector data (ucast sz)
       (VIRTIO_DESC_F_NEXT OR VIRTIO_DESC_F_WRITE) s"

definition block_write :: "u64 \<Rightarrow> (nat \<Rightarrow> bool) \<Rightarrow> (block_state \<Rightarrow> virtq_used) \<Rightarrow> u32 \<Rightarrow> u64 \<Rightarrow> u64
    \<Rightarrow> block_state \<Rightarrow> (mm_error + u64 \<times> block_state) option" where
  "block_write l2mem stx used sector data sz s =
     block_request l2mem stx used VIRTIO_BLK_T_OUT sector data 512 VIRTIO_DESC_F_NEXT s"


section \<open>Slots: the loops\<close>

lemma free_slot_Some: "free_slot u i = Some k \<longleftrightarrow> i \<le> k \<and> k < 12 \<and> u k = 0 \<and> (\<forall>j. i \<le> j \<and> j < k \<longrightarrow> u j \<noteq> 0)"
proof (induction u i rule: free_slot.induct)
  case (1 u i)
  consider (past) "\<not> i < 12" | (free) "i < 12" "u i = 0" | (busy) "i < 12" "u i \<noteq> 0" by blast
  then show ?case
  proof cases
    case past
    then show ?thesis by (subst free_slot.simps) simp
  next
    case free
    then have "free_slot u i = Some i" by (subst free_slot.simps) simp
    then show ?thesis
      using free by (cases "k = i") (auto simp: not_less intro!: exI [of _ i])
  next
    case busy
    have le: "i \<le> k \<and> u k = 0 \<longleftrightarrow> i + 1 \<le> k \<and> u k = 0" using busy(2) by (auto simp: le_less)
    have all: "(\<forall>j. i \<le> j \<and> j < k \<longrightarrow> u j \<noteq> 0) \<longleftrightarrow> (\<forall>j. i + 1 \<le> j \<and> j < k \<longrightarrow> u j \<noteq> 0)"
    proof (intro iff_allI)
      show "(i \<le> j \<and> j < k \<longrightarrow> u j \<noteq> 0) \<longleftrightarrow> (i + 1 \<le> j \<and> j < k \<longrightarrow> u j \<noteq> 0)" for j
        using busy(2) by (cases "j = i") auto
    qed
    have "free_slot u i = free_slot u (i + 1)" using busy by (subst free_slot.simps) simp
    then show ?thesis
      using le by (simp only: 1 [OF busy] all) argo
  qed
qed

lemma free_slot_None: "free_slot u i = None \<Longrightarrow> i \<le> j \<Longrightarrow> j < 12 \<Longrightarrow> u j \<noteq> 0"
proof (induction u i rule: free_slot.induct)
  case (1 u i)
  have i: "i < 12" using "1.prems" by simp
  have n: "u i \<noteq> 0"
  proof
    assume "u i = 0"
    then have "free_slot u i = Some i" using i by (subst free_slot.simps) simp
    then show False using "1.prems"(1) by simp
  qed
  have "free_slot u i = free_slot u (i + 1)" using i n by (subst free_slot.simps) simp
  then show ?case using "1.IH" [OF i n] "1.prems" n by (cases "j = i") simp_all
qed

lemma acquire_index_free:
  assumes "free_slot (used_request_index s) 0 = Some i"
  shows "acquire_index s = Some (int i * 3, s\<lparr>global_count := global_count s + 1,
    used_request_index := (used_request_index s)(i := 1)\<rparr>)"
  by (subst acquire_index.simps) (simp add: find_free_index_def assms)

lemma acquire_index_Some: "acquire_index s = Some r \<Longrightarrow> free_slot (used_request_index s) 0 \<noteq> None"
  by (erule acquire_index.raw_induct [where P = "\<lambda>s _. free_slot (used_request_index s) 0 \<noteq> None", rotated])
    (fastforce simp: find_free_index_def split: option.splits if_splits)

lemma acquire_index_full: "\<forall>i < 12. used_request_index s i \<noteq> 0 \<Longrightarrow> acquire_index s = None"
  using acquire_index_Some [of s] free_slot_Some [of "used_request_index s" 0]
  by (cases "acquire_index s") auto

section \<open>Waiting for the device\<close>

text \<open>The last access of the bus is the notification of queue 0.\<close>

definition notified :: "block_state \<Rightarrow> bool" where
  "notified s \<longleftrightarrow> blk_bus s \<noteq> [] \<and>
     last (blk_bus s) = BusWrite (virtio_base (virtio_obj s) + ucast VIRTIO_QueueNotify) 0"

text \<open>The device completes a request it has been notified of: its index moves on in the end.\<close>

definition device_completes :: "(block_state \<Rightarrow> virtq_used) \<Rightarrow> bool" where
  "device_completes used \<longleftrightarrow>
     (\<forall>s l. notified s \<longrightarrow> (\<exists>k. used_idx (used (s\<lparr>clock := clock s + k\<rparr>)) \<noteq> l))"

definition stores_succeed :: "(nat \<Rightarrow> bool) \<Rightarrow> bool" where
  "stores_succeed stx \<longleftrightarrow> (\<forall>n. \<exists>k \<ge> n. stx k)"

lemma wait_used_returns:
  "used_idx (used (s\<lparr>clock := clock s + k\<rparr>)) \<noteq> l \<Longrightarrow> \<exists>j. wait_used used l s = Some (s\<lparr>clock := clock s + j\<rparr>)"
proof (induction k arbitrary: s)
  case 0
  then have "wait_used used l s = Some s" by (subst wait_used.simps) simp
  then show ?case by (intro exI [of _ 0]) simp
next
  case (Suc k)
  show ?case
  proof (cases "used_idx (used s) = l")
    case False
    then have "wait_used used l s = Some s" by (subst wait_used.simps) simp
    then show ?thesis by (intro exI [of _ 0]) simp
  next
    case True
    let ?s = "s\<lparr>clock := clock s + 1\<rparr>"
    have "\<exists>j. wait_used used l ?s = Some (?s\<lparr>clock := clock ?s + j\<rparr>)"
      using Suc.prems by (intro Suc.IH) simp
    then obtain j where "wait_used used l ?s = Some (s\<lparr>clock := clock s + Suc j\<rparr>)" by auto
    moreover have "wait_used used l s = wait_used used l ?s"
      using True by (subst wait_used.simps) simp
    ultimately show ?thesis by metis
  qed
qed

lemma first_success:
  assumes "stores_succeed stx"
  shows "\<exists>m \<ge> n. stx m \<and> (\<forall>k. n \<le> k \<and> k < m \<longrightarrow> \<not> stx k)"
proof -
  have ex: "\<exists>k. n \<le> k \<and> stx k" using assms by (auto simp: stores_succeed_def)
  let ?m = "LEAST k. n \<le> k \<and> stx k"
  have "n \<le> ?m \<and> stx ?m" using LeastI_ex [OF ex] .
  moreover have "\<forall>k. n \<le> k \<and> k < ?m \<longrightarrow> \<not> stx k" using not_less_Least by blast
  ultimately show ?thesis by blast
qed

lemma lock_acquire_free:
  assumes "stores_succeed stx" and "blk_lock s = 0"
  shows "\<exists>n. blk_lock_acquire stx s = Some (s\<lparr>stx_count := n, daif := mask_interrupts (daif s), blk_lock := 1\<rparr>)"
  using first_success [OF assms(1), of "stx_count s"] spin_lock_free(1) [of stx _ "stx_count s"] assms(2)
  by (auto simp: blk_lock_acquire_def spin_lock_with_mask_def Let_def)

lemma lock_release:
  assumes "stores_succeed stx"
  shows "\<exists>n. blk_lock_release stx s = Some (s\<lparr>stx_count := n, daif := unmask_interrupts (daif s), blk_lock := 0\<rparr>)"
  using first_success [OF assms, of "stx_count s"] spin_lock_free(2) [of stx _ "stx_count s" "blk_lock s"]
  by (auto simp: blk_lock_release_def spin_unlock_with_mask_def Let_def)

section \<open>A request\<close>

text \<open>The chain of descriptors from index \<open>i\<close> on: address, length and writability of each.\<close>

fun chain :: "(nat \<Rightarrow> virtq_dec) \<Rightarrow> nat \<Rightarrow> nat \<Rightarrow> (u64 \<times> u32 \<times> bool) list" where
  "chain d 0 i = []"
| "chain d (Suc k) i =
    (desc_addr (d i), desc_len (d i), desc_flags (d i) AND VIRTIO_DESC_F_WRITE \<noteq> 0) #
    (if desc_flags (d i) AND VIRTIO_DESC_F_NEXT \<noteq> 0 then chain d k (unat (desc_next (d i))) else [])"

lemma write_chain_chain:
  assumes "f < 60000" and "flags2 AND VIRTIO_DESC_F_NEXT \<noteq> 0"
  shows "chain (desc (write_chain f req data len flags2 status s)) 12 f =
    [(kernal_to_user_space req, 16, False),
     (kernal_to_user_space data, len, flags2 AND VIRTIO_DESC_F_WRITE \<noteq> 0),
     (kernal_to_user_space status, 1, True)]"
proof -
  have u: "unat (of_nat f + 1 :: u16) = f + 1" "unat (of_nat f + 2 :: u16) = f + 2"
    using assms(1) by (simp_all add: unat_word_ariths unat_of_nat)
  show ?thesis
    using assms(2) u
    by (simp add: write_chain_def VIRTIO_DESC_F_NEXT_def VIRTIO_DESC_F_WRITE_def numeral_eq_Suc)
qed

lemma run_request_returns:
  assumes "stores_succeed stx" and "device_completes used"
  shows "\<exists>r s'. run_request stx used f req data len flags2 status s = Some (r, s') \<and>
    r = ucast (elem_len (used_ring (used s') f)) \<and>
    used_request_index s' = (used_request_index s)(f := 0) \<and> blk_lock s' = 0 \<and>
    avail s' = avail (publish f s) \<and> desc s' = desc (write_chain f req data len flags2 status s) \<and>
    blk_mm s' = blk_mm s \<and> requests s' = requests s \<and> virtio_obj s' = virtio_obj s"
proof -
  define s1 where "s1 = publish f (write_chain f req data len flags2 status s)"
  define s2 where "s2 = s1\<lparr>blk_bus := write_u32 (virtio_obj s1) VIRTIO_QueueNotify 0 (blk_bus s1)\<rparr>"
  obtain n where rel: "blk_lock_release stx s2 =
      Some (s2\<lparr>stx_count := n, daif := unmask_interrupts (daif s2), blk_lock := 0\<rparr>)"
    using lock_release [OF assms(1)] by blast
  define s3 where "s3 = s2\<lparr>stx_count := n, daif := unmask_interrupts (daif s2), blk_lock := 0\<rparr>"
  have "notified s3" by (simp add: notified_def s3_def s2_def write_u32_def bus_write_def)
  then obtain k where "used_idx (used (s3\<lparr>clock := clock s3 + k\<rparr>)) \<noteq> used_idx (used s1)"
    using assms(2) by (auto simp: device_completes_def)
  from wait_used_returns [where used = used and l = "used_idx (used s1)" and s = s3 and k = k, OF this]
  obtain j where w: "wait_used used (used_idx (used s1)) s3 = Some (s3\<lparr>clock := clock s3 + j\<rparr>)" by blast
  have "run_request stx used f req data len flags2 status s =
      Some (ucast (elem_len (used_ring (used (s3\<lparr>clock := clock s3 + j,
        used_request_index := (used_request_index s3)(f := 0)\<rparr>)) f)),
        s3\<lparr>clock := clock s3 + j, used_request_index := (used_request_index s3)(f := 0)\<rparr>)"
    using rel w by (simp add: run_request_def Let_def s1_def [symmetric] s2_def [symmetric] s3_def [symmetric])
  moreover have "used_request_index s3 = used_request_index s" "blk_lock s3 = 0" "avail s3 = avail (publish f s)"
    "desc s3 = desc (write_chain f req data len flags2 status s)" "blk_mm s3 = blk_mm s" "requests s3 = requests s"
    "virtio_obj s3 = virtio_obj s"
    by (simp_all add: s3_def s2_def s1_def publish_def write_chain_def)
  ultimately show ?thesis by simp
qed

lemma pages_small: "pages_needed 16 = 1" "pages_needed 1 = 1"
  by (simp_all add: pages_needed_def)

lemma user_address_kva: "p < GIB_PAGES \<Longrightarrow> kernal_to_user_space (kva p) = kpa p"
proof -
  assume p: "p < GIB_PAGES"
  have "convert_to_physical (kva p) = convert_to_physical (kpa p)"
    by (simp add: kpa_or_kva [OF p, symmetric] convert_to_physical_def bit.conj_disj_distrib)
  then show ?thesis by (simp add: kernal_to_user_space_eq convert_kpa [OF p])
qed

lemma block_request_returns:
  assumes "kmalloc_inv l2mem n M (blk_mm s)" and "n + 2 \<le> 512" and "blk_lock s = 0"
    and "stores_succeed stx" and "device_completes used"
    and "free_slot (used_request_index s) 0 = Some i" and "flags2 AND VIRTIO_DESC_F_NEXT \<noteq> 0"
  shows "\<exists>r s'. block_request l2mem stx used typ sector data len flags2 s = Some (Inr (r, s')) \<and>
    r = ucast (elem_len (used_ring (used s') (i * 3))) \<and>
    used_request_index s' = (used_request_index s)(i := 1, i * 3 := 0) \<and> blk_lock s' = 0 \<and>
    avail_idx (avail s') = avail_idx (avail s) + 1 \<and>
    avail_ring (avail s') = (avail_ring (avail s))(i * 3 := of_nat (i * 3)) \<and>
    chain (desc s') 12 (i * 3) =
      [(kpa n, 16, False), (kernal_to_user_space data, len, flags2 AND VIRTIO_DESC_F_WRITE \<noteq> 0),
       (kpa (n + 1), 1, True)] \<and>
    requests s' = (requests s)(kva n := \<lparr>req_type = typ, req_reserved = 0, req_sector = ucast sector\<rparr>) \<and>
    kmalloc_inv l2mem (n + 2) (M \<union> {n..<n + 2}) (blk_mm s')"
proof -
  obtain m1 where m1: "kmalloc l2mem 16 (blk_mm s) = Inr (kva n, m1)"
    and i1: "kmalloc_inv l2mem (n + 1) (M \<union> {n..<n + 1}) m1"
    using kma.alloc_next [OF assms(1), of 16] assms(2) by (auto simp: pages_small)
  define s1 where "s1 = s\<lparr>blk_mm := m1, requests := (requests s)
      (kva n := \<lparr>req_type = typ, req_reserved = 0, req_sector = ucast sector\<rparr>)\<rparr>"
  obtain c where c: "blk_lock_acquire stx s1 =
      Some (s1\<lparr>stx_count := c, daif := mask_interrupts (daif s1), blk_lock := 1\<rparr>)"
    using lock_acquire_free [OF assms(4), of s1] assms(3) by (auto simp: s1_def)
  define s2 where "s2 = s1\<lparr>stx_count := c, daif := mask_interrupts (daif s1), blk_lock := 1\<rparr>"
  define s3 where "s3 = s2\<lparr>global_count := global_count s2 + 1,
      used_request_index := (used_request_index s2)(i := 1)\<rparr>"
  have a: "acquire_index s2 = Some (int i * 3, s3)"
    unfolding s3_def by (rule acquire_index_free) (simp add: s2_def s1_def assms(6))
  obtain m2 where m2: "kmalloc l2mem 1 m1 = Inr (kva (n + 1), m2)"
    and i2: "kmalloc_inv l2mem (n + 1 + 1) (M \<union> {n..<n + 1} \<union> {n + 1..<n + 1 + 1}) m2"
    using kma.alloc_next [OF i1, of 1] assms(2) by (auto simp: pages_small)
  have m3: "blk_mm s3 = m1" by (simp add: s3_def s2_def s1_def)
  define s4 where "s4 = s3\<lparr>blk_mm := m2\<rparr>"
  have "nat (int i * 3) = i * 3" by simp
  then obtain r s' where r: "run_request stx used (i * 3) (kva n) data len flags2 (kva (n + 1)) s4 = Some (r, s')"
    and p: "r = ucast (elem_len (used_ring (used s') (i * 3)))"
      "used_request_index s' = (used_request_index s4)(i * 3 := 0)" "blk_lock s' = 0"
      "avail s' = avail (publish (i * 3) s4)"
      "desc s' = desc (write_chain (i * 3) (kva n) data len flags2 (kva (n + 1)) s4)"
      "blk_mm s' = blk_mm s4" "requests s' = requests s4"
    using run_request_returns [OF assms(4,5)] by blast
  have "block_request l2mem stx used typ sector data len flags2 s = Some (Inr (r, s'))"
    using m1 c a m2 m3 r \<open>nat (int i * 3) = i * 3\<close>
    by (simp add: block_request_def Let_def s1_def [symmetric] s2_def [symmetric] s4_def [symmetric])
  moreover have "chain (desc s') 12 (i * 3) =
      [(kpa n, 16, False), (kernal_to_user_space data, len, flags2 AND VIRTIO_DESC_F_WRITE \<noteq> 0),
       (kpa (n + 1), 1, True)]"
    using write_chain_chain [of "i * 3" flags2] assms(2,6,7) user_address_kva [of n] user_address_kva [of "n + 1"]
    by (simp add: p(5) free_slot_Some)
  moreover have "kmalloc_inv l2mem (n + 2) (M \<union> {n..<n + 2}) m2"
  proof -
    have "M \<union> {n..<n + 1} \<union> {n + 1..<n + 1 + 1} = M \<union> {n..<n + 2}" by auto
    moreover have "n + 1 + 1 = n + 2" by simp
    ultimately show ?thesis using i2 by (simp only:)
  qed
  moreover have "used_request_index s4 = (used_request_index s)(i := 1)" "avail s4 = avail s"
    "blk_mm s4 = m2" "requests s4 = (requests s)(kva n := \<lparr>req_type = typ, req_reserved = 0, req_sector = ucast sector\<rparr>)"
    by (simp_all add: s4_def s3_def s2_def s1_def)
  ultimately show ?thesis
    using p by (simp add: publish_def)
qed


section \<open>Initialisation\<close>

lemma backend_pages:
  "map pages_needed backend_sizes = [1, 1, 1, 1, 1, 1]" "pages_needed 28 = 1"
  "\<forall>sz \<in> set backend_sizes. pages_needed sz \<le> 20"
  by (simp_all add: backend_sizes_def pages_needed_def)

lemma backend_starts:
  "block_starts pages_needed n backend_sizes = [n, n + 1, n + 2, n + 3, n + 4, n + 5]"
  using backend_pages(1) by (simp add: backend_sizes_def)

text \<open>The state after initialisation: six pages, and a seventh for the queue when a device is found.\<close>

lemma init_virtio_backend_state:
  fixes s :: block_state and dev :: device
  assumes "kmalloc_inv l2mem n M (blk_mm s)" and "n + 7 \<le> 512"
  defines "base \<equiv> fst (probe dev 0 (blk_bus s))"
    and "k \<equiv> (if fst (probe dev 0 (blk_bus s)) = 0 then 6 else 7)"
  shows "\<exists>s'. init_virtio_backend l2mem dev reg s = Inr s' \<and> blk_lock s' = 0 \<and>
    (\<forall>i < 12. used_request_index s' i = 0) \<and>
    map (GLOBAL_VIRTIO_ADDRESS s') [0, 1, 2, 3] = map kva [n + 2, n + 3, n + 4, n + 5] \<and>
    virtio_obj s' = (if base = 0 then virtio_obj s
      else \<lparr>virtio_base = base, virtual_virtq_desc = kva (n + 3), virtual_virtq_avail = kva (n + 4),
             virtual_virtq_used = kva (n + 5), physical_virtq_desc = kpa (n + 3),
             physical_virtq_avail = kpa (n + 4), physical_virtq_used = kpa (n + 5)\<rparr>) \<and>
    kmalloc_inv l2mem (n + k) (M \<union> {n..<n + k}) (blk_mm s')"
proof -
  have sum: "sum_list (map pages_needed backend_sizes) = 6" by (simp add: backend_pages(1))
  obtain m where m: "alloc_all (kmalloc l2mem) backend_sizes (blk_mm s) =
      Inr (map kva [n, n + 1, n + 2, n + 3, n + 4, n + 5], m)"
    and i: "kmalloc_inv l2mem (n + 6) (M \<union> {n..<n + 6}) m"
    using kma.alloc_all_next [OF assms(1) backend_pages(3)] assms(2)
    by (auto simp: sum backend_starts)
  define m' where "m' = m\<lparr>tbl := add_virtio_page reg (tbl m)\<rparr>"
  have i': "kmalloc_inv l2mem (n + 6) (M \<union> {n..<n + 6}) m'"
    unfolding m'_def by (rule kmalloc_inv_add_virtio_page [OF i])
  obtain m2 where m2: "kmalloc l2mem 28 m' = Inr (kva (n + 6), m2)"
    and i2: "kmalloc_inv l2mem (n + 6 + 1) (M \<union> {n..<n + 6} \<union> {n + 6..<n + 6 + 1}) m2"
    using kma.alloc_next [OF i', of 28] assms(2) by (auto simp: backend_pages(2))
  have i7: "kmalloc_inv l2mem (n + 7) (M \<union> {n..<n + 7}) m2"
  proof -
    have "M \<union> {n..<n + 6} \<union> {n + 6..<n + 6 + 1} = M \<union> {n..<n + 7}" by auto
    moreover have "n + 6 + 1 = n + 7" by simp
    ultimately show ?thesis using i2 by (simp only:)
  qed
  have c: "convert_to_physical (kva (n + k)) = kpa (n + k)" if "k < 6" for k
    using user_address_kva [of "n + k"] that assms(2) by (simp add: kernal_to_user_space_eq)
  obtain reg_base idx h where p: "probe dev 0 (blk_bus s) = (reg_base, idx, h)"
    by (cases "probe dev 0 (blk_bus s)")
  show ?thesis
  proof (cases "reg_base = 0")
    case True
    then show ?thesis
      using kmalloc_inv_add_virtio_page [OF i, of reg]
      by (simp add: init_virtio_backend_def m p Let_def base_def k_def)
  next
    case False
    then show ?thesis
      using m2 i7 c [of 3] c [of 4] c [of 5]
      by (simp add: init_virtio_backend_def m p Let_def m'_def base_def k_def)
  qed
qed

section \<open>Properties\<close>

text \<open>
  C14. \<open>block_read\<close> completes when the first slot is free: with a free lock, room for two pages
  and a device that completes its requests, the call returns; the device was given the chain
  header, data, status with the right addresses, lengths and permissions, the header asks to
  read the sector, the avail index has moved by one, the lock is free and the slot is free
  again.  Two pages of the pool are used up.
\<close>

theorem block_read_completes:
  assumes "kmalloc_inv l2mem n M (blk_mm s)" and "n + 2 \<le> 512" and "blk_lock s = 0"
    and "stores_succeed stx" and "device_completes used" and "used_request_index s 0 = 0"
  shows "\<exists>r s'. block_read l2mem stx used sector data sz s = Some (Inr (r, s')) \<and>
    r = ucast (elem_len (used_ring (used s') 0)) \<and>
    used_request_index s' = used_request_index s \<and> blk_lock s' = 0 \<and>
    avail_idx (avail s') = avail_idx (avail s) + 1 \<and> avail_ring (avail s') 0 = 0 \<and>
    chain (desc s') 12 0 =
      [(kpa n, 16, False), (kernal_to_user_space data, ucast sz, True), (kpa (n + 1), 1, True)] \<and>
    requests s' (kva n) = \<lparr>req_type = 0, req_reserved = 0, req_sector = ucast sector\<rparr> \<and>
    kmalloc_inv l2mem (n + 2) (M \<union> {n..<n + 2}) (blk_mm s')"
proof -
  have free: "free_slot (used_request_index s) 0 = Some 0" using assms(6) by (simp add: free_slot_Some)
  have "(used_request_index s)(0 := 1, 0 := 0) = used_request_index s" using assms(6) by (simp add: fun_upd_idem)
  moreover have "(VIRTIO_DESC_F_NEXT OR VIRTIO_DESC_F_WRITE) AND VIRTIO_DESC_F_NEXT \<noteq> 0"
    "(VIRTIO_DESC_F_NEXT OR VIRTIO_DESC_F_WRITE) AND VIRTIO_DESC_F_WRITE \<noteq> 0"
    by (simp_all add: VIRTIO_DESC_F_NEXT_def VIRTIO_DESC_F_WRITE_def)
  ultimately show ?thesis
    using block_request_returns [OF assms(1-5) free, of "VIRTIO_DESC_F_NEXT OR VIRTIO_DESC_F_WRITE"
        VIRTIO_BLK_T_IN sector data "ucast sz"]
    by (auto simp: block_read_def VIRTIO_BLK_T_IN_def)
qed

text \<open>
  \<open>block_write\<close> in the same situation gives the device a chain whose data descriptor can only
  be read and is always 512 bytes long, whatever size the caller asked for.
\<close>

lemma block_write_completes:
  assumes "kmalloc_inv l2mem n M (blk_mm s)" and "n + 2 \<le> 512" and "blk_lock s = 0"
    and "stores_succeed stx" and "device_completes used" and "used_request_index s 0 = 0"
  shows "\<exists>r s'. block_write l2mem stx used sector data sz s = Some (Inr (r, s')) \<and>
    used_request_index s' = used_request_index s \<and> blk_lock s' = 0 \<and>
    avail_idx (avail s') = avail_idx (avail s) + 1 \<and>
    chain (desc s') 12 0 =
      [(kpa n, 16, False), (kernal_to_user_space data, 512, False), (kpa (n + 1), 1, True)] \<and>
    requests s' (kva n) = \<lparr>req_type = 1, req_reserved = 0, req_sector = ucast sector\<rparr>"
proof -
  have free: "free_slot (used_request_index s) 0 = Some 0" using assms(6) by (simp add: free_slot_Some)
  have "(used_request_index s)(0 := 1, 0 := 0) = used_request_index s" using assms(6) by (simp add: fun_upd_idem)
  moreover have "VIRTIO_DESC_F_NEXT AND VIRTIO_DESC_F_NEXT \<noteq> 0" "VIRTIO_DESC_F_NEXT AND VIRTIO_DESC_F_WRITE = 0"
    by (simp_all add: VIRTIO_DESC_F_NEXT_def VIRTIO_DESC_F_WRITE_def)
  ultimately show ?thesis
    using block_request_returns [OF assms(1-5) free, of VIRTIO_DESC_F_NEXT VIRTIO_BLK_T_OUT sector data 512]
    by (auto simp: block_write_def VIRTIO_BLK_T_OUT_def)
qed

text \<open>
  A slot other than the first is never given back: the call clears the entry with the number
  of the first descriptor, \<open>3 * i\<close>, in place of the entry \<open>i\<close> it has taken, so after the read has
  completed the slot is still marked, and another one has been freed.
\<close>

lemma slot_leaks:
  assumes "kmalloc_inv l2mem n M (blk_mm s)" and "n + 2 \<le> 512" and "blk_lock s = 0"
    and "stores_succeed stx" and "device_completes used"
    and "i < 12" and "0 < i" and "used_request_index s i = 0" and "\<forall>j < i. used_request_index s j \<noteq> 0"
  shows "\<exists>r s'. block_read l2mem stx used sector data sz s = Some (Inr (r, s')) \<and>
    used_request_index s' i = 1 \<and> used_request_index s' (i * 3) = 0"
proof -
  have free: "free_slot (used_request_index s) 0 = Some i" using assms(6-9) by (simp add: free_slot_Some)
  have "(VIRTIO_DESC_F_NEXT OR VIRTIO_DESC_F_WRITE) AND VIRTIO_DESC_F_NEXT \<noteq> 0"
    by (simp add: VIRTIO_DESC_F_NEXT_def VIRTIO_DESC_F_WRITE_def)
  moreover have "i * 3 \<noteq> i" using assms(7) by simp
  ultimately show ?thesis
    using block_request_returns [OF assms(1-5) free, of "VIRTIO_DESC_F_NEXT OR VIRTIO_DESC_F_WRITE"
        VIRTIO_BLK_T_IN sector data "ucast sz"]
    unfolding block_read_def by fastforce
qed

text \<open>
  When all twelve slots are taken a request never returns: it looks for a free slot over and
  over while it holds the lock with interrupts masked, so nothing can free one.
\<close>

lemma block_request_stuck:
  assumes "kmalloc_inv l2mem n M (blk_mm s)" and "n + 1 \<le> 512" and "blk_lock s = 0"
    and "stores_succeed stx" and "\<forall>i < 12. used_request_index s i \<noteq> 0"
  shows "block_read l2mem stx used sector data sz s = None \<and> block_write l2mem stx used sector data sz s = None"
proof -
  obtain m where m: "kmalloc l2mem 16 (blk_mm s) = Inr (kva n, m)"
    using kma.alloc_next [OF assms(1), of 16] assms(2) by (auto simp: pages_small)
  have "block_request l2mem stx used ty sector data len fl s = None" for ty len fl
  proof -
    define s1 where "s1 = s\<lparr>blk_mm := m, requests := (requests s)
        (kva n := \<lparr>req_type = ty, req_reserved = 0, req_sector = ucast sector\<rparr>)\<rparr>"
    obtain c where c: "blk_lock_acquire stx s1 =
        Some (s1\<lparr>stx_count := c, daif := mask_interrupts (daif s1), blk_lock := 1\<rparr>)"
      using lock_acquire_free [OF assms(4), of s1] assms(3) by (auto simp: s1_def)
    have "acquire_index (s1\<lparr>stx_count := c, daif := mask_interrupts (daif s1), blk_lock := 1\<rparr>) = None"
      by (rule acquire_index_full) (simp add: s1_def assms(5))
    then show ?thesis
      using m c by (simp add: block_request_def Let_def s1_def [symmetric])
  qed
  then show ?thesis by (simp add: block_read_def block_write_def)
qed

text \<open>
  The chain of a request is published in the wrong place: the driver writes its head to the
  ring entry \<open>3 * i\<close> of its slot, but the device looks at entry \<open>idx mod 12\<close> for the avail index
  \<open>idx\<close>.  When these differ the entry the device looks at keeps what it held, so the device
  processes an earlier chain, and the head of the new chain stands where nobody looks.
\<close>

lemma chain_published_elsewhere:
  assumes "kmalloc_inv l2mem n M (blk_mm s)" and "n + 2 \<le> 512" and "blk_lock s = 0"
    and "stores_succeed stx" and "device_completes used"
    and "i < 12" and "used_request_index s i = 0" and "\<forall>j < i. used_request_index s j \<noteq> 0"
    and "unat (avail_idx (avail s)) mod 12 \<noteq> i * 3"
  shows "\<exists>r s'. block_read l2mem stx used sector data sz s = Some (Inr (r, s')) \<and>
    avail_idx (avail s') = avail_idx (avail s) + 1 \<and>
    avail_ring (avail s') (unat (avail_idx (avail s)) mod 12) =
      avail_ring (avail s) (unat (avail_idx (avail s)) mod 12) \<and>
    avail_ring (avail s') (i * 3) = of_nat (i * 3)"
proof -
  have free: "free_slot (used_request_index s) 0 = Some i" using assms(6-8) by (simp add: free_slot_Some)
  have "(VIRTIO_DESC_F_NEXT OR VIRTIO_DESC_F_WRITE) AND VIRTIO_DESC_F_NEXT \<noteq> 0"
    by (simp add: VIRTIO_DESC_F_NEXT_def VIRTIO_DESC_F_WRITE_def)
  then show ?thesis
    using block_request_returns [OF assms(1-5) free, of "VIRTIO_DESC_F_NEXT OR VIRTIO_DESC_F_WRITE"
        VIRTIO_BLK_T_IN sector data "ucast sz"] assms(9)
    unfolding block_read_def by fastforce
qed

text \<open>
  \<open>init_virtio_backend\<close> succeeds when the allocator has seven pages left: all slots are free,
  the lock is free, and if a device is found the driver gives it the physical addresses of
  three different pages, those that hold the descriptor table, the avail ring and the used
  ring, and the kernel addresses of the same pages are kept for the driver.
\<close>

lemma init_virtio_backend_ready:
  assumes "kmalloc_inv l2mem n M (blk_mm s)" and "n + 7 \<le> 512"
  shows "\<exists>s'. init_virtio_backend l2mem dev reg s = Inr s' \<and> blk_lock s' = 0 \<and>
    (\<forall>i < 12. used_request_index s' i = 0) \<and>
    map (GLOBAL_VIRTIO_ADDRESS s') [0, 1, 2, 3] = map kva [n + 2, n + 3, n + 4, n + 5] \<and>
    (fst (probe dev 0 (blk_bus s)) \<noteq> 0 \<longrightarrow>
       virtio_base (virtio_obj s') = fst (probe dev 0 (blk_bus s)) \<and>
       map (\<lambda>f. f (virtio_obj s')) [physical_virtq_desc, physical_virtq_avail, physical_virtq_used]
         = map kpa [n + 3, n + 4, n + 5] \<and>
       kmalloc_inv l2mem (n + 7) (M \<union> {n..<n + 7}) (blk_mm s'))"
  using init_virtio_backend_state [OF assms, of dev reg] by (auto split: if_splits)


section \<open>The properties at concrete states\<close>

text \<open>A device that completes a request at every poll, and a driver state after boot.\<close>

definition eager_device :: "block_state \<Rightarrow> virtq_used" where
  "eager_device s = \<lparr>used_flags = 0, used_idx = of_nat (clock s),
     used_ring = (\<lambda>_. \<lparr>elem_id = 0, elem_len = 513\<rparr>)\<rparr>"

lemma eager_device_completes: "device_completes eager_device"
proof -
  have "\<exists>k. used_idx (eager_device (s\<lparr>clock := clock s + k\<rparr>)) \<noteq> l" for s l
  proof (cases "(of_nat (clock s) :: u16) = l")
    case True
    then have "used_idx (eager_device (s\<lparr>clock := clock s + 1\<rparr>)) \<noteq> l" by (simp add: eager_device_def)
    then show ?thesis by blast
  next
    case False
    then have "used_idx (eager_device (s\<lparr>clock := clock s + 0\<rparr>)) \<noteq> l" by (simp add: eager_device_def)
    then show ?thesis by blast
  qed
  then show ?thesis by (simp add: device_completes_def)
qed

lemma always_succeeds: "stores_succeed (\<lambda>_. True)"
  by (auto simp: stores_succeed_def)

definition block_boot :: "(nat \<Rightarrow> u8) \<Rightarrow> block_state" where
  "block_boot slots = \<lparr>blk_mm = boot_state, blk_bus = [], GLOBAL_VIRTIO_ADDRESS = (\<lambda>_. 0),
     virtio_obj = test_virtio, used_request_index = slots, global_count = 0, blk_lock = 0,
     daif = 0, stx_count = 0, desc = (\<lambda>_. \<lparr>desc_addr = 0, desc_len = 0, desc_flags = 0, desc_next = 0\<rparr>),
     avail = \<lparr>avail_flags = 0, avail_idx = 0, avail_ring = (\<lambda>_. 0)\<rparr>,
     requests = (\<lambda>_. \<lparr>req_type = 0, req_reserved = 0, req_sector = 0\<rparr>), clock = 0\<rparr>"

lemma block_boot_simps [simp]:
  "blk_mm (block_boot u) = boot_state" "blk_lock (block_boot u) = 0"
  "used_request_index (block_boot u) = u" "avail (block_boot u) = \<lparr>avail_flags = 0, avail_idx = 0, avail_ring = (\<lambda>_. 0)\<rparr>"
  by (simp_all add: block_boot_def)

theorem block_read_completes_witness:
  "\<exists>r s'. block_read 0x8008e000 (\<lambda>_. True) eager_device 1000 0xFFFF0000C0006000 512 (block_boot (\<lambda>_. 0))
      = Some (Inr (r, s')) \<and> r = 513 \<and> avail_idx (avail s') = 1"
  using block_read_completes [of "0x8008e000" 0 "{}" "block_boot (\<lambda>_. 0)" "\<lambda>_. True" eager_device
      1000 "0xFFFF0000C0006000" 512] boot_state_inv always_succeeds eager_device_completes
  by (auto simp: eager_device_def)

lemma block_write_completes_witness:
  "\<exists>r s'. block_write 0x8008e000 (\<lambda>_. True) eager_device 1000 0xFFFF0000C0006000 100 (block_boot (\<lambda>_. 0))
      = Some (Inr (r, s')) \<and> snd (chain (desc s') 12 0 ! 1) = (512, False)"
  using block_write_completes [of "0x8008e000" 0 "{}" "block_boot (\<lambda>_. 0)" "\<lambda>_. True" eager_device
      1000 "0xFFFF0000C0006000" 100] boot_state_inv always_succeeds eager_device_completes
  by auto

lemma slot_leaks_witness:
  "\<exists>r s'. block_read 0x8008e000 (\<lambda>_. True) eager_device 1000 0xFFFF0000C0006000 512
      (block_boot (\<lambda>i. if i = 0 then 1 else 0)) = Some (Inr (r, s')) \<and> used_request_index s' 1 = 1"
  using slot_leaks [of "0x8008e000" 0 "{}" "block_boot (\<lambda>i. if i = 0 then 1 else 0)" "\<lambda>_. True" eager_device
      1 1000 "0xFFFF0000C0006000" 512] boot_state_inv always_succeeds eager_device_completes
  by auto

lemma chain_published_elsewhere_witness:
  "\<exists>r s'. block_read 0x8008e000 (\<lambda>_. True) eager_device 1000 0xFFFF0000C0006000 512
      (block_boot (\<lambda>i. if i = 0 then 1 else 0)) = Some (Inr (r, s')) \<and>
     avail_ring (avail s') 0 = 0 \<and> avail_ring (avail s') 3 = 3"
  using chain_published_elsewhere [of "0x8008e000" 0 "{}" "block_boot (\<lambda>i. if i = 0 then 1 else 0)" "\<lambda>_. True"
      eager_device 1 1000 "0xFFFF0000C0006000" 512] boot_state_inv always_succeeds eager_device_completes
  by auto

lemma block_request_stuck_witness:
  "block_read 0x8008e000 (\<lambda>_. True) eager_device 1000 0xFFFF0000C0006000 512 (block_boot (\<lambda>_. 1)) = None"
  using block_request_stuck [of "0x8008e000" 0 "{}" "block_boot (\<lambda>_. 1)" "\<lambda>_. True" eager_device
      1000 "0xFFFF0000C0006000" 512] boot_state_inv always_succeeds
  by simp

lemma init_virtio_backend_ready_witness:
  "\<exists>s'. init_virtio_backend 0x8008e000 echo_device 0x0a000000 (block_boot (\<lambda>_. 7)) = Inr s' \<and>
     used_request_index s' 3 = 0 \<and> GLOBAL_VIRTIO_ADDRESS s' 1 = 0xFFFF0000C0003000"
  using init_virtio_backend_ready [of "0x8008e000" 0 "{}" "block_boot (\<lambda>_. 7)" echo_device "0x0a000000"]
    boot_state_inv
  by (auto simp: kva_def)

end
