(* ===== verification/Handlers.thy ===== *)
theory Handlers
  imports Sched BlockDriver
begin

text \<open>
  The C side of the exception vectors, \<^verbatim>\<open>kernel/core/handlers.c\<close>: \<open>irq_dispatcher\<close> over the
  state of the scheduler and the interrupt controller, and \<open>syscall_dispatcher\<close> over the state
  of the block layer.  The vectors pass a pointer to the saved context, which is a number here.
  The output on the serial port is left out.
\<close>

section \<open>Interrupts\<close>

definition timer_irq_handler :: "'a irq_state_scheme \<Rightarrow> 'a irq_state_scheme" where
  "timer_irq_handler s = set_cntv s"

definition check_current_el :: "'a irq_state_scheme \<Rightarrow> u64" where
  "check_current_el s =
    (let spsr = SPSR_EL1 s;
         current_el = drop_bit 2 spsr AND mask 2
     in if current_el = 1 then 1 else 0)"

definition irq_dispatcher :: "device \<Rightarrow> u64 \<Rightarrow> 'a sched_state_scheme \<Rightarrow> u64 \<times> 'a sched_state_scheme" where
  "irq_dispatcher dev ctx s =
    (let (iar, s) = gic_ack dev s;
         irq = iar AND 0x3FF;
         (ctx, s) =
           (if irq = 27 then
              let s = timer_irq_handler s;
                  el = check_current_el s
              in if el = 0 then schedule_on_tick ctx s else (ctx, s)
            else (ctx, s));
         s = gic_eoi iar s
     in (ctx, s))"

section \<open>System calls\<close>

text \<open>
  \<open>stack_data\<close> is the address of the array \<open>data\<close> on the kernel stack.  The prototype of
  \<open>block_write\<close> narrows nothing here: \<open>size\<close> has 64 bits, and the sector is the constant 1000.
\<close>

definition syscall_dispatcher :: "u64 \<Rightarrow> (nat \<Rightarrow> bool) \<Rightarrow> (block_state \<Rightarrow> virtq_used) \<Rightarrow> u64
    \<Rightarrow> u64 \<Rightarrow> u64 \<Rightarrow> u64 \<Rightarrow> u64 \<Rightarrow> block_state \<Rightarrow> (mm_error + u64 \<times> block_state) option" where
  "syscall_dispatcher l2mem stx used stack_data arg1 arg2 arg3 syscall_number s =
    (if syscall_number = 5 then
       (case kmalloc l2mem arg1 (blk_mm s) of
          Inl e \<Rightarrow> Some (Inl e)
        | Inr (result, m) \<Rightarrow> Some (Inr (result, s\<lparr>blk_mm := m\<rparr>)))
     else if syscall_number = 64 then
       Option.bind (block_write l2mem stx used 1000 arg2 arg3 s)
         (\<lambda>r. case r of
                Inl e \<Rightarrow> Some (Inl e)
              | Inr (_, s) \<Rightarrow> block_read l2mem stx used 1000 stack_data 512 s)
     else Some (Inr (0, s)))"

section \<open>Facts\<close>

lemma check_current_el_cases: "check_current_el s = 0 \<or> check_current_el s = 1"
  by (simp add: check_current_el_def Let_def)

lemma gic_ack_simps [simp]:
  "fst (gic_ack dev s) = dev (gic_bus s) (VIRTUAL_GICC + 0x00C)"
  "snd (gic_ack dev s) =
     s\<lparr>gic_bus := gic_bus s @ [BusRead (VIRTUAL_GICC + 0x00C) (dev (gic_bus s) (VIRTUAL_GICC + 0x00C))]\<rparr>"
  by (simp_all add: gic_ack_def r32_def bus_read_def split_beta)

text \<open>The scheduler looks neither at the bus nor at the timer, so the invariant survives their changes.\<close>

lemma sched_inv_irq [simp]:
  "sched_inv (s\<lparr>gic_bus := h\<rparr>) xs k \<longleftrightarrow> sched_inv s xs k"
  "sched_inv (s\<lparr>cntfrq := f, CNTV_TVAL_EL0 := v\<rparr>) xs k \<longleftrightarrow> sched_inv s xs k"
  by (simp_all add: sched_inv_def rq_rep_def next_of_def [abs_def])

lemma sched_inv_el_bits:
  "check_current_el (s\<lparr>gic_bus := h\<rparr>) = check_current_el s"
  "check_current_el (s\<lparr>cntfrq := f, CNTV_TVAL_EL0 := v\<rparr>) = check_current_el s"
  by (simp_all add: check_current_el_def)

lemma rq_push_irq_fields [simp]:
  "gic_bus (rq_push t s) = gic_bus s" "CNTFRQ_EL0 (rq_push t s) = CNTFRQ_EL0 s"
  "CNTV_TVAL_EL0 (rq_push t s) = CNTV_TVAL_EL0 s" "CNTV_CTL_EL0 (rq_push t s) = CNTV_CTL_EL0 s"
  by (simp_all add: rq_push_def upd_task_def)

lemma schedule_next_irq_fields:
  "gic_bus (snd (schedule_next tf s)) = gic_bus s"
  "CNTFRQ_EL0 (snd (schedule_next tf s)) = CNTFRQ_EL0 s"
  "CNTV_TVAL_EL0 s = CNTFRQ_EL0 s div 10 \<Longrightarrow> CNTV_TVAL_EL0 (snd (schedule_next tf s)) = CNTFRQ_EL0 s div 10"
  by (auto simp: schedule_next_def rq_pop_def upd_task_def Let_def set_cntv_eq split_beta)

text \<open>A tick leaves the bus alone and, once the timer is programmed, its interval.\<close>

lemma schedule_on_tick_irq_fields:
  "gic_bus (snd (schedule_on_tick tf s)) = gic_bus s"
  "CNTV_TVAL_EL0 s = CNTFRQ_EL0 s div 10 \<Longrightarrow> CNTV_TVAL_EL0 (snd (schedule_on_tick tf s)) = CNTFRQ_EL0 s div 10"
  by (auto simp: schedule_on_tick_def upd_task_def Let_def schedule_next_irq_fields)

text \<open>The effect of a tick on the run queue, in both cases.\<close>

lemma tick_effect:
  assumes "sched_inv s xs k"
  shows "(if 1 < k then sched_inv (snd (schedule_on_tick tf s)) xs (k - 1) \<and> fst (schedule_on_tick tf s) = tf
     else sched_inv (snd (schedule_on_tick tf s)) (rotate1 xs) 10 \<and>
       fst (schedule_on_tick tf s) = task_context (tasks (snd (schedule_on_tick tf s)) (hd (rotate1 xs))))"
proof (cases "1 < k")
  case True
  then show ?thesis using tick_counts_down [OF assms True] by simp
next
  case False
  then have "k = 1" using assms by (simp add: sched_inv_def)
  then show ?thesis using tick_switches [of s xs] assms by simp
qed

text \<open>The state after the acknowledgement, and after the timer has been programmed.\<close>

definition acknowledged :: "device \<Rightarrow> 'a irq_state_scheme \<Rightarrow> 'a irq_state_scheme" where
  "acknowledged dev s = s\<lparr>gic_bus := gic_bus s @ [BusRead 0xffff00008141000C (dev (gic_bus s) 0xffff00008141000C)]\<rparr>"

definition retimed :: "'a irq_state_scheme \<Rightarrow> 'a irq_state_scheme" where
  "retimed s = s\<lparr>cntfrq := CNTFRQ_EL0 s, CNTV_TVAL_EL0 := CNTFRQ_EL0 s div 10\<rparr>"

lemma retimed_fields:
  "sched_inv (retimed (acknowledged dev s)) xs k \<longleftrightarrow> sched_inv s xs k"
  "CNTV_TVAL_EL0 (retimed (acknowledged dev s)) = CNTFRQ_EL0 (retimed (acknowledged dev s)) div 10"
  "CNTFRQ_EL0 (retimed (acknowledged dev s)) = CNTFRQ_EL0 s" "gic_bus (retimed s) = gic_bus s"
  "tasks (retimed (acknowledged dev s)) = tasks s" "current (retimed (acknowledged dev s)) = current s"
  by (simp_all add: retimed_def acknowledged_def)

lemma irq_dispatcher_eq:
  "irq_dispatcher dev ctx s =
    (let iar = dev (gic_bus s) 0xffff00008141000C;
         (c, t) =
           (if iar AND 0x3FF = 27 then
              if check_current_el s = 0 then schedule_on_tick ctx (retimed (acknowledged dev s))
              else (ctx, retimed (acknowledged dev s))
            else (ctx, acknowledged dev s))
     in (c, t\<lparr>gic_bus := gic_bus t @ [BusWrite 0xffff000081410010 iar]\<rparr>))"
proof -
  have ack: "gic_ack dev s = (dev (gic_bus s) 0xffff00008141000C, acknowledged dev s)"
    by (simp add: prod_eq_iff VIRTUAL_GICC_def acknowledged_def)
  have el: "check_current_el (retimed (acknowledged dev s)) = check_current_el s"
    by (simp add: retimed_def acknowledged_def check_current_el_def)
  show ?thesis
    by (simp add: irq_dispatcher_def ack Let_def timer_irq_handler_def set_cntv_eq retimed_def [symmetric] el
        gic_eoi_def w32_def bus_write_def VIRTUAL_GICC_def split_beta)
qed

text \<open>The \<open>write\<close> system call: two requests through the first slot, four pages of the pool.\<close>

lemma syscall_write_returns:
  assumes "kmalloc_inv l2mem n M (blk_mm s)" and "n + 4 \<le> 512" and "blk_lock s = 0"
    and "stores_succeed stx" and "device_completes used" and "used_request_index s 0 = 0"
  shows "\<exists>r s'. syscall_dispatcher l2mem stx used stack_data fd buff sz 64 s = Some (Inr (r, s')) \<and>
    used_request_index s' = used_request_index s \<and> blk_lock s' = 0 \<and>
    avail_idx (avail s') = avail_idx (avail s) + 2 \<and>
    requests s' (kva n) = \<lparr>req_type = 1, req_reserved = 0, req_sector = 1000\<rparr> \<and>
    requests s' (kva (n + 2)) = \<lparr>req_type = 0, req_reserved = 0, req_sector = 1000\<rparr> \<and>
    chain (desc s') 12 0 =
      [(kpa (n + 2), 16, False), (kernal_to_user_space stack_data, 512, True), (kpa (n + 3), 1, True)] \<and>
    kmalloc_inv l2mem (n + 4) (M \<union> {n..<n + 4}) (blk_mm s')"
proof -
  have free: "free_slot (used_request_index s) 0 = Some 0" using assms(6) by (simp add: free_slot_Some)
  have n2: "n + 2 \<le> 512" "n + 2 + 2 \<le> 512" "n + 2 + 2 = n + 4" using assms(2) by simp_all
  have slot: "(used_request_index s)(0 := 1, 0 := 0) = used_request_index s" using assms(6) by (simp add: fun_upd_idem)
  have fl: "VIRTIO_DESC_F_NEXT AND VIRTIO_DESC_F_NEXT \<noteq> 0"
    "(VIRTIO_DESC_F_NEXT OR VIRTIO_DESC_F_WRITE) AND VIRTIO_DESC_F_NEXT \<noteq> 0"
    "(VIRTIO_DESC_F_NEXT OR VIRTIO_DESC_F_WRITE) AND VIRTIO_DESC_F_WRITE \<noteq> 0"
    by (simp_all add: VIRTIO_DESC_F_NEXT_def VIRTIO_DESC_F_WRITE_def)
  obtain r1 s1 where w: "block_write l2mem stx used 1000 buff sz s = Some (Inr (r1, s1))"
    and w1: "used_request_index s1 = used_request_index s" "blk_lock s1 = 0"
      "avail_idx (avail s1) = avail_idx (avail s) + 1"
      "requests s1 = (requests s)(kva n := \<lparr>req_type = 1, req_reserved = 0, req_sector = 1000\<rparr>)"
      "kmalloc_inv l2mem (n + 2) (M \<union> {n..<n + 2}) (blk_mm s1)"
    using block_request_returns [OF assms(1) n2(1) assms(3-5) free fl(1), of VIRTIO_BLK_T_OUT 1000 buff 512] slot
    by (auto simp: block_write_def VIRTIO_BLK_T_OUT_def)
  obtain r2 s2 where r: "block_read l2mem stx used 1000 stack_data 512 s1 = Some (Inr (r2, s2))"
    and r1: "used_request_index s2 = used_request_index s" "blk_lock s2 = 0"
      "avail_idx (avail s2) = avail_idx (avail s1) + 1"
      "requests s2 = (requests s1)(kva (n + 2) := \<lparr>req_type = 0, req_reserved = 0, req_sector = 1000\<rparr>)"
      "chain (desc s2) 12 0 = [(kpa (n + 2), 16, False), (kernal_to_user_space stack_data, 512, True),
         (kpa (n + 2 + 1), 1, True)]"
      "kmalloc_inv l2mem (n + 2 + 2) (M \<union> {n..<n + 2} \<union> {n + 2..<n + 2 + 2}) (blk_mm s2)"
    using block_request_returns [OF w1(5) n2(2) w1(2) assms(4,5), of 0 "VIRTIO_DESC_F_NEXT OR VIRTIO_DESC_F_WRITE"
        VIRTIO_BLK_T_IN 1000 stack_data 512] free slot fl(2,3) w1(1)
    by (auto simp: block_read_def VIRTIO_BLK_T_IN_def)
  have un: "M \<union> {n..<n + 2} \<union> {n + 2..<n + 4} = M \<union> {n..<n + 4}" by auto
  have inv: "kmalloc_inv l2mem (n + 4) (M \<union> {n..<n + 4}) (blk_mm s2)"
    using r1(6) by (simp only: n2(3) un)
  have ne: "kva n \<noteq> kva (n + 2)" using assms(2) by (simp add: kva_def)
  have idx: "n + 2 + 1 = n + 3" "avail_idx (avail s) + 1 + 1 = avail_idx (avail s) + 2" by simp_all
  show ?thesis
    using w r r1(1-5)[unfolded w1(3,4) idx] inv ne
    by (intro exI [of _ r2] exI [of _ s2]) (simp add: syscall_dispatcher_def)
qed

text \<open>Every interrupt keeps the invariant of the scheduler; only a timer tick of a program moves it.\<close>

lemma irq_dispatcher_inv:
  assumes "sched_inv s xs k"
  shows "let (ys, j) = (if dev (gic_bus s) 0xffff00008141000C AND 0x3FF = 27 \<and> check_current_el s = 0
      then if 1 < k then (xs, k - 1) else (rotate1 xs, 10) else (xs, k))
    in sched_inv (snd (irq_dispatcher dev ctx s)) ys j"
proof -
  have inv: "sched_inv (acknowledged dev s) xs k" "sched_inv (retimed (acknowledged dev s)) xs k"
    using assms by (simp add: acknowledged_def) (simp add: retimed_fields assms)
  show ?thesis
    using tick_effect [OF inv(2), where tf = ctx] inv by (auto simp: irq_dispatcher_eq Let_def split_beta)
qed

section \<open>Properties\<close>

text \<open>
  C32. The interrupt dispatcher.  Every interrupt is acknowledged once and its end is signalled
  once, last and with the acknowledged value.  An interrupt other than the timer changes
  nothing else.  The timer interrupt programs the next interval; it takes a tick of the
  scheduler when it interrupted a user program, and returns to the interrupted code without
  touching the scheduler when the status register says that the kernel was running.
\<close>

theorem irq_dispatcher_effect:
  assumes "sched_inv s xs k"
  shows "case irq_dispatcher dev ctx s of (c, s') \<Rightarrow>
    let iar = dev (gic_bus s) 0xffff00008141000C in
      gic_bus s' = gic_bus s @ [BusRead 0xffff00008141000C iar, BusWrite 0xffff000081410010 iar] \<and>
      (if iar AND 0x3FF \<noteq> 27 then c = ctx \<and> s' = s\<lparr>gic_bus := gic_bus s'\<rparr>
       else CNTV_TVAL_EL0 s' = CNTFRQ_EL0 s div 10 \<and>
         (if check_current_el s = 1 then c = ctx \<and> tasks s' = tasks s \<and> sched_inv s' xs k
          else if 1 < k then c = ctx \<and> sched_inv s' xs (k - 1)
          else c = task_context (tasks s' (hd (rotate1 xs))) \<and> sched_inv s' (rotate1 xs) 10))"
proof -
  let ?s2 = "retimed (acknowledged dev s)"
  have inv: "sched_inv ?s2 xs k" using assms by (simp add: retimed_fields)
  note fields = schedule_on_tick_irq_fields [where tf = ctx and s = ?s2] tick_effect [OF inv, where tf = ctx]
  have bus: "gic_bus (acknowledged dev s) = gic_bus s @ [BusRead 0xffff00008141000C (dev (gic_bus s) 0xffff00008141000C)]"
    by (simp add: acknowledged_def)
  show ?thesis
    using fields inv check_current_el_cases [of s] bus
    by (auto simp: irq_dispatcher_eq Let_def split_beta retimed_fields) (simp_all add: acknowledged_def)
qed


section \<open>The properties at concrete states\<close>

text \<open>A controller that reports the timer interrupt, and two tasks in the queue.\<close>

definition timer_fires :: device where
  "timer_fires h a = 27"

theorem irq_dispatcher_effect_witness:
  "\<exists>s :: sched_state. SPSR_EL1 s = 0 \<and>
     (case irq_dispatcher timer_fires 0x9000 s of (c, s') \<Rightarrow>
        c = 0x9000 \<and> sched_inv s' [0x1000, 0x2000] 9 \<and> CNTV_TVAL_EL0 s' = 6250000)"
proof -
  let ?s = "sched_set_current 0x1000 (fold sched_ready_enqueue [0x1000, 0x2000] idle_sched)"
  have i: "sched_inv ?s [0x1000, 0x2000] 10"
    using boot_sched_inv [of idle_sched "[0x1000, 0x2000]"] by simp
  have f: "SPSR_EL1 ?s = 0" "CNTFRQ_EL0 ?s = 62500000"
    by (simp_all add: idle_sched_def sched_set_current_def sched_ready_enqueue_def rq_push_def upd_task_def)
  then have "check_current_el ?s = 0" by (simp add: check_current_el_def)
  then show ?thesis
    using irq_dispatcher_effect [OF i, where dev = timer_fires and ctx = "0x9000"] f
    by (intro exI [of _ ?s]) (simp add: split_beta Let_def timer_fires_def)
qed


end
