(* ===== verification/Vectors.thy ===== *)
theory Vectors
  imports Sched
begin

text \<open>
  The exception vectors \<^verbatim>\<open>kernel/arch/aarch64/vectors.s\<close>, instruction by instruction: the
  macros \<open>SAVE_CONTEXT\<close> and \<open>RESTORE_AND_ERET\<close> and the entries that use them.  The machine has
  the general registers, the banked stack pointers, the exception registers and a memory of
  64 bit words named by their byte address (all accesses of the vectors are 8 byte accesses at
  multiples of 8).  \<open>SP\<close> is the stack pointer of EL1, the one the vectors call \<open>sp\<close>.  The C functions the entries call are parameters: functions on the machine.
\<close>

section \<open>The machine\<close>

record machine =
  X :: "nat \<Rightarrow> u64"
  SP :: u64
  SP_EL0 :: u64
  PC :: u64
  PSTATE :: u64
  ELR :: u64
  SPSR :: u64
  TTBR0 :: u64
  ESR :: u64
  words :: "u64 \<Rightarrow> u64"

definition str :: "nat \<Rightarrow> u64 \<Rightarrow> machine \<Rightarrow> machine" where
  "str a off s = s\<lparr>words := (words s)(SP s + off := X s a)\<rparr>"

definition stp :: "nat \<Rightarrow> nat \<Rightarrow> u64 \<Rightarrow> machine \<Rightarrow> machine" where
  "stp a b off s = s\<lparr>words := (words s)(SP s + off := X s a, SP s + (off + 8) := X s b)\<rparr>"

definition ldr :: "nat \<Rightarrow> u64 \<Rightarrow> machine \<Rightarrow> machine" where
  "ldr a off s = s\<lparr>X := (X s)(a := words s (SP s + off))\<rparr>"

definition ldp :: "nat \<Rightarrow> nat \<Rightarrow> u64 \<Rightarrow> machine \<Rightarrow> machine" where
  "ldp a b off s = s\<lparr>X := (X s)(a := words s (SP s + off), b := words s (SP s + (off + 8)))\<rparr>"

definition mov_x :: "nat \<Rightarrow> u64 \<Rightarrow> machine \<Rightarrow> machine" where
  "mov_x a v s = s\<lparr>X := (X s)(a := v)\<rparr>"

definition eret :: "machine \<Rightarrow> machine" where
  "eret s = s\<lparr>PC := ELR s, PSTATE := SPSR s\<rparr>"

text \<open>What the processor does when it takes an interrupt, up to the first instruction at \<open>vector\<close>.\<close>

definition take_exception :: "u64 \<Rightarrow> machine \<Rightarrow> machine" where
  "take_exception vector s = s\<lparr>ELR := PC s, SPSR := PSTATE s, PC := vector, PSTATE := 0x3c5\<rparr>"

section \<open>The macros\<close>

definition CTX_TTBR0_EL1 :: u64 where "CTX_TTBR0_EL1 = 34 * 8"
definition CTX_SPSR :: u64 where "CTX_SPSR = 33 * 8"
definition CTX_ELR :: u64 where "CTX_ELR = 32 * 8"
definition CTX_SP_EL0 :: u64 where "CTX_SP_EL0 = 31 * 8"
definition CTX_SIZE :: u64 where "CTX_SIZE = 34 * 8"

definition SAVE_CONTEXT :: "machine \<Rightarrow> machine" where
  "SAVE_CONTEXT s =
    (let s = s\<lparr>SP := SP s - CTX_SIZE\<rparr>;
         s = fold (\<lambda>i. stp (2 * i) (2 * i + 1) (of_nat i * 16)) [0..<15] s;
         s = str 30 (15 * 16) s;
         s = mov_x 0 (SP_EL0 s) s;
         s = str 0 CTX_SP_EL0 s;
         s = mov_x 0 (ELR s) s;
         s = str 0 CTX_ELR s;
         s = mov_x 0 (SPSR s) s;
         s = str 0 CTX_SPSR s;
         s = mov_x 0 (TTBR0 s) s
     in str 0 CTX_TTBR0_EL1 s)"

definition RESTORE_AND_ERET :: "machine \<Rightarrow> machine" where
  "RESTORE_AND_ERET s =
    (let s = ldr 1 CTX_TTBR0_EL1 s;
         s = s\<lparr>TTBR0 := X s 1\<rparr>;
         s = ldr 1 CTX_SP_EL0 s;
         s = s\<lparr>SP_EL0 := X s 1\<rparr>;
         s = ldr 1 CTX_ELR s;
         s = s\<lparr>ELR := X s 1\<rparr>;
         s = ldr 1 CTX_SPSR s;
         s = s\<lparr>SPSR := X s 1\<rparr>;
         s = ldr 30 (15 * 16) s;
         s = fold (\<lambda>i. ldp (2 * i) (2 * i + 1) (of_nat i * 16)) (rev [0..<15]) s;
         s = s\<lparr>SP := SP s + CTX_SIZE\<rparr>
     in eret s)"

section \<open>The entries\<close>

text \<open>\<open>irq_dispatcher\<close> and \<open>syscall_dispatcher\<close> are the C functions as the vectors see them.\<close>

definition el1_irq_entry :: "(machine \<Rightarrow> machine) \<Rightarrow> machine \<Rightarrow> machine" where
  "el1_irq_entry irq_dispatcher s =
    (let s = SAVE_CONTEXT s;
         s = mov_x 0 (SP s) s;
         s = irq_dispatcher s;
         s = s\<lparr>SP := X s 0\<rparr>
     in RESTORE_AND_ERET s)"

definition el0_sync_entry :: "(machine \<Rightarrow> machine) \<Rightarrow> machine \<Rightarrow> machine" where
  "el0_sync_entry syscall_dispatcher s =
    (let s = SAVE_CONTEXT s;
         s = mov_x 10 (ESR s) s;
         s = mov_x 11 (drop_bit 26 (X s 10)) s
     in if X s 11 \<noteq> 0x15 then eret s
     else RESTORE_AND_ERET (syscall_dispatcher (mov_x 7 (X s 8) s)))"

definition el1_sync_entry :: "(machine \<Rightarrow> machine) \<Rightarrow> machine \<Rightarrow> machine" where
  "el1_sync_entry syscall_dispatcher s =
    (let s = mov_x 10 (ESR s) s;
         s = mov_x 11 (drop_bit 26 (X s 10)) s
     in if X s 11 \<noteq> 0x15 then eret s else eret (syscall_dispatcher s))"

definition first_user_enter :: "machine \<Rightarrow> machine" where
  "first_user_enter s = RESTORE_AND_ERET (s\<lparr>SP := X s 0\<rparr>)"

section \<open>Contexts in memory\<close>

text \<open>The context a frame holds, and the context of the program that runs.\<close>

definition context_at :: "(u64 \<Rightarrow> u64) \<Rightarrow> u64 \<Rightarrow> Context" where
  "context_at m a = \<lparr>x_regs = map (\<lambda>i. m (a + of_nat i * 8)) [0..<31],
     sp_el0 = m (a + CTX_SP_EL0), elr_el1 = m (a + CTX_ELR), spsr_el1 = m (a + CTX_SPSR),
     ttbr0_el1 = m (a + CTX_TTBR0_EL1)\<rparr>"

definition running :: "machine \<Rightarrow> Context" where
  "running s = \<lparr>x_regs = map (X s) [0..<31], sp_el0 = SP_EL0 s, elr_el1 = PC s, spsr_el1 = PSTATE s,
     ttbr0_el1 = TTBR0 s\<rparr>"

lemmas vector_defs = str_def stp_def ldr_def ldp_def mov_x_def eret_def CTX_TTBR0_EL1_def CTX_SPSR_def
  CTX_ELR_def CTX_SP_EL0_def CTX_SIZE_def

lemma upt_15: "[0..<15] = [0, 1, 2, 3, 4, 5, 6, 7, 8, 9, 10, 11, 12, 13, 14]"
  by (simp add: upt_rec)

lemma upt_31: "[0..<31] = [0, 1, 2, 3, 4, 5, 6, 7, 8, 9, 10, 11, 12, 13, 14, 15, 16, 17, 18, 19, 20, 21, 22,
    23, 24, 25, 26, 27, 28, 29, 30]"
  by (simp add: upt_rec)

lemma SAVE_CONTEXT_frame:
  "context_at (words (SAVE_CONTEXT s)) (SP s - CTX_SIZE) =
    \<lparr>x_regs = map (X s) [0..<31], sp_el0 = SP_EL0 s, elr_el1 = ELR s, spsr_el1 = SPSR s, ttbr0_el1 = TTBR0 s\<rparr>"
  by (simp add: SAVE_CONTEXT_def Let_def upt_15 upt_31 context_at_def vector_defs)

lemma SAVE_CONTEXT_rest:
  "SP (SAVE_CONTEXT s) = SP s - CTX_SIZE" "ESR (SAVE_CONTEXT s) = ESR s" "X (SAVE_CONTEXT s) 8 = X s 8"
  "X (SAVE_CONTEXT s) 0 = TTBR0 s" "X (SAVE_CONTEXT s) (Suc 0) = X s (Suc 0)" "X (SAVE_CONTEXT s) 2 = X s 2"
  "words (SAVE_CONTEXT s) (SP s) = TTBR0 s"
  "ELR (SAVE_CONTEXT s) = ELR s" "SPSR (SAVE_CONTEXT s) = SPSR s"
  by (simp_all add: SAVE_CONTEXT_def Let_def upt_15 vector_defs)

lemma RESTORE_running:
  "running (RESTORE_AND_ERET s) = context_at (words s) (SP s)"
  by (simp add: RESTORE_AND_ERET_def Let_def upt_15 upt_31 running_def context_at_def vector_defs)

lemma RESTORE_rest: "SP (RESTORE_AND_ERET s) = SP s + CTX_SIZE" "words (RESTORE_AND_ERET s) = words s"
  by (simp_all add: RESTORE_AND_ERET_def Let_def upt_15 vector_defs)

section \<open>Frames\<close>

definition frame :: "u64 \<Rightarrow> u64 set" where
  "frame a = (\<lambda>i. a + of_nat i * 8) ` {..<35}"

lemma frame_mem: "i < 35 \<Longrightarrow> a + of_nat i * 8 \<in> frame a"
  by (simp add: frame_def)

lemma context_at_cong:
  assumes "\<And>b. b \<in> frame a \<Longrightarrow> m b = m' b"
  shows "context_at m a = context_at m' a"
proof -
  have w: "m (a + of_nat i * 8) = m' (a + of_nat i * 8)" if "i < 35" for i
    by (rule assms) (rule frame_mem [OF that])
  show ?thesis
    using w [of 31] w [of 32] w [of 33] w [of 34] w
    by (auto simp: context_at_def CTX_SP_EL0_def CTX_ELR_def CTX_SPSR_def CTX_TTBR0_EL1_def)
qed

lemma stp_words:
  "b \<notin> {SP s + off, SP s + (off + 8)} \<Longrightarrow> words (stp x y off s) b = words s b"
  "SP (stp x y off s) = SP s"
  by (auto simp: stp_def)

lemma SAVE_CONTEXT_outside:
  assumes "b \<notin> frame (SP s - CTX_SIZE)"
  shows "words (SAVE_CONTEXT s) b = words s b"
proof -
  let ?a = "SP s - CTX_SIZE"
  have n: "b \<noteq> ?a + of_nat i * 8" if "i < 35" for i
    using assms frame_mem [OF that] by auto
  have p: "words (fold (\<lambda>i. stp (2 * i) (2 * i + 1) (of_nat i * 16)) is t) b = words t b \<and>
      SP (fold (\<lambda>i. stp (2 * i) (2 * i + 1) (of_nat i * 16)) is t) = SP t"
    if "SP t = ?a" "set is \<subseteq> {..<15}" for "is" t
    using that
  proof (induction "is" arbitrary: t)
    case (Cons i "is")
    have "i < 15" using Cons.prems(2) by simp
    then have "b \<notin> {?a + of_nat i * 16, ?a + (of_nat i * 16 + 8)}"
      using n [of "2 * i"] n [of "2 * i + 1"] by (auto simp: algebra_simps)
    then show ?case using Cons by (simp add: stp_words)
  qed simp
  have "b \<noteq> ?a + 240" "b \<noteq> ?a + 248" "b \<noteq> ?a + 256" "b \<noteq> ?a + 264" "b \<noteq> ?a + 272"
    using n [of 30] n [of 31] n [of 32] n [of 33] n [of 34] by simp_all
  then show ?thesis
    using p [of "s\<lparr>SP := ?a\<rparr>" "[0..<15]"]
    by (simp add: SAVE_CONTEXT_def Let_def str_def mov_x_def CTX_TTBR0_EL1_def CTX_SPSR_def CTX_ELR_def
        CTX_SP_EL0_def lessThan_def subset_iff)
qed

lemma take_exception_simps [simp]:
  "SP (take_exception v s) = SP s" "X (take_exception v s) = X s" "SP_EL0 (take_exception v s) = SP_EL0 s"
  "TTBR0 (take_exception v s) = TTBR0 s" "words (take_exception v s) = words s"
  "ELR (take_exception v s) = PC s" "SPSR (take_exception v s) = PSTATE s" "ESR (take_exception v s) = ESR s"
  by (simp_all add: take_exception_def)

text \<open>After an exception the frame below the stack pointer holds the context that was running.\<close>

lemma frame_running: "context_at (words (SAVE_CONTEXT (take_exception v s))) (SP s - CTX_SIZE) = running s"
  using SAVE_CONTEXT_frame [of "take_exception v s"] by (simp add: running_def)

lemma mov_x_simps [simp]:
  "words (mov_x a v s) = words s" "SP (mov_x a v s) = SP s" "X (mov_x a v s) b = (if b = a then v else X s b)"
  "ELR (mov_x a v s) = ELR s" "SPSR (mov_x a v s) = SPSR s" "ESR (mov_x a v s) = ESR s"
  by (simp_all add: mov_x_def)

text \<open>
  The vector around a dispatcher that returns the frame \<open>c\<close>: memory outside the new frame is
  what the dispatcher leaves, the new frame holds what was running, and the frame \<open>c\<close> runs.
\<close>

lemma el1_irq_entry_switch:
  fixes s :: machine and disp :: "machine \<Rightarrow> machine" and v :: u64
  assumes "\<forall>t. X (disp t) 0 = c" and "\<forall>t. \<forall>a \<in> K. words (disp t) a = words t a"
    and "frame (SP s - CTX_SIZE) \<subseteq> K"
  defines "s' \<equiv> el1_irq_entry disp (take_exception v s)"
  shows "running s' = context_at (words s') c" "SP s' = c + CTX_SIZE"
    "context_at (words s') (SP s - CTX_SIZE) = running s"
    "\<And>b. b \<in> K \<Longrightarrow> b \<notin> frame (SP s - CTX_SIZE) \<Longrightarrow> words s' b = words s b"
proof -
  let ?t = "mov_x 0 (SP s - CTX_SIZE) (SAVE_CONTEXT (take_exception v s))"
  have e: "s' = RESTORE_AND_ERET ((disp ?t)\<lparr>SP := c\<rparr>)"
    using assms(1) by (simp add: s'_def el1_irq_entry_def Let_def SAVE_CONTEXT_rest)
  then show "running s' = context_at (words s') c" "SP s' = c + CTX_SIZE"
    by (simp_all add: RESTORE_running RESTORE_rest)
  have w: "words s' = words (disp ?t)" by (simp add: e RESTORE_rest)
  show "context_at (words s') (SP s - CTX_SIZE) = running s"
  proof -
    have "context_at (words (disp ?t)) (SP s - CTX_SIZE) = context_at (words ?t) (SP s - CTX_SIZE)"
      by (rule context_at_cong) (use assms(2,3) in blast)
    then show ?thesis using frame_running [of v s] by (simp add: w)
  qed
  show "words s' b = words s b" if "b \<in> K" "b \<notin> frame (SP s - CTX_SIZE)" for b
    using that assms(2) SAVE_CONTEXT_outside [of b "take_exception v s"] by (simp add: w)
qed

section \<open>Properties\<close>

text \<open>
  C6. The context switch.  An interrupt saves the interrupted program in the frame below its
  stack pointer, whatever the dispatcher returns.  When the dispatcher returns that frame the
  program goes on with every register, its stack pointers, its table base and its status as
  they were; when it returns another frame, disjoint from it, the program saved there runs.
  The dispatcher is any function that returns the address \<open>c\<close> and keeps the two frames.
\<close>

theorem context_switch:
  assumes "\<forall>t. X (disp t) 0 = c"
    and "\<forall>t. \<forall>a \<in> frame c \<union> frame (SP s - CTX_SIZE). words (disp t) a = words t a"
    and "c = SP s - CTX_SIZE \<or> frame c \<inter> frame (SP s - CTX_SIZE) = {}"
  shows "case el1_irq_entry disp (take_exception v s) of s' \<Rightarrow>
    running s' = (if c = SP s - CTX_SIZE then running s else context_at (words s) c) \<and>
    SP s' = c + CTX_SIZE \<and>
    context_at (words s') (SP s - CTX_SIZE) = running s"
proof -
  let ?s' = "el1_irq_entry disp (take_exception v s)"
  note sw = el1_irq_entry_switch [where disp = disp and c = c and K = "frame c \<union> frame (SP s - CTX_SIZE)"
      and s = s and v = v]
  have "context_at (words ?s') c = context_at (words s) c" if "frame c \<inter> frame (SP s - CTX_SIZE) = {}"
  proof (rule context_at_cong)
    fix b assume "b \<in> frame c"
    then show "words ?s' b = words s b" using that assms(1,2) by (intro sw(4)) auto
  qed
  moreover have "running ?s' = context_at (words ?s') c" "SP ?s' = c + CTX_SIZE"
    "context_at (words ?s') (SP s - CTX_SIZE) = running s"
    using sw(1-3) assms(1,2) by auto
  ultimately show ?thesis using assms(3) by auto
qed

text \<open>
  C38. The frame is one word too short: \<open>CTX_SIZE\<close> counts 34 words, but the table base is stored
  as word 34.  An interrupt that arrives while the kernel itself runs therefore overwrites the
  word its stack pointer points to with \<open>TTBR0_EL1\<close>, although the dispatcher returns to the
  interrupted code.
\<close>

theorem irq_overwrites_stack_word:
  assumes "\<forall>t. X (disp t) 0 = SP s - CTX_SIZE" and "\<forall>t. words (disp t) (SP s) = words t (SP s)"
  shows "words (el1_irq_entry disp (take_exception v s)) (SP s) = TTBR0 s"
  using assms SAVE_CONTEXT_rest(7) [of "take_exception v s"]
  by (simp add: el1_irq_entry_def Let_def RESTORE_rest)

text \<open>
  A system call from user space: the dispatcher is called with the number in \<open>x7\<close> and the
  second and third argument in place, but \<open>SAVE_CONTEXT\<close> has left the table base in \<open>x0\<close>, so
  the first argument is \<open>TTBR0_EL1\<close>; and what the dispatcher returns in \<open>x0\<close> is overwritten by
  the saved registers, so the program never sees a result.
\<close>

lemma syscall_arguments_and_result:
  assumes "drop_bit 26 (ESR s) = 0x15" and "\<forall>t. SP (disp t) = SP t"
    and "\<forall>t. \<forall>a \<in> frame (SP s - CTX_SIZE). words (disp t) a = words t a"
  shows "\<exists>t. el0_sync_entry disp (take_exception v s) = RESTORE_AND_ERET (disp t) \<and>
    X t 0 = TTBR0 s \<and> X t 1 = X s 1 \<and> X t 2 = X s 2 \<and> X t 7 = X s 8 \<and>
    running (el0_sync_entry disp (take_exception v s)) = running s"
proof -
  let ?s = "SAVE_CONTEXT (take_exception v s)"
  define t where "t = mov_x 7 (X s 8) (mov_x 11 (drop_bit 26 (ESR s)) (mov_x 10 (ESR s) ?s))"
  have e: "el0_sync_entry disp (take_exception v s) = RESTORE_AND_ERET (disp t)"
    using assms(1) by (simp add: el0_sync_entry_def Let_def SAVE_CONTEXT_rest t_def)
  have "context_at (words (disp t)) (SP s - CTX_SIZE) = running s"
    using context_at_cong [of "SP s - CTX_SIZE" "words (disp t)" "words t"] assms(3) frame_running [of v s]
    by (simp add: t_def)
  then have "running (RESTORE_AND_ERET (disp t)) = running s"
    by (simp add: RESTORE_running assms(2)) (simp add: t_def SAVE_CONTEXT_rest)
  then show ?thesis by (intro exI [of _ t]) (simp add: e, simp add: t_def SAVE_CONTEXT_rest)
qed

text \<open>
  A fault of a user program is never handled: the entry returns to the faulting instruction
  with the frame still on the kernel stack.  After \<open>n\<close> faults the program counter has not
  moved and \<open>272 * n\<close> bytes of the kernel stack are gone.
\<close>

lemma fault_loop_eats_stack:
  assumes "drop_bit 26 (ESR s) \<noteq> 0x15"
  shows "case ((\<lambda>s. el0_sync_entry disp (take_exception v s)) ^^ n) s of s' \<Rightarrow>
    PC s' = PC s \<and> SP s' = SP s - of_nat n * 272 \<and> ESR s' = ESR s"
proof (induction n)
  case (Suc n)
  have step: "PC (el0_sync_entry disp (take_exception v t)) = PC t \<and>
      SP (el0_sync_entry disp (take_exception v t)) = SP t - 272 \<and> ESR (el0_sync_entry disp (take_exception v t)) = ESR t"
    if "ESR t = ESR s" for t
    using assms that by (simp add: el0_sync_entry_def Let_def SAVE_CONTEXT_rest eret_def CTX_SIZE_def)
  let ?t = "((\<lambda>s. el0_sync_entry disp (take_exception v s)) ^^ n) s"
  have "PC ?t = PC s" "SP ?t = SP s - of_nat n * 272" "ESR ?t = ESR s" using Suc.IH by simp_all
  then show ?case using step [of ?t] by simp
qed simp

section \<open>The properties at concrete states\<close>

definition user_machine :: machine where
  "user_machine = \<lparr>X = of_nat, SP = 0xFFFF0000C0004FF0, SP_EL0 = 0xC0006000, PC = 0x80001000, PSTATE = 0,
     ELR = 0, SPSR = 0, TTBR0 = 0x80084000, ESR = 0x56000000, words = (\<lambda>_. 7)\<rparr>"

theorem context_switch_witness:
  "running (el1_irq_entry (mov_x 0 0xFFFF0000C0004EE0) (take_exception 0xFFFF000080000480 user_machine))
     = running user_machine"
  using context_switch [of "mov_x 0 0xFFFF0000C0004EE0" "0xFFFF0000C0004EE0" user_machine "0xFFFF000080000480"]
  by (simp add: user_machine_def CTX_SIZE_def)

theorem irq_overwrites_stack_word_witness:
  "words user_machine (SP user_machine) = 7 \<and>
   words (el1_irq_entry (mov_x 0 0xFFFF0000C0004EE0) (take_exception 0xFFFF000080000280 user_machine))
     (SP user_machine) = 0x80084000"
  using irq_overwrites_stack_word [of "mov_x 0 0xFFFF0000C0004EE0" user_machine "0xFFFF000080000280"]
  by (simp add: user_machine_def CTX_SIZE_def)

lemma syscall_arguments_and_result_witness:
  "\<exists>t :: machine. X t 0 = 0x80084000 \<and> X t 7 = 8 \<and>
     running (el0_sync_entry (mov_x 0 42) (take_exception 0xFFFF000080000400 user_machine)) = running user_machine"
proof -
  have svc: "drop_bit 26 (ESR user_machine) = 0x15" by (simp add: user_machine_def)
  obtain t :: machine where "X t 0 = TTBR0 user_machine" "X t 7 = X user_machine 8"
    "running (el0_sync_entry (mov_x 0 42) (take_exception 0xFFFF000080000400 user_machine)) = running user_machine"
    using syscall_arguments_and_result [OF svc, of "mov_x 0 42" "0xFFFF000080000400"] by auto
  then show ?thesis by (intro exI [of _ t]) (simp, simp add: user_machine_def)
qed

lemma fault_loop_eats_stack_witness:
  "SP (((\<lambda>s. el0_sync_entry id (take_exception 0xFFFF000080000400 s)) ^^ 15)
      (user_machine\<lparr>ESR := 0x92000007\<rparr>)) = 0xFFFF0000C0004000"
  using fault_loop_eats_stack [where s = "user_machine\<lparr>ESR := 0x92000007\<rparr>" and disp = id
      and v = "0xFFFF000080000400" and n = 15]
  by (simp add: user_machine_def)

end
