(* ===== verification/Fuzz.thy ===== *)
theory Fuzz
  imports Prelude "HOL-Library.Sublist"
begin

text \<open>
  The user space fuzzer of netdevsim, \<^verbatim>\<open>fuzzing/fuzz_nsim.c\<close>: the operations of \<open>do_op\<close>, the
  sequence that \<open>LLVMFuzzerTestOneInput\<close> cuts out of the input, and the two threads that run
  it.  What a thread does to the system is the list of its writes to sysfs, its shell commands
  and its sleeps.  What the system answers is a parameter: the paths \<open>glob\<close> finds after the
  actions so far (any function, so it may reflect what the other thread does), and the outcome
  of \<open>malloc\<close> for each call: by its place in the code (0 for the head and the loop, 1 and 2 for
  the two deletions) and the number of the slice.
\<close>

section \<open>The system calls\<close>

datatype action = SysfsWrite string string | Shell string | Sleep nat

type_synonym glob_result = "action list \<Rightarrow> string list"

text \<open>\<open>snprintf\<close> into a buffer of \<open>n\<close> bytes: the length of the full text, and what is stored.\<close>

definition snprintf :: "nat \<Rightarrow> string \<Rightarrow> nat \<times> string" where
  "snprintf n s = (length s, take (n - 1) s)"

text \<open>The conversions \<open>%d\<close> and \<open>%u\<close> of a number that is not negative, and \<open>%02x\<close> of a byte.\<close>

fun dec_string :: "nat \<Rightarrow> string" where
  "dec_string n = (if n < 10 then [char_of (48 + n)] else dec_string (n div 10) @ [char_of (48 + n mod 10)])"

declare dec_string.simps [simp del]

definition hex_digit :: "nat \<Rightarrow> char" where
  "hex_digit n = (if n < 10 then char_of (48 + n) else char_of (87 + n))"

definition hex2 :: "u8 \<Rightarrow> string" where
  "hex2 b = [hex_digit (unat b div 16), hex_digit (unat b mod 16)]"

definition write_sysfs :: "string \<Rightarrow> string \<Rightarrow> nat \<Rightarrow> action list \<Rightarrow> action list" where
  "write_sysfs path buf len w = w @ [SysfsWrite path (take len buf)]"

definition nsim_new :: "nat \<Rightarrow> nat \<Rightarrow> action list \<Rightarrow> action list" where
  "nsim_new dev ports w =
    (let (n, b) = snprintf 64 (dec_string dev @ '' '' @ dec_string ports)
     in write_sysfs ''/sys/bus/netdevsim/new_device'' b n w)"

definition nsim_del :: "nat \<Rightarrow> action list \<Rightarrow> action list" where
  "nsim_del dev w =
    (let (n, b) = snprintf 32 (dec_string dev) in write_sysfs ''/sys/bus/netdevsim/del_device'' b n w)"

definition sh :: "string \<Rightarrow> action list \<Rightarrow> action list" where
  "sh cmd w = w @ [Shell cmd]"

text \<open>The name after the last slash of the first path, cut to the buffer of 64 bytes.\<close>

definition first_nsim_if :: "glob_result \<Rightarrow> action list \<Rightarrow> string" where
  "first_nsim_if glob w =
    (case glob w of
       [] \<Rightarrow> []
     | p # _ \<Rightarrow>
         if CHR ''/'' \<in> set p then
           let name = rev (takeWhile (\<lambda>c. c \<noteq> CHR ''/'') (rev p))
           in if name \<noteq> [] then snd (snprintf 64 name) else []
         else [])"

definition ip_text :: "string \<Rightarrow> string \<Rightarrow> u8 \<Rightarrow> u8 \<Rightarrow> u8 \<Rightarrow> u8 \<Rightarrow> u8 \<Rightarrow> string" where
  "ip_text verb ifn a b c d plen =
     ''ip addr '' @ verb @ '' '' @ dec_string (unat a) @ ''.'' @ dec_string (unat b) @ ''.'' @
     dec_string (unat c) @ ''.'' @ dec_string (unat d) @ ''/'' @ dec_string (unat plen) @
     '' dev '' @ ifn @ '' 2>/dev/null''"

definition ip_add :: "string \<Rightarrow> u8 \<Rightarrow> u8 \<Rightarrow> u8 \<Rightarrow> u8 \<Rightarrow> u8 \<Rightarrow> action list \<Rightarrow> action list" where
  "ip_add ifn a b c d plen w = sh (snd (snprintf 256 (ip_text ''add'' ifn a b c d plen))) w"

definition ip_del :: "string \<Rightarrow> u8 \<Rightarrow> u8 \<Rightarrow> u8 \<Rightarrow> u8 \<Rightarrow> u8 \<Rightarrow> action list \<Rightarrow> action list" where
  "ip_del ifn a b c d plen w = sh (snd (snprintf 256 (ip_text ''del'' ifn a b c d plen))) w"

definition link_text :: "string \<Rightarrow> bool \<Rightarrow> string" where
  "link_text ifn up = ''ip link set '' @ ifn @ '' '' @ (if up then ''up'' else ''down'') @ '' 2>/dev/null''"

definition link_set :: "string \<Rightarrow> bool \<Rightarrow> action list \<Rightarrow> action list" where
  "link_set ifn up w = sh (snd (snprintf 128 (link_text ifn up))) w"

definition mtu_text :: "string \<Rightarrow> nat \<Rightarrow> string" where
  "mtu_text ifn mtu = ''ip link set '' @ ifn @ '' mtu '' @ dec_string mtu @ '' 2>/dev/null''"

definition set_mtu :: "string \<Rightarrow> nat \<Rightarrow> action list \<Rightarrow> action list" where
  "set_mtu ifn mtu w = sh (snd (snprintf 128 (mtu_text ifn mtu))) w"

definition mac_text :: "string \<Rightarrow> u8 list \<Rightarrow> string" where
  "mac_text ifn mac = ''ip link set dev '' @ ifn @ '' address '' @ hex2 (mac ! 0) @ '':'' @ hex2 (mac ! 1) @
     '':'' @ hex2 (mac ! 2) @ '':'' @ hex2 (mac ! 3) @ '':'' @ hex2 (mac ! 4) @ '':'' @ hex2 (mac ! 5) @
     '' 2>/dev/null''"

definition change_mac :: "string \<Rightarrow> u8 list \<Rightarrow> action list \<Rightarrow> action list" where
  "change_mac ifn mac w = sh (snd (snprintf 256 (mac_text ifn mac))) w"

section \<open>Operations\<close>

definition OP_CREATE :: u8 where "OP_CREATE = 0"
definition OP_ADDR_ADD :: u8 where "OP_ADDR_ADD = 1"
definition OP_ADDR_DEL :: u8 where "OP_ADDR_DEL = 2"
definition OP_LINK_UP :: u8 where "OP_LINK_UP = 3"
definition OP_LINK_DOWN :: u8 where "OP_LINK_DOWN = 4"
definition OP_DEL :: u8 where "OP_DEL = 5"
definition OP_DOUBLE_DEL :: u8 where "OP_DOUBLE_DEL = 6"
definition OP_CHG_MTU :: u8 where "OP_CHG_MTU = 7"
definition OP_CHG_MAC :: u8 where "OP_CHG_MAC = 8"

text \<open>Byte \<open>k\<close> of the slice when it has one, and a default otherwise.\<close>

definition byte_or :: "u8 list \<Rightarrow> nat \<Rightarrow> u8 \<Rightarrow> u8" where
  "byte_or p k v = (if length p > k then p ! k else v)"

definition prefix_of :: "u8 list \<Rightarrow> u8" where
  "prefix_of p = (if length p > 6 then p ! 6 mod 30 + 1 else 24)"

text \<open>The loop that overwrites up to five bytes of the address with bytes 3, 4, ... of the slice.\<close>

fun mac_loop :: "u8 list \<Rightarrow> nat \<Rightarrow> nat \<Rightarrow> u8 list \<Rightarrow> u8 list" where
  "mac_loop p i 0 mac = mac"
| "mac_loop p i (Suc k) mac =
    (if 3 + i < length p then mac_loop p (i + 1) k (mac[i + 1 := p ! (3 + i)]) else mac)"

definition do_op :: "glob_result \<Rightarrow> u8 list \<Rightarrow> nat \<Rightarrow> action list \<Rightarrow> action list" where
  "do_op glob p default_id w =
    (if length p < 1 then w
     else
       let op = p ! 0;
           dev = unat (byte_or p 1 (of_nat default_id)) mod 32
       in
       if op = OP_CREATE then
         nsim_new dev (1 + (if length p > 2 then unat (p ! 2) mod 4 else 0)) w
       else if op = OP_ADDR_ADD then
         (let ifn = first_nsim_if glob w;
              (ifn, w) = (if ifn = [] then let w = nsim_new dev 1 w in (first_nsim_if glob w, w) else (ifn, w))
          in if ifn = [] then w
             else ip_add ifn (byte_or p 2 192) (byte_or p 3 0) (byte_or p 4 2) (byte_or p 5 1) (prefix_of p) w)
       else if op = OP_ADDR_DEL then
         (let ifn = first_nsim_if glob w
          in if ifn = [] then w
             else ip_del ifn (byte_or p 2 192) (byte_or p 3 0) (byte_or p 4 2) (byte_or p 5 1) (prefix_of p) w)
       else if op = OP_LINK_UP then
         (let ifn = first_nsim_if glob w in if ifn \<noteq> [] then link_set ifn True w else w)
       else if op = OP_LINK_DOWN then
         (let ifn = first_nsim_if glob w in if ifn \<noteq> [] then link_set ifn False w else w)
       else if op = OP_DEL then nsim_del dev w
       else if op = OP_DOUBLE_DEL then nsim_del dev (nsim_del dev w)
       else if op = OP_CHG_MTU then
         (let ifn = first_nsim_if glob w
          in if ifn = [] then w
             else set_mtu ifn (500 + (if length p > 2 then unat (p ! 2) * 16 else 1000)) w)
       else if op = OP_CHG_MAC then
         (let ifn = first_nsim_if glob w
          in if ifn = [] then w else change_mac ifn (mac_loop p 0 5 [2, 0, 0, 0, 0, 0]) w)
       else w)"

section \<open>The threads\<close>

text \<open>The body of the loop of \<open>runner\<close>, and the loop.\<close>

definition runner_step :: "glob_result \<Rightarrow> int \<Rightarrow> nat \<Rightarrow> u8 list \<Rightarrow> action list \<Rightarrow> action list" where
  "runner_step glob skew_ms default_id p w =
    (let w = do_op glob p default_id w
     in if skew_ms \<noteq> 0 then w @ [Sleep (nat skew_ms * 1000)] else w)"

definition runner :: "glob_result \<Rightarrow> u8 list list \<Rightarrow> int \<Rightarrow> action list" where
  "runner glob sq skew_ms =
    (let skew_ms = (if skew_ms < 0 then 0 else skew_ms);
         default_id = 1
     in fold (runner_step glob skew_ms default_id) sq [])"

datatype fuzz_error = NullWrite

text \<open>
  The loop that cuts the input into slices, from position \<open>i\<close> and slice number \<open>idx\<close> on.  A
  failing \<open>malloc\<close> ends it.
\<close>

function parse_ops :: "(nat \<Rightarrow> bool) \<Rightarrow> u8 list \<Rightarrow> nat \<Rightarrow> nat \<Rightarrow> nat \<Rightarrow> u8 list list" where
  "parse_ops malloc data count i idx =
    (if i < length data \<and> idx < count then
       let op = data ! i;
           i = i + 1;
           left = length data - i;
           tk = (if left > 8 then 8 else left)
       in if \<not> malloc idx then []
          else (op # data ! 0 mod 32 # take tk (drop i data)) # parse_ops malloc data count (i + tk) (idx + 1)
     else [])"
  by pat_completeness auto

termination by (relation "measure (\<lambda>(malloc, data, count, i, idx). length data - i)") auto

declare parse_ops.simps [simp del]

definition build_seq :: "(nat \<Rightarrow> nat \<Rightarrow> bool) \<Rightarrow> u8 list \<Rightarrow> fuzz_error + u8 list list" where
  "build_seq malloc data =
    (let count = 1 + unat (data ! 0) mod 24 in
     if \<not> malloc 0 0 then Inl NullWrite
     else
       let head = [OP_CREATE, data ! 0 mod 32, 1];
           sq = head # parse_ops (malloc 0) data count 1 1;
           idx = length sq
       in if \<not> malloc 1 idx then Inl NullWrite
       else
         let sq = sq @ [[OP_DEL, data ! 0 mod 32]];
             idx = idx + 1
         in if data ! 0 AND 1 = 1 then
              if \<not> malloc 2 idx then Inl NullWrite else Inr (sq @ [[OP_DOUBLE_DEL, data ! 0 mod 32]])
            else Inr sq)"

text \<open>
  \<open>euid\<close> is the user, \<open>calloc\<close> the outcome of the allocation of the table.  The result is what
  the two threads do, which the system sees in some interleaving.
\<close>

definition LLVMFuzzerTestOneInput ::
  "nat \<Rightarrow> bool \<Rightarrow> (nat \<Rightarrow> nat \<Rightarrow> bool) \<Rightarrow> glob_result \<Rightarrow> glob_result \<Rightarrow> u8 list
    \<Rightarrow> fuzz_error + action list \<times> action list" where
  "LLVMFuzzerTestOneInput euid calloc malloc glob1 glob2 data =
    (if euid \<noteq> 0 then Inr ([], [])
     else if data = [] then Inr ([], [])
     else if \<not> calloc then Inr ([], [])
     else case build_seq malloc data of
       Inl e \<Rightarrow> Inl e
     | Inr sq \<Rightarrow> Inr (runner glob1 sq 0, runner glob2 sq 1))"

section \<open>The texts fit\<close>

lemma length_dec_string: "n < 10 ^ k \<Longrightarrow> 0 < k \<Longrightarrow> length (dec_string n) \<le> k"
proof (induction k arbitrary: n)
  case (Suc k)
  show ?case
  proof (cases "n < 10")
    case True
    then show ?thesis by (simp add: dec_string.simps)
  next
    case False
    then have "0 < k" "n div 10 < 10 ^ k" using Suc.prems by (cases k; simp add: less_mult_imp_div_less)+
    then show ?thesis using Suc.IH False by (subst dec_string.simps) simp
  qed
qed simp

lemma length_dec_byte: "length (dec_string (unat (b :: u8))) \<le> 3"
  using length_dec_string [of "unat b" 3] unsigned_less [of b, where 'a = nat] by simp

lemma length_first_nsim_if: "length (first_nsim_if glob w) \<le> 63"
  by (simp add: first_nsim_if_def snprintf_def Let_def split: list.split)

named_theorems command_simps \<open>commands whose text fits its buffer\<close>

lemma nsim_new_eq [command_simps]:
  assumes "dev < 32" and "ports < 10"
  shows "nsim_new dev ports w =
    w @ [SysfsWrite ''/sys/bus/netdevsim/new_device'' (dec_string dev @ '' '' @ dec_string ports)]"
  using length_dec_string [of dev 2] length_dec_string [of ports 1] assms
  by (simp add: nsim_new_def snprintf_def write_sysfs_def)

lemma nsim_del_eq [command_simps]:
  "dev < 32 \<Longrightarrow> nsim_del dev w = w @ [SysfsWrite ''/sys/bus/netdevsim/del_device'' (dec_string dev)]"
  using length_dec_string [of dev 2] by (simp add: nsim_del_def snprintf_def write_sysfs_def)

lemma ip_text_fits: "length ifn \<le> 63 \<Longrightarrow> length verb \<le> 3 \<Longrightarrow> length (ip_text verb ifn a b c d plen) \<le> 127"
  using length_dec_byte [of a] length_dec_byte [of b] length_dec_byte [of c] length_dec_byte [of d]
    length_dec_byte [of plen]
  by (simp add: ip_text_def)

lemma ip_eq [command_simps]:
  assumes "length ifn \<le> 63"
  shows "ip_add ifn a b c d plen w = w @ [Shell (ip_text ''add'' ifn a b c d plen)]"
    "ip_del ifn a b c d plen w = w @ [Shell (ip_text ''del'' ifn a b c d plen)]"
  using ip_text_fits [OF assms, of "''add''" a b c d plen] ip_text_fits [OF assms, of "''del''" a b c d plen]
  by (simp_all add: ip_add_def ip_del_def sh_def snprintf_def)

lemma link_set_eq [command_simps]:
  "length ifn \<le> 63 \<Longrightarrow> link_set ifn up w = w @ [Shell (link_text ifn up)]"
  by (cases up) (simp_all add: link_set_def sh_def snprintf_def link_text_def)

lemma set_mtu_eq [command_simps]:
  assumes "length ifn \<le> 63" and "mtu < 10000"
  shows "set_mtu ifn mtu w = w @ [Shell (mtu_text ifn mtu)]"
  using length_dec_string [of mtu 4] assms by (simp add: set_mtu_def sh_def snprintf_def mtu_text_def)

lemma change_mac_eq [command_simps]:
  "length ifn \<le> 63 \<Longrightarrow> change_mac ifn mac w = w @ [Shell (mac_text ifn mac)]"
  by (simp add: change_mac_def sh_def snprintf_def mac_text_def hex2_def)

lemma mac_loop_keeps: "length (mac_loop p i k mac) = length mac \<and> mac_loop p i k mac ! 0 = mac ! 0"
  by (induction p i k mac rule: mac_loop.induct) simp_all

section \<open>What an operation does\<close>

text \<open>
  The actions the fuzzer is meant to take on device \<open>dev\<close>: creation with 1 to 4 ports, deletion,
  and complete shell commands on one interface.
\<close>

definition mtu_range :: "nat set" where "mtu_range = {500..4580}"

inductive command_ok :: "string \<Rightarrow> string \<Rightarrow> bool" for ifn where
  ip: "verb \<in> {''add'', ''del''} \<Longrightarrow> 1 \<le> plen \<Longrightarrow> plen \<le> 30 \<Longrightarrow> command_ok ifn (ip_text verb ifn a b c d plen)"
| link: "command_ok ifn (link_text ifn up)"
| mtu: "mtu \<in> mtu_range \<Longrightarrow> command_ok ifn (mtu_text ifn mtu)"
| mac: "length mac = 6 \<Longrightarrow> mac ! 0 = 2 \<Longrightarrow> command_ok ifn (mac_text ifn mac)"

fun action_ok :: "nat \<Rightarrow> action \<Rightarrow> bool" where
  "action_ok dev (SysfsWrite path text) \<longleftrightarrow>
     path = ''/sys/bus/netdevsim/del_device'' \<and> text = dec_string dev \<or>
     path = ''/sys/bus/netdevsim/new_device'' \<and>
       (\<exists>ports. 1 \<le> ports \<and> ports \<le> 4 \<and> text = dec_string dev @ '' '' @ dec_string ports)"
| "action_ok dev (Shell cmd) \<longleftrightarrow> (\<exists>ifn. ifn \<noteq> [] \<and> length ifn \<le> 63 \<and> command_ok ifn cmd)"
| "action_ok dev (Sleep us) \<longleftrightarrow> True"

definition slice_dev :: "u8 list \<Rightarrow> nat" where
  "slice_dev p = unat (byte_or p 1 1) mod 32"

lemma prefix_of_bounds: "1 \<le> prefix_of p" "prefix_of p \<le> 30"
proof -
  have "unat (b mod 30 + 1) = unat b mod 30 + 1" for b :: u8
    by (subst unat_add_lem [THEN iffD1]) (simp_all add: unat_mod)
  moreover have "unat b mod 30 < 30" for b :: u8 by simp
  ultimately show "1 \<le> prefix_of p" "prefix_of p \<le> 30"
    by (auto simp: prefix_of_def word_le_nat_alt less_Suc_eq_le)
qed

lemmas op_defs = OP_CREATE_def OP_ADDR_ADD_def OP_ADDR_DEL_def OP_LINK_UP_def OP_LINK_DOWN_def OP_DEL_def
  OP_DOUBLE_DEL_def OP_CHG_MTU_def OP_CHG_MAC_def

lemma slice_dev_less: "slice_dev p < 32"
  by (simp add: slice_dev_def)

lemma slice_dev_eq: "unat (byte_or p 1 (of_nat 1)) mod 32 = slice_dev p"
  by (simp add: slice_dev_def)

text \<open>The shell commands of the operations on an interface.\<close>

lemma shell_ok: "command_ok ifn cmd \<Longrightarrow> ifn \<noteq> [] \<Longrightarrow> length ifn \<le> 63 \<Longrightarrow> action_ok dev (Shell cmd)"
  by auto

lemma ip_ok:
  "command_ok ifn (ip_text ''add'' ifn a b c d (prefix_of p))"
  "command_ok ifn (ip_text ''del'' ifn a b c d (prefix_of p))"
  by (rule command_ok.ip; simp add: prefix_of_bounds)+

lemma mac_ok: "command_ok ifn (mac_text ifn (mac_loop p 0 5 [2, 0, 0, 0, 0, 0]))"
  using mac_loop_keeps [of p 0 5 "[2, 0, 0, 0, 0, 0]"] by (intro command_ok.mac) simp_all

lemma new_ok:
  assumes "1 \<le> ports" and "ports \<le> 4"
  shows "action_ok dev (SysfsWrite ''/sys/bus/netdevsim/new_device'' (dec_string dev @ '' '' @ dec_string ports))"
  unfolding action_ok.simps using assms by blast

lemma del_ok: "action_ok dev (SysfsWrite ''/sys/bus/netdevsim/del_device'' (dec_string dev))"
  by simp

lemma mtu_value: "500 + (if c then unat (b :: u8) * 16 else 1000) \<in> mtu_range"
  using unsigned_less [of b, where 'a = nat] by (simp add: mtu_range_def)

lemma mtu_bound: "mtu \<in> mtu_range \<Longrightarrow> mtu < 10000"
  by (simp add: mtu_range_def)

definition extends :: "nat \<Rightarrow> action list \<Rightarrow> action list \<Rightarrow> bool" where
  "extends dev w w' \<longleftrightarrow> (\<exists>as. w' = w @ as \<and> (\<forall>a \<in> set as. action_ok dev a))"

lemma extends_refl [simp]: "extends dev w w"
  by (simp add: extends_def)

lemma extends_snoc: "action_ok dev a \<Longrightarrow> extends dev w w' \<Longrightarrow> extends dev w (w' @ [a])"
  by (auto simp: extends_def)

text \<open>Every command extends the actions by one that is meant.\<close>

lemma command_extends [simp, intro]:
  assumes "extends dev w w'"
  shows "dev < 32 \<Longrightarrow> 1 \<le> ports \<Longrightarrow> ports \<le> 4 \<Longrightarrow> extends dev w (nsim_new dev ports w')"
    "dev < 32 \<Longrightarrow> extends dev w (nsim_del dev w')"
    "ifn \<noteq> [] \<Longrightarrow> length ifn \<le> 63 \<Longrightarrow> extends dev w (ip_add ifn a b c d (prefix_of p) w')"
    "ifn \<noteq> [] \<Longrightarrow> length ifn \<le> 63 \<Longrightarrow> extends dev w (ip_del ifn a b c d (prefix_of p) w')"
    "ifn \<noteq> [] \<Longrightarrow> length ifn \<le> 63 \<Longrightarrow> extends dev w (link_set ifn up w')"
    "ifn \<noteq> [] \<Longrightarrow> length ifn \<le> 63 \<Longrightarrow> mtu \<in> mtu_range \<Longrightarrow> extends dev w (set_mtu ifn mtu w')"
    "ifn \<noteq> [] \<Longrightarrow> length ifn \<le> 63 \<Longrightarrow>
       extends dev w (change_mac ifn (mac_loop p 0 5 [2, 0, 0, 0, 0, 0]) w')"
  using assms
  by (simp_all only: command_simps mtu_bound)
    (rule extends_snoc, (rule new_ok del_ok shell_ok; (assumption | rule ip_ok mac_ok command_ok.link command_ok.mtu)+),
      rule assms)+

lemma do_op_extends: "extends (slice_dev p) w (do_op glob p 1 w)"
proof -
  note d = slice_dev_less [of p] and l = length_first_nsim_if [of glob]
  have ports: "1 + (if length p > 2 then unat (p ! 2) mod 4 else 0) \<le> 4"
    using mod_less_divisor [of 4 "unat (p ! 2)"] by (simp add: less_Suc_eq_le del: mod_less_divisor)
  show ?thesis
    unfolding do_op_def Let_def slice_dev_eq
    using ports d l by (simp add: mtu_value)
qed

section \<open>The sequence\<close>

lemma parse_ops_end: "length data \<le> i \<or> count \<le> idx \<or> \<not> malloc idx \<Longrightarrow> parse_ops malloc data count i idx = []"
  by (subst parse_ops.simps) auto

lemma parse_ops_step:
  assumes "i < length data" and "idx < count" and "malloc idx"
  shows "parse_ops malloc data count i idx =
    (data ! i # data ! 0 mod 32 # take 8 (drop (i + 1) data)) # parse_ops malloc data count (i + 9) (idx + 1)"
proof (cases "length data - (i + 1) > 8")
  case True
  then show ?thesis using assms by (subst parse_ops.simps) (simp add: Let_def add.commute)
next
  case False
  then have "take (length data - (i + 1)) (drop (i + 1) data) = take 8 (drop (i + 1) data)" by simp
  moreover have "parse_ops malloc data count (i + 1 + (length data - (i + 1))) (idx + 1) = []"
    "parse_ops malloc data count (i + 9) (idx + 1) = []"
    using False assms(1) by (intro parse_ops_end disjI1; linarith)+
  ultimately show ?thesis
    using assms False by (subst parse_ops.simps) (simp add: Let_def)
qed

text \<open>What a slice holds of the input: the operation and the bytes after the device number.\<close>

definition payload :: "u8 list \<Rightarrow> u8 list" where
  "payload p = hd p # drop 2 p"

lemma drop_slice: "i < length xs \<Longrightarrow> drop i xs = xs ! i # take 8 (drop (i + 1) xs) @ drop (i + 9) xs"
proof -
  assume "i < length xs"
  then have "drop i xs = xs ! i # drop (i + 1) xs" by (simp add: Cons_nth_drop_Suc)
  moreover have "drop (i + 1) xs = take 8 (drop (i + 1) xs) @ drop (i + 9) xs"
    using append_take_drop_id [of 8 "drop (i + 1) xs"] by (simp add: add.commute)
  ultimately show ?thesis by metis
qed

text \<open>The loop by recursion on what is left of the input: it ends, or it cuts one slice.\<close>

lemma parse_ops_induct:
  assumes "\<And>i idx. length data \<le> i \<or> count \<le> idx \<or> \<not> malloc idx \<Longrightarrow> P i idx []"
    and "\<And>i idx xs. i < length data \<Longrightarrow> idx < count \<Longrightarrow> malloc idx \<Longrightarrow> P (i + 9) (idx + 1) xs \<Longrightarrow>
      P i idx ((data ! i # data ! 0 mod 32 # take 8 (drop (i + 1) data)) # xs)"
  shows "P i idx (parse_ops malloc data count i idx)"
proof (induction "length data - i" arbitrary: i idx rule: less_induct)
  case less
  show ?case
  proof (cases "i < length data \<and> idx < count \<and> malloc idx")
    case True
    have "length data - (i + 9) < length data - i" using True by linarith
    from less [OF this] show ?thesis using True by (simp only: parse_ops_step, intro assms(2)) simp_all
  next
    case False
    then have "length data \<le> i \<or> count \<le> idx \<or> \<not> malloc idx" by auto
    then show ?thesis using assms(1) by (simp add: parse_ops_end)
  qed
qed

lemma parse_ops_slices:
  "\<forall>p \<in> set (parse_ops malloc data count i idx). 2 \<le> length p \<and> length p \<le> 10 \<and> p ! 1 = data ! 0 mod 32"
  by (rule parse_ops_induct) auto

lemma parse_ops_length: "idx \<le> count \<longrightarrow> idx + length (parse_ops malloc data count i idx) \<le> count"
  by (rule parse_ops_induct [where P = "\<lambda>i idx xs. idx \<le> count \<longrightarrow> idx + length xs \<le> count"]) auto

lemma parse_ops_payload: "prefix (concat (map payload (parse_ops malloc data count i idx))) (drop i data)"
  by (rule parse_ops_induct [where P = "\<lambda>i idx xs. prefix (concat (map payload xs)) (drop i data)"])
    (simp_all add: payload_def drop_slice)

lemma parse_ops_payload_all:
  "(\<forall>n. malloc n) \<and> idx + length (parse_ops malloc data count i idx) < count \<longrightarrow>
     concat (map payload (parse_ops malloc data count i idx)) = drop i data"
  by (rule parse_ops_induct [where P = "\<lambda>i idx xs. (\<forall>n. malloc n) \<and> idx + length xs < count \<longrightarrow>
        concat (map payload xs) = drop i data"])
    (auto simp: payload_def drop_slice)

section \<open>The threads\<close>

lemma extends_trans: "extends dev w w' \<Longrightarrow> extends dev w' w'' \<Longrightarrow> extends dev w w''"
  by (force simp: extends_def)

lemma runner_step_extends: "slice_dev p = dev \<Longrightarrow> extends dev w (runner_step glob k 1 p w)"
  using do_op_extends [of p w glob] by (auto simp: runner_step_def Let_def intro: extends_snoc)

lemma runner_steps_extend:
  "\<forall>p \<in> set sq. slice_dev p = dev \<Longrightarrow> extends dev w (fold (runner_step glob k 1) sq w)"
proof (induction sq arbitrary: w)
  case (Cons p sq)
  then show ?case
    using extends_trans [OF runner_step_extends [of p dev w glob k]] by simp
qed simp

definition awake :: "action \<Rightarrow> bool" where
  "awake a \<longleftrightarrow> (\<forall>us. a \<noteq> Sleep us)"

lemma awake_simps [simp]: "awake (SysfsWrite a b)" "awake (Shell c)" "\<not> awake (Sleep us)"
  by (simp_all add: awake_def)

text \<open>The first and the last operation of every sequence.\<close>

lemma create_step:
  fixes d :: u8
  shows "\<exists>ss. runner_step glob k 1 [OP_CREATE, d, 1] [] =
    SysfsWrite ''/sys/bus/netdevsim/new_device'' (dec_string (unat d mod 32) @ '' 2'') # ss \<and> (\<forall>a \<in> set ss. \<not> awake a)"
proof -
  have "dec_string (Suc (Suc 0)) = ''2''" by (simp add: dec_string.simps char_of_def bit_Suc_0_iff)
  then show ?thesis
    by (simp add: runner_step_def Let_def do_op_def OP_CREATE_def byte_or_def nsim_new_eq)
qed

lemma delete_step:
  fixes d :: u8
  assumes "op = OP_DEL \<or> op = OP_DOUBLE_DEL"
  shows "\<exists>as ss. runner_step glob k 1 [op, d] w =
    w @ as @ SysfsWrite ''/sys/bus/netdevsim/del_device'' (dec_string (unat d mod 32)) # ss \<and> (\<forall>a \<in> set ss. \<not> awake a)"
proof -
  let ?del = "SysfsWrite ''/sys/bus/netdevsim/del_device'' (dec_string (unat d mod 32))"
  show ?thesis
    using assms
    by (intro exI [of _ "if op = OP_DEL then [] else [?del]"] exI [of _ "if k \<noteq> 0 then [Sleep (nat k * 1000)] else []"])
      (auto simp: runner_step_def Let_def do_op_def op_defs byte_or_def nsim_del_eq)
qed

lemma last_awake:
  assumes "\<forall>a \<in> set ss. \<not> awake a" and "awake a"
  shows "last (filter awake (w @ as @ a # ss)) = a" "filter awake (w @ as @ a # ss) \<noteq> []"
proof -
  have "filter awake ss = []" using assms(1) by (simp add: filter_empty_conv)
  then show "last (filter awake (w @ as @ a # ss)) = a" "filter awake (w @ as @ a # ss) \<noteq> []"
    using assms(2) by simp_all
qed

lemma shuffles_last:
  "zs \<in> shuffles xs ys \<Longrightarrow> xs = [] \<or> last xs = a \<Longrightarrow> ys = [] \<or> last ys = a \<Longrightarrow> zs \<noteq> [] \<Longrightarrow> last zs = a"
proof (induction xs ys arbitrary: zs rule: shuffles.induct)
  case (3 x xs y ys)
  then show ?case by (auto split: if_splits)
qed auto

lemma build_seq_cases:
  assumes "build_seq malloc data = Inr sq" and "d = data ! 0 mod 32" and "count = 1 + unat (data ! 0) mod 24"
  shows "sq = [OP_CREATE, d, 1] # parse_ops (malloc 0) data count 1 1 @ [[OP_DEL, d]] @
    (if data ! 0 AND 1 = 1 then [[OP_DOUBLE_DEL, d]] else [])"
  using assms by (auto simp: build_seq_def Let_def split: if_splits)

lemma slice_dev_byte: "length p > 1 \<Longrightarrow> p ! 1 = b mod 32 \<Longrightarrow> slice_dev p = unat b mod 32"
  by (simp add: slice_dev_def byte_or_def unat_mod)

lemma build_seq_dev:
  assumes "build_seq malloc data = Inr sq" and "p \<in> set sq"
  shows "slice_dev p = unat (data ! 0) mod 32"
  using assms(2) parse_ops_slices [of "malloc 0" data "1 + unat (data ! 0) mod 24" 1 1]
  by (intro slice_dev_byte) (auto simp: build_seq_cases [OF assms(1) refl refl] split: if_splits)

text \<open>The trace of one thread: everything is meant, creation comes first, deletion last.\<close>

lemma runner_trace:
  assumes "build_seq malloc data = Inr sq" and "dev = unat (data ! 0) mod 32" and "0 \<le> k"
  shows "\<exists>as. runner glob sq k = SysfsWrite ''/sys/bus/netdevsim/new_device'' (dec_string dev @ '' 2'') # as"
    "\<forall>a \<in> set (runner glob sq k). action_ok dev a"
    "last (filter awake (runner glob sq k)) = SysfsWrite ''/sys/bus/netdevsim/del_device'' (dec_string dev)"
proof -
  let ?d = "data ! 0 mod 32" and ?step = "runner_step glob k 1"
  have d: "unat ?d mod 32 = dev" by (simp add: assms(2) unat_mod)
  have r: "runner glob sq k = fold ?step sq []" using assms(3) by (simp add: runner_def)
  obtain mid where sq: "sq = [OP_CREATE, ?d, 1] # mid"
    using build_seq_cases [OF assms(1) refl refl] by blast
  obtain ss where c: "?step [OP_CREATE, ?d, 1] [] =
      SysfsWrite ''/sys/bus/netdevsim/new_device'' (dec_string dev @ '' 2'') # ss"
    using create_step [of glob k ?d] d by auto
  have dev: "\<forall>p \<in> set sq. slice_dev p = dev" using build_seq_dev [OF assms(1)] assms(2) by blast
  then show "\<forall>a \<in> set (runner glob sq k). action_ok dev a"
    using runner_steps_extend [OF dev, of "[]" glob k] by (auto simp: r extends_def)
  show "\<exists>as. runner glob sq k = SysfsWrite ''/sys/bus/netdevsim/new_device'' (dec_string dev @ '' 2'') # as"
  proof -
    have "\<forall>p \<in> set mid. slice_dev p = dev" using dev by (simp add: sq)
    then have "extends dev (?step [OP_CREATE, ?d, 1] []) (runner glob sq k)"
      using runner_steps_extend [of mid dev "?step [OP_CREATE, ?d, 1] []" glob k]
      unfolding r unfolding sq by simp
    then show ?thesis unfolding extends_def c by auto
  qed
  obtain xs op where l: "sq = xs @ [[op, ?d]]" "op = OP_DEL \<or> op = OP_DOUBLE_DEL"
    using build_seq_cases [OF assms(1) refl refl] by (cases "data ! 0 AND 1 = 1") (fastforce simp del: append.simps(2) simp: append.simps(2) [symmetric])+
  show "last (filter awake (runner glob sq k)) = SysfsWrite ''/sys/bus/netdevsim/del_device'' (dec_string dev)"
  proof -
    obtain as ts where "?step [op, ?d] (fold ?step xs []) =
        fold ?step xs [] @ as @ SysfsWrite ''/sys/bus/netdevsim/del_device'' (dec_string dev) # ts"
      and ts: "\<forall>a \<in> set ts. \<not> awake a"
      using delete_step [OF l(2), of glob k ?d "fold ?step xs []"] unfolding d by blast
    then have "runner glob sq k =
        fold ?step xs [] @ as @ SysfsWrite ''/sys/bus/netdevsim/del_device'' (dec_string dev) # ts"
      unfolding r unfolding l(1) by simp
    then show ?thesis by (simp only: last_awake(1) [OF ts awake_simps(1)])
  qed
qed

section \<open>Properties\<close>

text \<open>
  C22. The sequence that is cut out of an input starts with the creation and ends with the
  deletion (twice more for an odd first byte) of one device, whose number is given by the first
  byte; it fits into the table that was allocated.  In between every slice names the same
  device, has at most 8 bytes of parameters, and the slices hold the rest of the input without
  gap or overlap: a prefix of it, and all of it when the number of operations was not the limit.
\<close>

theorem fuzz_sequence_shape:
  assumes "data \<noteq> []" and "\<forall>k n. malloc k n"
  shows "\<exists>mid. build_seq malloc data = Inr
      ([0, data ! 0 mod 32, 1] # mid @ [[5, data ! 0 mod 32]] @ (if data ! 0 AND 1 = 1 then [[6, data ! 0 mod 32]] else [])) \<and>
    (let count = 1 + unat (data ! 0) mod 24 in
       1 + length mid + 2 < count + 3 \<and>
       (1 + length mid < count \<longrightarrow> concat (map payload mid) = tl data)) \<and>
    (\<forall>p \<in> set mid. 2 \<le> length p \<and> length p \<le> 10 \<and> p ! 1 = data ! 0 mod 32) \<and>
    prefix (concat (map payload mid)) (tl data)"
proof -
  let ?count = "1 + unat (data ! 0) mod 24"
  let ?mid = "parse_ops (malloc 0) data ?count 1 1"
  have "build_seq malloc data = Inr
      ([0, data ! 0 mod 32, 1] # ?mid @ [[5, data ! 0 mod 32]] @ (if data ! 0 AND 1 = 1 then [[6, data ! 0 mod 32]] else []))"
    using assms(2) by (simp add: build_seq_def Let_def op_defs)
  moreover have "1 + length ?mid \<le> ?count"
    using parse_ops_length [of 1 ?count "malloc 0" data 1] by simp
  ultimately show ?thesis
    using parse_ops_slices [of "malloc 0" data ?count 1 1] parse_ops_payload [of "malloc 0" data ?count 1 1]
      parse_ops_payload_all [of "malloc 0" 1 data ?count 1] assms(2)
    by (intro exI [of _ ?mid]) (simp add: Let_def drop_Suc)
qed


section \<open>The properties at concrete inputs\<close>

theorem fuzz_sequence_shape_witness:
  "\<exists>mid. build_seq (\<lambda>_ _. True) [37, 7, 1, 2, 3] = Inr ([0, 5, 1] # mid @ [[5, 5]] @ [[6, 5]]) \<and>
     concat (map payload mid) = [7, 1, 2, 3]"
proof -
  obtain mid where "build_seq (\<lambda>_ _. True) [37, 7, 1, 2, 3] = Inr ([0, 5, 1] # mid @ [[5, 5]] @ [[6, 5]])"
    "1 + length mid < 14 \<longrightarrow> concat (map payload mid) = [7, 1, 2, 3]"
    using fuzz_sequence_shape [of "[37, 7, 1, 2, 3]" "\<lambda>_ _. True"] by (auto simp: Let_def)
  moreover have "build_seq (\<lambda>_ _. True) [37, 7, 1, 2, 3] = Inr [[0, 5, 1], [7, 5, 1, 2, 3], [5, 5], [6, 5]]"
    by (simp add: build_seq_def Let_def parse_ops_step parse_ops_end op_defs)
  ultimately show ?thesis by auto
qed


end
