(* ===== verification/Boot.thy ===== *)
theory Boot
  imports UserMap Sched BlockDriver Dtb Uart
begin

text \<open>
  The boot sequence \<^verbatim>\<open>kernel/core/kmain.c\<close>: \<open>init_task\<close>, \<open>init_allocation_map\<close> and the phases of
  \<open>kmain\<close> up to the entry of the first user program.  The record \<open>kernel\<close> puts the states of
  the components side by side: the block layer (with the allocator and the page tables), the
  scheduler (with the interrupt controller and the timer), the contexts on the kernel stacks,
  the bytes \<open>kmain\<close> itself writes, and the bus of the serial port.  Parameters are the addresses
  the linker gives (\<open>l2mem\<close>, \<open>block_memory_start\<close>, the functions that are mapped for the programs),
  the devices, the contents of RAM at boot and the device tree.  The output of the log is left
  out, except that the serial port is initialised.
\<close>

section \<open>State\<close>

record kernel =
  blk :: block_state
  sch :: sched_state
  contexts :: "u64 \<Rightarrow> Context"
  bytes :: "u64 \<Rightarrow> u8"
  drive_info :: "nat \<Rightarrow> u64"
  uart_bus :: bus

text \<open>The addresses of the functions \<open>kmain\<close> maps or starts, as linked.\<close>

record symbols =
  sys_write_sym :: u64
  uart_printf_sym :: u64
  user_process1_sym :: u64
  user_process2_sym :: u64
  name1_sym :: u64
  name2_sym :: u64

definition STACK_SZ :: u64 where "STACK_SZ = 4096"

section \<open>The two user programs\<close>

text \<open>
  The array \<open>test\<close> of five bytes that each program fills with five assignments \<open>test[i++] = c\<close>
  from its start value of \<open>i\<close> on; \<open>None\<close> when one is outside the array.
\<close>

fun fill_test :: "nat \<Rightarrow> u8 \<Rightarrow> nat \<Rightarrow> u8 list \<Rightarrow> u8 list option" where
  "fill_test i c 0 test = Some test"
| "fill_test i c (Suc k) test = (if i < length test then fill_test (i + 1) c k (test[i := c]) else None)"

definition user_process1_test :: "u8 list \<Rightarrow> u8 list option" where
  "user_process1_test test = fill_test 0 65 5 test"

definition user_process2_test :: "u8 list \<Rightarrow> u8 list option" where
  "user_process2_test test = fill_test 4 67 5 test"

section \<open>init_task\<close>

text \<open>Running an operation of the allocator, or of the page tables, inside the kernel state.\<close>

definition with_tbl :: "(cells \<Rightarrow> cells) \<Rightarrow> block_state \<Rightarrow> block_state" where
  "with_tbl f s = s\<lparr>blk_mm := (blk_mm s)\<lparr>tbl := f (tbl (blk_mm s))\<rparr>\<rparr>"

definition kmalloc_in :: "u64 \<Rightarrow> u64 \<Rightarrow> kernel \<Rightarrow> mm_error + u64 \<times> kernel" where
  "kmalloc_in l2mem sz s =
    (case kmalloc l2mem sz (blk_mm (blk s)) of
       Inl e \<Rightarrow> Inl e
     | Inr (p, m) \<Rightarrow> Inr (p, s\<lparr>blk := (blk s)\<lparr>blk_mm := m\<rparr>\<rparr>))"

definition sizeof_Task :: u64 where "sizeof_Task = 56"
definition sizeof_Context :: u64 where "sizeof_Context = 288"

definition init_task :: "u64 \<Rightarrow> symbols \<Rightarrow> u64 \<Rightarrow> u64 \<Rightarrow> u64 \<Rightarrow> u64 \<Rightarrow> kernel \<Rightarrow> mm_error + u64 \<times> kernel" where
  "init_task l2mem sy pid name entry sz s =
    (let s = s\<lparr>blk := with_tbl (map_user_to_physical pid (sys_write_sym sy)) (blk s)\<rparr>;
         s = s\<lparr>blk := with_tbl (map_user_to_physical pid (uart_printf_sym sy)) (blk s)\<rparr>
     in case kmalloc_in l2mem sizeof_Task s of Inl e \<Rightarrow> Inl e | Inr (task, s) \<Rightarrow>
        case kmalloc_in l2mem sz s of Inl e \<Rightarrow> Inl e | Inr (kstack, s) \<Rightarrow>
        case kmalloc_in l2mem sz s of Inl e \<Rightarrow> Inl e | Inr (ustack_t, s) \<Rightarrow>
     let ustack = kernal_to_user_space ustack_t;
         s = s\<lparr>blk := with_tbl (map_user_to_physical_test pid ustack) (blk s)\<rparr>;
         ustack = ustack + sz;
         ktop = kstack + sz;
         ctx = ktop - sizeof_Context;
         entry = kernal_to_user_space entry;
         s = s\<lparr>blk := with_tbl (map_user_to_physical pid entry) (blk s)\<rparr>;
         c = build_initial_context entry ustack (contexts s ctx);
         c = c\<lparr>ttbr0_el1 := if pid = 1 then USER_PROCESS_1_TABLE_START else USER_PROCESS_2_TABLE_START\<rparr>;
         s = s\<lparr>contexts := (contexts s)(ctx := c)\<rparr>;
         t = upd_task task (\<lambda>t. t\<lparr>task_id := uint pid, task_name := name, kernel_stack := kstack,
               user_stack := ustack, task_context := ctx\<rparr>) (sch s);
         s = s\<lparr>sch := sched_ready_enqueue task t\<rparr>
     in Inr (task, s))"

section \<open>kmain\<close>

definition init_allocation_map :: "u64 \<Rightarrow> u64 \<Rightarrow> u64" where
  "init_allocation_map block_memory_start total_physical_ram =
    (let bitmap_size = total_physical_ram div 4096 div 8
     in mem_block block_memory_start bitmap_size)"

definition kmain_devices :: "device \<Rightarrow> kernel \<Rightarrow> kernel" where
  "kmain_devices udev s =
    (let s = s\<lparr>uart_bus := uart_init udev (uart_bus s)\<rparr>;
         s = s\<lparr>sch := gic_init (sch s)\<rparr>
     in s\<lparr>sch := timer_init_1khz (sch s)\<rparr>)"

text \<open>The bytes \<open>kmain\<close> writes into its first block: \<open>fork\<close>, a terminator, and one at 13000.\<close>

definition write_test :: "u64 \<Rightarrow> (u64 \<Rightarrow> u8) \<Rightarrow> u64 \<Rightarrow> u8" where
  "write_test p m = m(p + 0 := 102, p + 1 := 111, p + 2 := 114, p + 3 := 107, p + 13000 := 102, p + 4 := 0)"

definition kmain_memory :: "u64 \<Rightarrow> u64 \<Rightarrow> (u64 \<Rightarrow> u8) \<Rightarrow> u64 \<Rightarrow> kernel \<Rightarrow> mm_error + kernel" where
  "kmain_memory l2mem block_memory_start ram total_ram s =
    (let bitmap = init_allocation_map block_memory_start total_ram;
         s = s\<lparr>blk := (blk s)\<lparr>blk_mm := init_bitmap ram bitmap (blk_mm (blk s))\<rparr>\<rparr>
     in case kmalloc_in l2mem 16000 s of Inl e \<Rightarrow> Inl e | Inr (test, s) \<Rightarrow>
        Inr (s\<lparr>bytes := write_test test (bytes s)\<rparr>))"

definition kmain_drive :: "u64 \<Rightarrow> device \<Rightarrow> (u64 \<Rightarrow> u8) \<Rightarrow> kernel \<Rightarrow> (mm_error + kernel) option" where
  "kmain_drive l2mem vdev dtb s =
    (case kmalloc_in l2mem (8 * 6) s of Inl e \<Rightarrow> Some (Inl e) | Inr (p, s) \<Rightarrow>
     case get_drive_info dtb (drive_info s) of None \<Rightarrow> None | Some info \<Rightarrow>
     case init_virtio_backend l2mem vdev (info 0) (blk s) of Inl e \<Rightarrow> Some (Inl e) | Inr b \<Rightarrow>
     Some (Inr (s\<lparr>drive_info := info, blk := b\<rparr>)))"

text \<open>\<open>sizeof(512)\<close> is the size of an \<open>int\<close>.\<close>

definition kmain_block_test :: "u64 \<Rightarrow> (nat \<Rightarrow> bool) \<Rightarrow> (block_state \<Rightarrow> virtq_used) \<Rightarrow> kernel
    \<Rightarrow> (mm_error + kernel) option" where
  "kmain_block_test l2mem stx used s =
    (case kmalloc_in l2mem 4 s of Inl e \<Rightarrow> Some (Inl e) | Inr (data, s) \<Rightarrow>
     let s = s\<lparr>bytes := (bytes s)(data + 1 := 89, data + 2 := 89, data + 3 := 89, data + 4 := 89,
                data + 5 := 89, data + 6 := 89)\<rparr>
     in case block_write l2mem stx used 1000 data 512 (blk s) of
          None \<Rightarrow> None | Some (Inl e) \<Rightarrow> Some (Inl e) | Some (Inr (_, b)) \<Rightarrow>
        case block_read l2mem stx used 1000 data 512 b of
          None \<Rightarrow> None | Some (Inl e) \<Rightarrow> Some (Inl e) | Some (Inr (_, b)) \<Rightarrow>
        Some (Inr (s\<lparr>blk := b\<rparr>)))"

text \<open>The tasks, and the context with which \<open>first_user_enter\<close> is called.\<close>

definition kmain_tasks :: "u64 \<Rightarrow> symbols \<Rightarrow> kernel \<Rightarrow> mm_error + u64 \<times> kernel" where
  "kmain_tasks l2mem sy s =
    (let s = s\<lparr>blk := (blk s)\<lparr>daif := mask_interrupts (daif (blk s))\<rparr>\<rparr> in
     case init_task l2mem sy 1 (name1_sym sy) (user_process1_sym sy) STACK_SZ s of
       Inl e \<Rightarrow> Inl e | Inr (task1, s) \<Rightarrow>
     case init_task l2mem sy 2 (name2_sym sy) (user_process2_sym sy) STACK_SZ s of
       Inl e \<Rightarrow> Inl e | Inr (task2, s) \<Rightarrow>
     let s = s\<lparr>sch := sched_set_current task1 (sch s)\<rparr>;
         s = s\<lparr>blk := (blk s)\<lparr>daif := unmask_interrupts (daif (blk s))\<rparr>\<rparr>
     in Inr (task_context (tasks (sch s) task1), s))"

definition kmain :: "u64 \<Rightarrow> u64 \<Rightarrow> symbols \<Rightarrow> device \<Rightarrow> device \<Rightarrow> (nat \<Rightarrow> bool) \<Rightarrow> (block_state \<Rightarrow> virtq_used)
    \<Rightarrow> (u64 \<Rightarrow> u8) \<Rightarrow> (u64 \<Rightarrow> u8) \<Rightarrow> u64 \<Rightarrow> kernel \<Rightarrow> (mm_error + u64 \<times> kernel) option" where
  "kmain l2mem block_memory_start sy udev vdev stx used ram dtb total_ram s =
    (let s = kmain_devices udev s in
     case kmain_memory l2mem block_memory_start ram total_ram s of Inl e \<Rightarrow> Some (Inl e) | Inr s \<Rightarrow>
     case kmain_drive l2mem vdev dtb s of None \<Rightarrow> None | Some (Inl e) \<Rightarrow> Some (Inl e) | Some (Inr s) \<Rightarrow>
     case kmain_block_test l2mem stx used s of None \<Rightarrow> None | Some (Inl e) \<Rightarrow> Some (Inl e) | Some (Inr s) \<Rightarrow>
     Some (kmain_tasks l2mem sy s))"

section \<open>The allocator under the other operations\<close>

lemma l3_pool_user_tables:
  assumes "l3_pool_ok l2mem" and "b \<in> {l2mem, L0_BASE_PHYS, L1_BASE_PHYS, L2_INDEX3_BASE_PHYS}"
  shows "\<forall>k < 4. convert_to_physical b \<noteq> user_table pid k"
proof (intro allI impI)
  fix k :: nat
  assume "k < 4"
  then have k: "k = 0 \<or> k = 1 \<or> k = 2 \<or> k = 3" by linarith
  have lt: "convert_to_physical b < 0x80A00000"
    using assms(2) l3_pool_okD [OF assms(1)] assms(1)
    by (auto simp: l3_pool_ok_def in_image_def convert_to_physical_def word_less_nat_alt)
  have "0x80A00000 \<le> user_table pid k"
    using k by (auto simp: user_table_def user_l0_def)
  then show "convert_to_physical b \<noteq> user_table pid k" using lt by auto
qed

lemma kmalloc_inv_tbl:
  assumes "kmalloc_inv l2mem n M s"
    and "\<And>b i. b \<in> {l2mem, L0_BASE_PHYS, L1_BASE_PHYS, L2_INDEX3_BASE_PHYS} \<Longrightarrow> i < 0x200 \<Longrightarrow>
      f (tbl s) (cell b i) = tbl s (cell b i)"
  shows "kmalloc_inv l2mem n M (s\<lparr>tbl := f (tbl s)\<rparr>)"
  using assms(1) assms(2) [of l2mem] assms(2) [of L0_BASE_PHYS 0] assms(2) [of L1_BASE_PHYS 3]
    assms(2) [of L2_INDEX3_BASE_PHYS 0]
  by (simp add: kmalloc_inv_def of_nat_index_bound)

lemma kmalloc_inv_map_user:
  assumes "kmalloc_inv l2mem n M (blk_mm b)"
  shows "kmalloc_inv l2mem n M (blk_mm (with_tbl (map_user_to_physical pid a) b))"
    "kmalloc_inv l2mem n M (blk_mm (with_tbl (map_user_to_physical_test pid a) b))"
proof -
  have ok: "l3_pool_ok l2mem" using assms by (simp add: kmalloc_inv_def)
  have al: "page_aligned c" if "c \<in> {l2mem, L0_BASE_PHYS, L1_BASE_PHYS, L2_INDEX3_BASE_PHYS}" for c
    using that l3_pool_okD(1) [OF ok] by (auto simp: cell_simps)
  show "kmalloc_inv l2mem n M (blk_mm (with_tbl (map_user_to_physical pid a) b))"
    "kmalloc_inv l2mem n M (blk_mm (with_tbl (map_user_to_physical_test pid a) b))"
    unfolding with_tbl_def
    using map_user_frame [OF al _ l3_pool_user_tables [OF ok]]
    by (simp_all, (intro kmalloc_inv_tbl [OF assms]; blast)+)
qed

lemma kmalloc_in_next:
  assumes "kmalloc_inv l2mem n M (blk_mm (blk s))" and "pages_needed sz = 1" and "n < 512"
  shows "\<exists>m. kmalloc_in l2mem sz s = Inr (kva n, s\<lparr>blk := (blk s)\<lparr>blk_mm := m\<rparr>\<rparr>) \<and>
    kmalloc_inv l2mem (n + 1) (M \<union> {n..<n + 1}) m"
  using kma.alloc_next [OF assms(1), of sz] assms(2,3) by (auto simp: kmalloc_in_def)

section \<open>What init_task leaves\<close>

text \<open>The context a task starts with.\<close>

definition start_context :: "u64 \<Rightarrow> u64 \<Rightarrow> u64 \<Rightarrow> Context \<Rightarrow> Context" where
  "start_context pid entry ustack_top c =
     c\<lparr>sp_el0 := ustack_top, elr_el1 := entry, spsr_el1 := 0,
       ttbr0_el1 := user_l0 pid\<rparr>"

lemma task_pages: "pages_needed sizeof_Task = 1" "pages_needed STACK_SZ = 1"
  by (simp_all add: pages_needed_def sizeof_Task_def STACK_SZ_def)

lemma three_pages: "M \<union> {n..<n + 1} \<union> {n + 1..<n + 1 + 1} \<union> {n + 1 + 1..<n + 1 + 1 + 1} = M \<union> {n..<n + (3 :: nat)}"
  by auto

lemma init_task_effect:
  fixes s :: kernel and entry :: u64 and n :: nat
  assumes "kmalloc_inv l2mem n M (blk_mm (blk s))" and "n + 3 \<le> 512"
  defines "ctx \<equiv> kva (n + 1) + STACK_SZ - sizeof_Context"
    and "e \<equiv> convert_to_physical entry"
  shows "\<exists>m. kmalloc_inv l2mem (n + 3) (M \<union> {n..<n + 3}) m \<and>
    (\<exists>t. tbl m = map_user_to_physical pid e (map_user_to_physical_test pid (kpa (n + 2)) t)) \<and>
    init_task l2mem sy pid name entry STACK_SZ s = Inr (kva n, s\<lparr>
      blk := (blk s)\<lparr>blk_mm := m\<rparr>,
      contexts := (contexts s)(ctx := start_context pid e (kpa (n + 2) + STACK_SZ) (contexts s ctx)),
      sch := sched_ready_enqueue (kva n) (upd_task (kva n) (\<lambda>t. t\<lparr>task_id := uint pid, task_name := name,
        kernel_stack := kva (n + 1), user_stack := kpa (n + 2) + STACK_SZ, task_context := ctx\<rparr>) (sch s))\<rparr>)"
proof -
  define b0 where "b0 = with_tbl (map_user_to_physical pid (uart_printf_sym sy))
    (with_tbl (map_user_to_physical pid (sys_write_sym sy)) (blk s))"
  have i0: "kmalloc_inv l2mem n M (blk_mm (blk (s\<lparr>blk := b0\<rparr>)))"
    unfolding b0_def by (simp add: kmalloc_inv_map_user assms(1))
  obtain m1 where m1: "kmalloc_in l2mem sizeof_Task (s\<lparr>blk := b0\<rparr>) = Inr (kva n, s\<lparr>blk := b0\<lparr>blk_mm := m1\<rparr>\<rparr>)"
    and i1: "kmalloc_inv l2mem (n + 1) (M \<union> {n..<n + 1}) m1"
    using kmalloc_in_next [OF i0 task_pages(1)] assms(2) by auto
  obtain m2 where m2: "kmalloc_in l2mem STACK_SZ (s\<lparr>blk := b0\<lparr>blk_mm := m1\<rparr>\<rparr>) = Inr (kva (n + 1), s\<lparr>blk := b0\<lparr>blk_mm := m2\<rparr>\<rparr>)"
    and i2: "kmalloc_inv l2mem (n + 1 + 1) (M \<union> {n..<n + 1} \<union> {n + 1..<n + 1 + 1}) m2"
    using kmalloc_in_next [of l2mem "n + 1" _ "s\<lparr>blk := b0\<lparr>blk_mm := m1\<rparr>\<rparr>", OF _ task_pages(2)] i1 assms(2) by auto
  obtain m3 where m3: "kmalloc_in l2mem STACK_SZ (s\<lparr>blk := b0\<lparr>blk_mm := m2\<rparr>\<rparr>) = Inr (kva (n + 2), s\<lparr>blk := b0\<lparr>blk_mm := m3\<rparr>\<rparr>)"
    and i3: "kmalloc_inv l2mem (n + 1 + 1 + 1) (M \<union> {n..<n + 1} \<union> {n + 1..<n + 1 + 1} \<union> {n + 1 + 1..<n + 1 + 1 + 1}) m3"
    using kmalloc_in_next [of l2mem "n + 1 + 1" _ "s\<lparr>blk := b0\<lparr>blk_mm := m2\<rparr>\<rparr>", OF _ task_pages(2)] i2 assms(2) by auto
  define m4 where "m4 = m3\<lparr>tbl := map_user_to_physical pid e (map_user_to_physical_test pid (kpa (n + 2)) (tbl m3))\<rparr>"
  have "kmalloc_inv l2mem (n + 3) (M \<union> {n..<n + 3}) (blk_mm (b0\<lparr>blk_mm := m3\<rparr>))"
    using i3 unfolding three_pages by (simp add: numeral_3_eq_3)
  from kmalloc_inv_map_user(1) [OF kmalloc_inv_map_user(2) [OF this, of pid "kpa (n + 2)"], of pid e]
  have i4: "kmalloc_inv l2mem (n + 3) (M \<union> {n..<n + 3}) m4"
    by (simp add: m4_def with_tbl_def)
  have u: "convert_to_physical (kva (n + 2)) = kpa (n + 2)"
    using user_address_kva [of "n + 2"] assms(2) by (simp add: kernal_to_user_space_eq)
  have spsr: "spsr_el0t_default = 0" by (simp add: spsr_el0t_default_def)
  have "init_task l2mem sy pid name entry STACK_SZ s = Inr (kva n, s\<lparr>
      blk := (blk s)\<lparr>blk_mm := m4\<rparr>,
      contexts := (contexts s)(ctx := start_context pid e (kpa (n + 2) + STACK_SZ) (contexts s ctx)),
      sch := sched_ready_enqueue (kva n) (upd_task (kva n) (\<lambda>t. t\<lparr>task_id := uint pid, task_name := name,
        kernel_stack := kva (n + 1), user_stack := kpa (n + 2) + STACK_SZ, task_context := ctx\<rparr>) (sch s))\<rparr>)"
    using m1 m2 m3 u
    by (simp add: init_task_def Let_def b0_def kernal_to_user_space_eq e_def ctx_def build_initial_context_def
        start_context_def user_l0_def m4_def with_tbl_def spsr)
  then show ?thesis using i4 by (intro exI [of _ m4]) (auto simp: m4_def)
qed

section \<open>Enqueueing a task whose record has been filled in\<close>

lemma enqueue_filled:
  fixes s :: sched_state
  assumes "rq_rep s xs" and "t \<notin> set xs" and "t \<noteq> 0" and "next_of s t = 0"
    and "\<And>u. next_task (f u) = next_task u"
  defines "s' \<equiv> sched_ready_enqueue t (upd_task t f s)"
  shows "rq_rep s' (xs @ [t])" "a \<noteq> t \<Longrightarrow> a \<notin> set xs \<Longrightarrow> next_of s' a = next_of s a"
    "task_state (tasks s' a) = (if a = t then READY else task_state (tasks s a))"
    "slice_left (tasks s' a) = (if a = t then 10 else slice_left (tasks s a))"
    "task_context (tasks s' a) = (if a = t then task_context (f (tasks s t)) else task_context (tasks s a))"
    "current s' = current s"
proof -
  have r: "rq_rep (upd_task t f s) xs" "next_of (upd_task t f s) t = 0"
    using assms(1,4,5) by (simp_all add: rq_rep_upd_task next_of_upd_task next_of_def)
  note e = sched_ready_enqueue_rep [OF r(1) assms(2,3) r(2)]
  show "rq_rep s' (xs @ [t])" unfolding s'_def by (rule e(1))
  show "a \<noteq> t \<Longrightarrow> a \<notin> set xs \<Longrightarrow> next_of s' a = next_of s a"
    unfolding s'_def by (simp add: e(2) next_of_upd_task)
  show "task_state (tasks s' a) = (if a = t then READY else task_state (tasks s a))"
    "slice_left (tasks s' a) = (if a = t then 10 else slice_left (tasks s a))"
    "current s' = current s"
    unfolding s'_def by (simp_all add: sched_ready_enqueue_fields)
  show "task_context (tasks s' a) = (if a = t then task_context (f (tasks s t)) else task_context (tasks s a))"
    unfolding s'_def by (simp add: sched_ready_enqueue_def Let_def)
qed

lemma kva_distinct: "p < 512 \<Longrightarrow> q < 512 \<Longrightarrow> kva p = kva q \<longleftrightarrow> p = q"
proof -
  assume pq: "p < 512" "q < 512"
  then have u: "unat (of_nat p :: u64) = p" "unat (of_nat q :: u64) = q" by (simp_all add: unat_of_nat)
  have "unat (4096 * of_nat p :: u64) = 4096 * p" "unat (4096 * of_nat q :: u64) = 4096 * q"
    using pq u by (simp_all add: unat_word_ariths)
  moreover have "kva p = kva q \<longleftrightarrow> unat (4096 * of_nat p :: u64) = unat (4096 * of_nat q :: u64)"
    by (simp only: word_unat_eq_iff [symmetric] kva_def add_left_cancel)
  ultimately show "kva p = kva q \<longleftrightarrow> p = q" by simp
qed

lemma kva_nonzero: "p < 512 \<Longrightarrow> kva p \<noteq> 0"
proof
  assume p: "p < 512" and "kva p = 0"
  then have "unat (kva p) = 0" by simp
  moreover have "unat (4096 * of_nat p :: u64) = 4096 * p"
    using p by (simp add: unat_word_ariths unat_of_nat)
  ultimately show False using p by (simp add: kva_def unat_word_ariths)
qed

text \<open>Two tasks queued in turn, and the first made current.\<close>

lemma two_tasks_queued:
  fixes s :: sched_state and f g :: "Task \<Rightarrow> Task" and a b c d :: u64
  assumes "rq_head s = 0" and "rq_tail s = 0" and "next_of s a = 0" and "next_of s b = 0"
    and "b \<noteq> a" and "a \<noteq> 0" and "b \<noteq> 0"
    and "\<And>u. next_task (f u) = next_task u" and "\<And>u. next_task (g u) = next_task u"
    and "\<And>u. task_context (f u) = c" and "\<And>u. task_context (g u) = d"
  defines "t \<equiv> sched_set_current a (sched_ready_enqueue b (upd_task b g (sched_ready_enqueue a (upd_task a f s))))"
  shows "sched_inv t [a, b] 10" "task_context (tasks t a) = c" "task_context (tasks t b) = d"
proof -
  define t1 where "t1 = sched_ready_enqueue a (upd_task a f s)"
  define t2 where "t2 = sched_ready_enqueue b (upd_task b g t1)"
  have r0: "rq_rep s []" using assms(1,2) by (simp add: rq_rep_def)
  note q1 = enqueue_filled [OF r0 _ assms(6,3,8), folded t1_def, simplified]
  have n1: "next_of t1 b = 0" using q1(2) [OF assms(5)] assms(4) by simp
  note q2 = enqueue_filled [OF q1(1) _ assms(7) n1 assms(9), folded t2_def, simplified, OF assms(5)]
  have t: "t = sched_set_current a t2" by (simp add: t_def t2_def t1_def)
  show "sched_inv t [a, b] 10"
    using q1 q2 assms(5-7) by (simp add: t sched_inv_def sched_set_current_def Let_def rq_rep_upd_task)
  show "task_context (tasks t a) = c" "task_context (tasks t b) = d"
    using q1(5) q2(5) assms(5,10,11) by (simp_all add: t sched_set_current_def)
qed

section \<open>The phases of kmain\<close>

lemma kmain_tasks_effect:
  assumes "kmalloc_inv l2mem n M (blk_mm (blk s))" and "n + 6 \<le> 512"
    and "rq_head (sch s) = 0" and "rq_tail (sch s) = 0"
    and "next_of (sch s) (kva n) = 0" and "next_of (sch s) (kva (n + 3)) = 0"
  defines "c1 \<equiv> kva (n + 1) + STACK_SZ - sizeof_Context" and "c2 \<equiv> kva (n + 4) + STACK_SZ - sizeof_Context"
  shows "\<exists>s'. kmain_tasks l2mem sy s = Inr (c1, s') \<and> sched_inv (sch s') [kva n, kva (n + 3)] 10 \<and>
    kmalloc_inv l2mem (n + 6) (M \<union> {n..<n + 6}) (blk_mm (blk s')) \<and>
    map (\<lambda>t. task_context (tasks (sch s') t)) [kva n, kva (n + 3)] = [c1, c2] \<and>
    (\<exists>c. contexts s' c1 = start_context 1 (convert_to_physical (user_process1_sym sy)) (kpa (n + 2) + STACK_SZ) c) \<and>
    (\<exists>c. contexts s' c2 = start_context 2 (convert_to_physical (user_process2_sym sy)) (kpa (n + 5) + STACK_SZ) c) \<and>
    blk_lock (blk s') = blk_lock (blk s) \<and> used_request_index (blk s') = used_request_index (blk s)"
proof -
  let ?e1 = "convert_to_physical (user_process1_sym sy)" and ?e2 = "convert_to_physical (user_process2_sym sy)"
  define f1 where "f1 = (\<lambda>t :: Task. t\<lparr>task_id := 1, task_name := name1_sym sy, kernel_stack := kva (n + 1),
    user_stack := kpa (n + 2) + STACK_SZ, task_context := c1\<rparr>)"
  define f2 where "f2 = (\<lambda>t :: Task. t\<lparr>task_id := 2, task_name := name2_sym sy, kernel_stack := kva (n + 4),
    user_stack := kpa (n + 5) + STACK_SZ, task_context := c2\<rparr>)"
  define t1 where "t1 = sched_ready_enqueue (kva n) (upd_task (kva n) f1 (sch s))"
  define t2 where "t2 = sched_ready_enqueue (kva (n + 3)) (upd_task (kva (n + 3)) f2 t1)"
  have ar: "n + 3 + 1 = n + 4" "n + 3 + 2 = n + 5" "n + 3 + 3 = n + 6" by simp_all
  have nx: "next_task (f1 u) = next_task u" "next_task (f2 u) = next_task u" for u
    by (simp_all add: f1_def f2_def)
  have d: "kva (n + 3) \<noteq> kva n" "kva n \<noteq> 0" "kva (n + 3) \<noteq> 0" "c2 \<noteq> c1"
    using assms(2) by (simp_all add: kva_distinct kva_nonzero c1_def c2_def)
  have cx: "task_context (f1 u) = c1" "task_context (f2 u) = c2" for u by (simp_all add: f1_def f2_def)
  have q: "sched_inv (sched_set_current (kva n) t2) [kva n, kva (n + 3)] 10"
    "task_context (tasks (sched_set_current (kva n) t2) (kva n)) = c1"
    "task_context (tasks (sched_set_current (kva n) t2) (kva (n + 3))) = c2"
    unfolding t2_def t1_def by (rule two_tasks_queued [OF assms(3-6) d(1-3) nx cx])+
  let ?s0 = "s\<lparr>blk := (blk s)\<lparr>daif := mask_interrupts (daif (blk s))\<rparr>\<rparr>"
  obtain m1 where i1: "kmalloc_inv l2mem (n + 3) (M \<union> {n..<n + 3}) m1"
    and e1: "init_task l2mem sy 1 (name1_sym sy) (user_process1_sym sy) STACK_SZ ?s0 = Inr (kva n, ?s0\<lparr>
      blk := (blk ?s0)\<lparr>blk_mm := m1\<rparr>,
      contexts := (contexts s)(c1 := start_context 1 ?e1 (kpa (n + 2) + STACK_SZ) (contexts s c1)),
      sch := t1\<rparr>)"
    using init_task_effect [of l2mem n M ?s0 1 "user_process1_sym sy" sy "name1_sym sy"] assms(1,2)
    by (auto simp: t1_def f1_def c1_def)
  define s1 where "s1 = ?s0\<lparr>blk := (blk ?s0)\<lparr>blk_mm := m1\<rparr>,
      contexts := (contexts s)(c1 := start_context 1 ?e1 (kpa (n + 2) + STACK_SZ) (contexts s c1)),
      sch := t1\<rparr>"
  obtain m2 where i2: "kmalloc_inv l2mem (n + 6) (M \<union> {n..<n + 3} \<union> {n + 3..<n + 6}) m2"
    and e2: "init_task l2mem sy 2 (name2_sym sy) (user_process2_sym sy) STACK_SZ s1 = Inr (kva (n + 3), s1\<lparr>
      blk := (blk s1)\<lparr>blk_mm := m2\<rparr>,
      contexts := (contexts s1)(c2 := start_context 2 ?e2 (kpa (n + 5) + STACK_SZ) (contexts s1 c2)),
      sch := t2\<rparr>)"
    using init_task_effect [of l2mem "n + 3" "M \<union> {n..<n + 3}" s1 2 "user_process2_sym sy" sy "name2_sym sy", unfolded ar] i1 assms(2)
    by (auto simp: t2_def f2_def c2_def s1_def)
  have un: "M \<union> {n..<n + 3} \<union> {n + 3..<n + 6} = M \<union> {n..<n + 6}" by auto
  show ?thesis
    using e1 e2 q i2 d(4) unfolding un
    by (auto simp: kmain_tasks_def Let_def s1_def [symmetric]) (auto simp: s1_def)
qed

lemma kmain_devices_frame [simp]:
  "blk (kmain_devices udev s) = blk s" "contexts (kmain_devices udev s) = contexts s"
  "drive_info (kmain_devices udev s) = drive_info s"
  "rq_head (sch (kmain_devices udev s)) = rq_head (sch s)" "rq_tail (sch (kmain_devices udev s)) = rq_tail (sch s)"
  "next_of (sch (kmain_devices udev s)) = next_of (sch s)"
  by (simp_all add: kmain_devices_def Let_def gic_init_def w32_def timer_init_1khz_def enable_cntv_def set_cntv_eq
      read_cntfrq_def next_of_def [abs_def])

text \<open>RAM below 16 GiB: the size of the bitmap passes the test of \<open>mem_block\<close>.\<close>

lemma init_allocation_map_small: "total_ram < 0x400000000 \<Longrightarrow> init_allocation_map start total_ram = start"
proof -
  assume "total_ram < 0x400000000"
  then have "unat total_ram div 4096 div 8 < 524288" by (simp add: word_less_nat_alt)
  then have "\<not> 524288 \<le> total_ram div 4096 div 8" by (simp add: word_le_nat_alt unat_div)
  then show ?thesis by (simp add: init_allocation_map_def mem_block_def Let_def)
qed

lemma kmain_memory_effect:
  assumes "l3_pool_ok l2mem" and "tbl (blk_mm (blk s)) = mmu_init_tables l2mem m" and "ALLOCATED (blk_mm (blk s)) = 0"
    and "bump \<lparr>buffer = (\<lambda>i. ram (start + i))\<rparr> 0" and "total_ram < 0x400000000"
  shows "\<exists>mm bs. kmain_memory l2mem start ram total_ram s = Inr (s\<lparr>blk := (blk s)\<lparr>blk_mm := mm\<rparr>, bytes := bs\<rparr>) \<and>
    kmalloc_inv l2mem 4 {..<4} mm"
proof -
  have p: "pages_needed 16000 = 4" by (simp add: pages_needed_def)
  let ?mm = "init_bitmap ram start (blk_mm (blk s))"
  have "kmalloc_inv l2mem 0 {} ?mm"
    by (rule kmalloc_inv_init [OF assms(1)]) (simp_all add: init_bitmap_def assms)
  then obtain mm where "kmalloc l2mem 16000 ?mm = Inr (kva 0, mm)" "kmalloc_inv l2mem 4 {..<4} mm"
    using kma.alloc_next [of l2mem 0 "{}" ?mm 16000] by (auto simp: p atLeast0LessThan)
  then show ?thesis
    by (auto simp: kmain_memory_def Let_def init_allocation_map_small [OF assms(5)] kmalloc_in_def)
qed

lemma kmain_drive_effect:
  assumes "kmalloc_inv l2mem n {..<n} (blk_mm (blk s))" and "n + 8 \<le> 512"
    and "get_drive_info dtb (drive_info s) = Some info" and "fst (probe vdev 0 (blk_bus (blk s))) \<noteq> 0"
  shows "\<exists>b. kmain_drive l2mem vdev dtb s = Some (Inr (s\<lparr>drive_info := info, blk := b\<rparr>)) \<and>
    kmalloc_inv l2mem (n + 8) {..<n + 8} (blk_mm b) \<and> blk_lock b = 0 \<and> (\<forall>i < 12. used_request_index b i = 0)"
proof -
  have p: "pages_needed 48 = 1" by (simp add: pages_needed_def)
  obtain mm where mm: "kmalloc_in l2mem 48 s = Inr (kva n, s\<lparr>blk := (blk s)\<lparr>blk_mm := mm\<rparr>\<rparr>)"
    and i1: "kmalloc_inv l2mem (n + 1) ({..<n} \<union> {n..<n + 1}) mm"
    using kmalloc_in_next [OF assms(1) p] assms(2) by auto
  have un: "n + 1 + 7 = n + 8" "{..<n} \<union> {n..<n + 1} \<union> {n + 1..<n + 8} = {..<n + 8}" by auto
  have "\<exists>b. init_virtio_backend l2mem vdev (info 0) ((blk s)\<lparr>blk_mm := mm\<rparr>) = Inr b \<and>
      kmalloc_inv l2mem (n + 1 + 7) ({..<n} \<union> {n..<n + 1} \<union> {n + 1..<n + 1 + 7}) (blk_mm b) \<and>
      blk_lock b = 0 \<and> (\<forall>i < 12. used_request_index b i = 0)"
    using init_virtio_backend_state [of l2mem "n + 1" "{..<n} \<union> {n..<n + 1}" "(blk s)\<lparr>blk_mm := mm\<rparr>" vdev "info 0"]
      i1 assms(2,4) by auto
  then obtain b where "init_virtio_backend l2mem vdev (info 0) ((blk s)\<lparr>blk_mm := mm\<rparr>) = Inr b"
    "kmalloc_inv l2mem (n + 8) {..<n + 8} (blk_mm b)" "blk_lock b = 0" "\<forall>i < 12. used_request_index b i = 0"
    unfolding un by blast
  then show ?thesis using mm assms(3) by (intro exI [of _ b]) (simp add: kmain_drive_def)
qed

lemma kmain_block_test_effect:
  assumes "kmalloc_inv l2mem n {..<n} (blk_mm (blk s))" and "n + 5 \<le> 512" and "blk_lock (blk s) = 0"
    and "stores_succeed stx" and "device_completes used" and "used_request_index (blk s) 0 = 0"
  shows "\<exists>b bs. kmain_block_test l2mem stx used s = Some (Inr (s\<lparr>bytes := bs, blk := b\<rparr>)) \<and>
    kmalloc_inv l2mem (n + 5) {..<n + 5} (blk_mm b) \<and> blk_lock b = 0 \<and> used_request_index b 0 = 0"
proof -
  have p: "pages_needed 4 = 1" by (simp add: pages_needed_def)
  obtain mm where mm: "kmalloc_in l2mem 4 s = Inr (kva n, s\<lparr>blk := (blk s)\<lparr>blk_mm := mm\<rparr>\<rparr>)"
    and i1: "kmalloc_inv l2mem (n + 1) ({..<n} \<union> {n..<n + 1}) mm"
    using kmalloc_in_next [OF assms(1) p] assms(2) by auto
  let ?b = "(blk s)\<lparr>blk_mm := mm\<rparr>"
  have free: "free_slot (used_request_index (blk s)) 0 = Some 0" using assms(6) by (simp add: free_slot_Some)
  have upd: "(used_request_index (blk s))(0 := 1, 0 * 3 := 0) = used_request_index (blk s)"
    using assms(6) by (simp add: fun_upd_idem)
  have fl: "VIRTIO_DESC_F_NEXT AND VIRTIO_DESC_F_NEXT \<noteq> 0"
    "(VIRTIO_DESC_F_NEXT OR VIRTIO_DESC_F_WRITE) AND VIRTIO_DESC_F_NEXT \<noteq> 0"
    by (simp_all add: VIRTIO_DESC_F_NEXT_def VIRTIO_DESC_F_WRITE_def)
  obtain r1 b1 where w: "block_write l2mem stx used 1000 (kva n) 512 ?b = Some (Inr (r1, b1))"
    and b1: "used_request_index b1 = used_request_index (blk s)" "blk_lock b1 = 0"
      "kmalloc_inv l2mem (n + 1 + 2) ({..<n} \<union> {n..<n + 1} \<union> {n + 1..<n + 1 + 2}) (blk_mm b1)"
    using block_request_returns [of l2mem "n + 1" "{..<n} \<union> {n..<n + 1}" ?b stx used 0 VIRTIO_DESC_F_NEXT
        VIRTIO_BLK_T_OUT 1000 "kva n" 512] i1 assms(2-5) free upd fl(1)
    by (auto simp: block_write_def simp del: lessThan_Suc)
  obtain r2 b2 where r: "block_read l2mem stx used 1000 (kva n) 512 b1 = Some (Inr (r2, b2))"
    and b2: "blk_lock b2 = 0" "used_request_index b2 0 = 0" "kmalloc_inv l2mem (n + 1 + 2 + 2)
      ({..<n} \<union> {n..<n + 1} \<union> {n + 1..<n + 1 + 2} \<union> {n + 1 + 2..<n + 1 + 2 + 2}) (blk_mm b2)"
    using block_request_returns [of l2mem "n + 1 + 2" _ b1 stx used 0 "VIRTIO_DESC_F_NEXT OR VIRTIO_DESC_F_WRITE"
        VIRTIO_BLK_T_IN 1000 "kva n" 512, OF b1(3) _ b1(2) assms(4,5) _ fl(2)] assms(2) free b1(1)
    by (auto simp: block_read_def simp del: lessThan_Suc)
  have un: "{..<n} \<union> {n..<n + 1} \<union> {n + 1..<n + 1 + 2} \<union> {n + 1 + 2..<n + 5} = {..<n + 5}"
    "n + 1 + 2 + 2 = n + 5" by auto
  have "kmalloc_inv l2mem (n + 5) {..<n + 5} (blk_mm b2)" using b2(3) unfolding un(2) un(1) .
  then show ?thesis using mm w r b2(1,2) by (auto simp: kmain_block_test_def Let_def)
qed

text \<open>The whole of \<open>kmain\<close>: 23 pages are taken, both tasks are queued, and their contexts are written.\<close>

lemma kmain_effect:
  assumes "l3_pool_ok l2mem" and "tbl (blk_mm (blk s)) = mmu_init_tables l2mem m" and "ALLOCATED (blk_mm (blk s)) = 0"
    and "bump \<lparr>buffer = (\<lambda>i. ram (start + i))\<rparr> 0" and "total_ram < 0x400000000"
    and "get_drive_info dtb (drive_info s) = Some info" and "fst (probe vdev 0 (blk_bus (blk s))) \<noteq> 0"
    and "stores_succeed stx" and "device_completes used"
    and "rq_head (sch s) = 0" and "rq_tail (sch s) = 0"
    and "next_of (sch s) (kva 17) = 0" and "next_of (sch s) (kva 20) = 0"
  shows "\<exists>s'. kmain l2mem start sy udev vdev stx used ram dtb total_ram s = Some (Inr (kva 18 + 0xEE0, s')) \<and>
    sched_inv (sch s') [kva 17, kva 20] 10 \<and> kmalloc_inv l2mem 23 {..<23} (blk_mm (blk s')) \<and>
    blk_lock (blk s') = 0 \<and> used_request_index (blk s') 0 = 0 \<and>
    task_context (tasks (sch s') (kva 17)) = kva 18 + 0xEE0 \<and>
    task_context (tasks (sch s') (kva 20)) = kva 21 + 0xEE0 \<and>
    (let c = contexts s' (kva 18 + 0xEE0) in
       elr_el1 c = convert_to_physical (user_process1_sym sy) \<and> sp_el0 c = kpa 19 + 4096 \<and>
       spsr_el1 c = 0 \<and> ttbr0_el1 c = USER_PROCESS_1_TABLE_START) \<and>
    (let c = contexts s' (task_context (tasks (sch s') (kva 20))) in
       elr_el1 c = convert_to_physical (user_process2_sym sy) \<and> sp_el0 c = kpa 22 + 4096 \<and>
       spsr_el1 c = 0 \<and> ttbr0_el1 c = USER_PROCESS_2_TABLE_START)"
proof -
  let ?s0 = "kmain_devices udev s"
  obtain mm bs where k1: "kmain_memory l2mem start ram total_ram ?s0 = Inr (?s0\<lparr>blk := (blk s)\<lparr>blk_mm := mm\<rparr>, bytes := bs\<rparr>)"
    and i1: "kmalloc_inv l2mem 4 {..<4} mm"
    using kmain_memory_effect [OF assms(1), of ?s0 m ram start total_ram] assms(2-5) by auto
  define s1 where "s1 = ?s0\<lparr>blk := (blk s)\<lparr>blk_mm := mm\<rparr>, bytes := bs\<rparr>"
  obtain b where k2: "kmain_drive l2mem vdev dtb s1 = Some (Inr (s1\<lparr>drive_info := info, blk := b\<rparr>))"
    and i2: "kmalloc_inv l2mem 12 {..<12} (blk_mm b)" "blk_lock b = 0" "\<forall>i < 12. used_request_index b i = 0"
    using kmain_drive_effect [of l2mem 4 s1 dtb info vdev] i1 assms(6,7) by (auto simp: s1_def)
  define s2 where "s2 = s1\<lparr>drive_info := info, blk := b\<rparr>"
  obtain b' bs' where k3: "kmain_block_test l2mem stx used s2 = Some (Inr (s2\<lparr>bytes := bs', blk := b'\<rparr>))"
    and i3: "kmalloc_inv l2mem 17 {..<17} (blk_mm b')" "blk_lock b' = 0" "used_request_index b' 0 = 0"
    using kmain_block_test_effect [of l2mem 12 s2 stx used] i2 assms(8,9) by (auto simp: s2_def)
  define s3 where "s3 = s2\<lparr>bytes := bs', blk := b'\<rparr>"
  have sch: "sch s3 = sch ?s0" by (simp add: s3_def s2_def s1_def)
  have un: "{..<17} \<union> {17..<23 :: nat} = {..<23}" by auto
  have ar: "(17 :: nat) + 6 = 23" "(17 :: nat) + 1 = 18" "(17 :: nat) + 2 = 19" "(17 :: nat) + 3 = 20"
    "(17 :: nat) + 4 = 21" "(17 :: nat) + 5 = 22" by simp_all
  have i4: "blk_lock (blk s3) = 0" "used_request_index (blk s3) 0 = 0" using i3(2,3) by (simp_all add: s3_def)
  have i3': "kmalloc_inv l2mem 17 {..<17} (blk_mm (blk s3))" using i3(1) by (simp add: s3_def)
  obtain s' c c' where k4: "kmain_tasks l2mem sy s3 = Inr (kva 18 + STACK_SZ - sizeof_Context, s')"
    and r: "sched_inv (sch s') [kva 17, kva 20] 10" "kmalloc_inv l2mem 23 {..<23} (blk_mm (blk s'))"
      "task_context (tasks (sch s') (kva 17)) = kva 18 + STACK_SZ - sizeof_Context"
      "task_context (tasks (sch s') (kva 20)) = kva 21 + STACK_SZ - sizeof_Context"
      "contexts s' (kva 18 + STACK_SZ - sizeof_Context) =
         start_context 1 (convert_to_physical (user_process1_sym sy)) (kpa 19 + STACK_SZ) c"
      "contexts s' (kva 21 + STACK_SZ - sizeof_Context) =
         start_context 2 (convert_to_physical (user_process2_sym sy)) (kpa 22 + STACK_SZ) c'"
      "blk_lock (blk s') = blk_lock (blk s3)" "used_request_index (blk s') = used_request_index (blk s3)"
    using kmain_tasks_effect [OF i3', of sy, unfolded ar un sch kmain_devices_frame] assms(10-13) by auto
  have c: "kva 18 + STACK_SZ - sizeof_Context = kva 18 + 0xEE0" "kva 21 + STACK_SZ - sizeof_Context = kva 21 + 0xEE0"
    by (simp_all add: STACK_SZ_def sizeof_Context_def kva_def)
  show ?thesis
    using k1 k2 k3 k4 r i4 unfolding c
    by (simp add: kmain_def Let_def s1_def [symmetric] s2_def [symmetric] s3_def [symmetric])
      (simp add: start_context_def user_l0_def STACK_SZ_def)
qed

section \<open>Properties\<close>

text \<open>
  C23. \<open>init_task\<close>, given three pages of the pool, prepares a task that can run: its record points
  to a context on its kernel stack with the entry of the program, the top of the user stack, the
  status of EL0 with interrupts enabled and the tables of the process; the task is last in the
  run queue, ready with a full slice; and the tables of the process map the page of the entry
  and the page of the user stack to themselves, provided the stack does not have the l3 index
  of one of the ten code pages.
\<close>

theorem init_task_ready:
  assumes "kmalloc_inv l2mem n M (blk_mm (blk s))" and "n + 3 \<le> 512"
    and "rq_rep (sch s) xs" and "kva n \<notin> set xs" and "next_of (sch s) (kva n) = 0"
    and "\<forall>i < 10. calc_index_l3 (convert_to_physical entry + 4096 * of_nat i) \<noteq> calc_index_l3 (kpa (n + 2))"
  shows "\<exists>s'. init_task l2mem sy pid name entry STACK_SZ s = Inr (kva n, s') \<and>
    (let t = tasks (sch s') (kva n); c = contexts s' (task_context t) in
       task_context t = kva (n + 1) + STACK_SZ - 288 \<and> task_state t = READY \<and> slice_left t = 10 \<and>
       elr_el1 c = convert_to_physical entry \<and> sp_el0 c = kpa (n + 2) + 4096 \<and> spsr_el1 c = 0 \<and>
       ttbr0_el1 c = user_l0 pid \<and> rq_rep (sch s') (xs @ [kva n]) \<and>
       walk (tbl (blk_mm (blk s'))) (ttbr0_el1 c) (elr_el1 c) = Some (elr_el1 c) \<and>
       (\<forall>va. drop_bit 12 va = drop_bit 12 (kpa (n + 2)) \<longrightarrow>
          walk (tbl (blk_mm (blk s'))) (ttbr0_el1 c) va = Some (convert_to_physical va)))"
proof -
  let ?e = "convert_to_physical entry"
  define f where "f = (\<lambda>t :: Task. t\<lparr>task_id := uint pid, task_name := name, kernel_stack := kva (n + 1),
    user_stack := kpa (n + 2) + STACK_SZ, task_context := kva (n + 1) + STACK_SZ - sizeof_Context\<rparr>)"
  obtain m t where tb: "tbl m = map_user_to_physical pid ?e (map_user_to_physical_test pid (kpa (n + 2)) t)"
    and r: "init_task l2mem sy pid name entry STACK_SZ s = Inr (kva n, s\<lparr>
      blk := (blk s)\<lparr>blk_mm := m\<rparr>,
      contexts := (contexts s)(kva (n + 1) + STACK_SZ - sizeof_Context := start_context pid ?e (kpa (n + 2) + STACK_SZ)
        (contexts s (kva (n + 1) + STACK_SZ - sizeof_Context))),
      sch := sched_ready_enqueue (kva n) (upd_task (kva n) f (sch s))\<rparr>)"
    using init_task_effect [OF assms(1,2), of pid entry sy name] unfolding f_def by blast
  have nx: "next_task (f u) = next_task u" for u by (simp add: f_def)
  have nz: "kva n \<noteq> 0" using assms(2) by (simp add: kva_nonzero)
  note q = enqueue_filled [OF assms(3,4) nz assms(5) nx]
  have "walk (tbl m) (user_l0 pid) ?e = Some (convert_to_physical ?e)"
    unfolding tb by (rule map_user_walk [of 0]) (use calc_index_bound(4) [of ?e] in \<open>simp_all add: word_less_nat_alt\<close>)
  moreover have "convert_to_physical ?e = ?e"
    by (simp add: convert_to_physical_def and.assoc [symmetric])
  moreover have "walk (tbl m) (user_l0 pid) va = Some (convert_to_physical va)"
    if "drop_bit 12 va = drop_bit 12 (kpa (n + 2))" for va
    unfolding tb by (rule map_test_then_map_walk [OF that assms(6)])
  ultimately show ?thesis
    using r q by (simp add: f_def start_context_def Let_def sizeof_Context_def STACK_SZ_def)
qed

text \<open>
  The second user program writes outside its array: it starts at index 4 of five bytes, so
  the second of its five stores is past the end; the first program fills exactly its array.
\<close>

lemma user_programs_fill:
  assumes "length test = 5"
  shows "user_process1_test test = Some (replicate 5 65) \<and> user_process2_test test = None"
proof -
  obtain a b c d e where "test = [a, b, c, d, e]"
    using assms by (auto simp: numeral_eq_Suc length_Suc_conv)
  then show ?thesis
    by (simp add: user_process1_test_def user_process2_test_def numeral_eq_Suc)
qed

lemma user_programs_fill_witness:
  "user_process1_test [0, 0, 0, 0, 0] = Some [65, 65, 65, 65, 65] \<and> user_process2_test [0, 0, 0, 0, 0] = None"
  using user_programs_fill [of "[0, 0, 0, 0, 0]"] by (simp add: numeral_eq_Suc)

section \<open>The properties at concrete states\<close>

text \<open>A device in the first slot of the register range, an empty device tree, and a machine after reset.\<close>

definition first_slot_device :: device where
  "first_slot_device h a = (if a = 0xffff000086400000 then 0x74726976 else 2)"

definition end_blob :: "u64 \<Rightarrow> u8" where
  "end_blob = (\<lambda>_. 0)(0xffff000085400003 := 9)"

definition reset_kernel :: kernel where
  "reset_kernel = \<lparr>blk = block_boot (\<lambda>_. 7), sch = idle_sched,
     contexts = (\<lambda>_. \<lparr>x_regs = replicate 31 0, sp_el0 = 0, elr_el1 = 0, spsr_el1 = 0, ttbr0_el1 = 0\<rparr>),
     bytes = (\<lambda>_. 0), drive_info = (\<lambda>_. 0x0a000000), uart_bus = []\<rparr>"

definition linked_symbols :: symbols where
  "linked_symbols = \<lparr>sys_write_sym = 0xFFFF000080001000, uart_printf_sym = 0xFFFF000080002000,
     user_process1_sym = 0xFFFF000080001040, user_process2_sym = 0xFFFF0000800010C0,
     name1_sym = 0xFFFF000080005000, name2_sym = 0xFFFF000080005010\<rparr>"

lemma first_slot_found: "fst (probe first_slot_device 0 h) \<noteq> 0"
  by (subst probe.simps)
    (simp add: check_virtio_driver_def read_u32_def bus_read_def first_slot_device_def VIRTIO_REGS_def
      VIRTIO_MAGIC_VALUE_def VIRTIO_VERSION_def VIRTIO_DEVICEID_def Let_def)

lemma end_blob_info: "get_drive_info end_blob r = Some r"
proof -
  have tok: "drive_token end_blob a (0xffff000085400000, False, r) = Some (Inr r)" for a
    by (simp add: drive_token_def read_b32_def end_blob_def TOKEN_BEGIN_NODE_def TOKEN_PROP_def
        TOKEN_END_NODE_def TOKEN_NOP_def TOKEN_END_def)
  have "get_drive_info end_blob r = token_loop (drive_token end_blob 0xffff000085400000) (0xffff000085400000, False, r)"
    by (simp add: get_drive_info_def dtb_off_dt_struct_def dtb_off_dt_strings_def load32_def bswap32_def
        end_blob_def Let_def)
  then show ?thesis by (simp add: token_loop.simps tok)
qed

lemma reset_kernel_simps [simp]:
  "blk_mm (blk reset_kernel) = boot_state" "sch reset_kernel = idle_sched" "drive_info reset_kernel = (\<lambda>_. 0x0a000000)"
  by (simp_all add: reset_kernel_def)

theorem init_task_ready_witness:
  "\<exists>s'. init_task 0x8008e000 linked_symbols 1 0 0xFFFF000080012040 STACK_SZ reset_kernel = Inr (0xFFFF0000C0000000, s') \<and>
     walk (tbl (blk_mm (blk s'))) 0x80A00000 0x80012040 = Some 0x80012040"
proof -
  have s: "rq_rep (sch reset_kernel) []" "next_of (sch reset_kernel) (kva 0) = 0" by (simp_all add: rq_rep_def)
  have "calc_index_l3 (convert_to_physical 0xFFFF000080012040 + 4096 * of_nat i) \<noteq> calc_index_l3 (kpa (0 + 2))"
    if "i < 10" for i
  proof
    assume eq: "calc_index_l3 (convert_to_physical 0xFFFF000080012040 + 4096 * of_nat i) = calc_index_l3 (kpa (0 + 2))"
    have "(524306 + i) mod 512 = unat (calc_index_l3 (convert_to_physical 0xFFFF000080012040 + 4096 * of_nat i))"
      by (simp add: calc_index_l3_plus [of "convert_to_physical 0xFFFF000080012040" i]) (simp add: convert_to_physical_def)
    moreover have "unat (calc_index_l3 (kpa (0 + 2))) = 2" by (simp add: kpa_def calc_index_l3_def)
    moreover have "(524306 + i) mod 512 \<noteq> 2" 
    proof -
      have "524306 + i = (18 + i) + 512 * 1024" by simp
      then have "(524306 + i) mod 512 = (18 + i) mod 512" by (simp only: mod_mult_self2)
      then show ?thesis using that by simp
    qed
    ultimately show False using eq by simp
  qed
  then show ?thesis
    using init_task_ready [of "0x8008e000" 0 "{}" reset_kernel "[]" "0xFFFF000080012040" linked_symbols 1 0] s
      boot_state_inv
    by (auto simp: Let_def kva_def user_l0_def convert_to_physical_def)
qed

end
