(* ===== verification/System.thy ===== *)
theory System
  imports Handlers Vectors Boot
begin

text \<open>
  The components put together: user programs that run under the timer interrupt.  A \<open>system\<close> is
  the machine of the vectors and the state of the scheduler.  Between two interrupts the
  running program does anything to its own registers; an interrupt runs the vector, whose call
  of \<open>irq_dispatcher\<close> is the model of the C function.  The abstract system has only the ring of
  tasks and one context per task; the refinement relation says that the running program is in
  the registers and every other one in the frame on its kernel stack.
\<close>

section \<open>The concrete system\<close>

record system =
  mach :: machine
  scd :: sched_state

text \<open>
  The C function as the vector sees it: it returns the frame in \<open>x0\<close>, and \<open>clob\<close> is whatever its
  code does to other registers and to its own part of the stack.
\<close>

definition system_irq :: "(machine \<Rightarrow> machine) \<Rightarrow> device \<Rightarrow> u64 \<Rightarrow> system \<Rightarrow> system" where
  "system_irq clob dev vector s =
    (let m = take_exception vector (mach s);
         (c, sc) = irq_dispatcher dev (SP m - CTX_SIZE) ((scd s)\<lparr>SPSR_EL1 := SPSR m\<rparr>)
     in \<lparr>mach = el1_irq_entry (\<lambda>t. mov_x 0 c (clob t)) m, scd = sc\<rparr>)"

text \<open>A program computes on its registers; it cannot change the tables or the exception level.\<close>

definition set_running :: "Context \<Rightarrow> machine \<Rightarrow> machine" where
  "set_running c m = m\<lparr>X := (\<lambda>i. if i < 31 then x_regs c ! i else X m i), SP_EL0 := sp_el0 c,
     PC := elr_el1 c, PSTATE := spsr_el1 c, TTBR0 := ttbr0_el1 c\<rparr>"

definition user_run :: "(Context \<Rightarrow> Context) \<Rightarrow> system \<Rightarrow> system" where
  "user_run u s = s\<lparr>mach := set_running (u (running (mach s))) (mach s)\<rparr>"

section \<open>The abstract system\<close>

text \<open>The ring with the running task first, its remaining ticks, and the context of every task.\<close>

type_synonym ring = "u64 list \<times> nat \<times> (u64 \<Rightarrow> Context)"

fun ring_run :: "(u64 \<Rightarrow> Context \<Rightarrow> Context) \<Rightarrow> ring \<Rightarrow> ring" where
  "ring_run u (xs, k, P) = (xs, k, P(hd xs := u (hd xs) (P (hd xs))))"

fun ring_tick :: "ring \<Rightarrow> ring" where
  "ring_tick (xs, k, P) = (if 1 < k then (xs, k - 1, P) else (rotate1 xs, 10, P))"

section \<open>The relation\<close>

definition user_context :: "Context \<Rightarrow> bool" where
  "user_context c \<longleftrightarrow> length (x_regs c) = 31 \<and> drop_bit 2 (spsr_el1 c) AND mask 2 \<noteq> 1"

definition frames_apart :: "(u64 \<Rightarrow> u64) \<Rightarrow> u64 list \<Rightarrow> bool" where
  "frames_apart F xs \<longleftrightarrow> (\<forall>s \<in> set xs. \<forall>t \<in> set xs. s \<noteq> t \<longrightarrow> frame (F s) \<inter> frame (F t) = {})"

fun system_rel :: "(u64 \<Rightarrow> u64) \<Rightarrow> system \<Rightarrow> ring \<Rightarrow> bool" where
  "system_rel F s (xs, k, P) \<longleftrightarrow>
     sched_inv (scd s) xs k \<and> frames_apart F xs \<and> (\<forall>t \<in> set xs. user_context (P t)) \<and>
     running (mach s) = P (hd xs) \<and> SP (mach s) = F (hd xs) + CTX_SIZE \<and>
     (\<forall>t \<in> set (tl xs). task_context (tasks (scd s) t) = F t \<and> context_at (words (mach s)) (F t) = P t)"

section \<open>Steps\<close>

lemma running_set_running: "length (x_regs c) = 31 \<Longrightarrow> running (set_running c m) = c"
proof -
  assume l: "length (x_regs c) = 31"
  have "map (\<lambda>i. if i < 31 then x_regs c ! i else X m i) [0..<31] = x_regs c"
    by (rule nth_equalityI) (simp_all add: l)
  then show ?thesis by (simp add: running_def set_running_def)
qed

lemma user_run_rel:
  assumes "system_rel F s (xs, k, P)" and "\<And>c. user_context c \<Longrightarrow> user_context (u (hd xs) c)"
  shows "system_rel F (user_run (u (hd xs)) s) (ring_run u (xs, k, P))"
proof -
  have h: "hd xs \<in> set xs" "hd xs \<notin> set (tl xs)"
    using sched_inv_hd [of "scd s" xs k] assms(1) by auto
  then have "user_context (u (hd xs) (P (hd xs)))" using assms by simp
  then have "running (set_running (u (hd xs) (P (hd xs))) m) = u (hd xs) (P (hd xs))" for m
    by (intro running_set_running) (simp add: user_context_def)
  then show ?thesis
    using assms(1) h \<open>user_context (u (hd xs) (P (hd xs)))\<close>
    by (auto simp: user_run_def) (auto simp: set_running_def)
qed

text \<open>The interrupt from a user program, when the controller reports the timer.\<close>

lemma sched_inv_spsr: "sched_inv (s\<lparr>SPSR_EL1 := v\<rparr>) xs k \<longleftrightarrow> sched_inv s xs k"
  by (simp add: sched_inv_def rq_rep_def next_of_def [abs_def])

lemma irq_dispatcher_user:
  assumes "sched_inv s xs k" and "\<forall>h. dev h 0xffff00008141000C AND 0x3FF = 27"
    and "drop_bit 2 (SPSR_EL1 s) AND mask 2 \<noteq> 1"
  shows "case irq_dispatcher dev f s of (c, s') \<Rightarrow>
    (if 1 < k then c = f \<and> sched_inv s' xs (k - 1)
     else c = task_context (tasks s' (hd (rotate1 xs))) \<and> sched_inv s' (rotate1 xs) 10) \<and>
    (\<forall>t. task_context (tasks s' t) = (if t = hd xs then f else task_context (tasks s t)))"
proof -
  let ?s = "retimed (acknowledged dev s)"
  have inv: "sched_inv ?s xs k" using assms(1) by (simp add: retimed_fields)
  have el: "check_current_el s = 0" using assms(3) by (simp add: check_current_el_def Let_def)
  have e: "irq_dispatcher dev f s = (fst (schedule_on_tick f ?s), (snd (schedule_on_tick f ?s))
      \<lparr>gic_bus := gic_bus (snd (schedule_on_tick f ?s)) @ [BusWrite 0xffff000081410010 (dev (gic_bus s) 0xffff00008141000C)]\<rparr>)"
    using assms(2) el by (simp add: irq_dispatcher_eq Let_def split_beta)
  have c: "task_context (tasks (snd (schedule_on_tick f ?s)) t) = (if t = hd xs then f else task_context (tasks s t))" for t
  proof (cases "1 < k")
    case True
    then show ?thesis using tick_counts_down(3) [OF inv True] sched_inv_hd(4) [OF inv] by (simp add: retimed_fields)
  next
    case False
    then have "k = 1" using assms(1) by (simp add: sched_inv_def)
    then show ?thesis using tick_switches(3) [of ?s xs] inv sched_inv_hd(4) [OF inv] by (simp add: retimed_fields)
  qed
  show ?thesis
    using tick_effect [OF inv, where tf = f] c by (auto simp: e split: if_splits)
qed

lemma frames_apart_rotate: "frames_apart F (rotate1 xs) \<longleftrightarrow> frames_apart F xs"
  by (simp add: frames_apart_def)

lemma set_tl_rotate1:
  assumes "distinct xs" and "t \<in> set (tl (rotate1 xs))"
  shows "t \<in> set xs" "t \<noteq> hd (rotate1 xs)"
proof -
  show "t \<in> set xs" using list.set_sel(2) [of "rotate1 xs" t] assms(2) by (cases "rotate1 xs = []") auto
  have "distinct (rotate1 xs)" using assms(1) by simp
  then show "t \<noteq> hd (rotate1 xs)" using assms(2) by (cases "rotate1 xs") auto
qed

text \<open>
  The vector over the frames of all tasks: \<open>h\<close> runs and is saved in its frame, \<open>n\<close> is resumed from
  its own, and every other frame is as it was.
\<close>

lemma vector_over_frames:
  fixes m0 :: machine and F :: "u64 \<Rightarrow> u64" and P :: "u64 \<Rightarrow> Context" and xs :: "u64 list"
    and h n v :: u64 and clob :: "machine \<Rightarrow> machine"
  assumes "frames_apart F xs" and "h \<in> set xs" and "n \<in> set xs" and "SP m0 = F h + CTX_SIZE"
    and "running m0 = P h" and "\<forall>t \<in> set xs. t \<noteq> h \<longrightarrow> context_at (words m0) (F t) = P t"
    and "\<forall>t \<in> set xs. \<forall>a \<in> frame (F t). \<forall>m. words (clob m) a = words m a"
  defines "m \<equiv> el1_irq_entry (\<lambda>t. mov_x 0 (F n) (clob t)) (take_exception v m0)"
  shows "running m = P n" "SP m = F n + CTX_SIZE" "\<And>t. t \<in> set xs \<Longrightarrow> context_at (words m) (F t) = P t"
proof -
  let ?K = "\<Union>t \<in> set xs. frame (F t)" and ?disp = "\<lambda>t. mov_x 0 (F n) (clob t)"
  have own: "SP m0 - CTX_SIZE = F h" by (simp add: assms(4))
  have sub: "frame (SP m0 - CTX_SIZE) \<subseteq> ?K" using assms(2) by (auto simp: own)
  have x0: "\<forall>t. X (?disp t) 0 = F n" by simp
  have keep: "\<forall>t. \<forall>a \<in> ?K. words (?disp t) a = words t a" using assms(7) by auto
  have sw: "running m = context_at (words m) (F n)" "SP m = F n + CTX_SIZE" "context_at (words m) (F h) = P h"
    "\<And>b. b \<in> ?K \<Longrightarrow> b \<notin> frame (F h) \<Longrightarrow> words m b = words m0 b"
    using el1_irq_entry_switch [where disp = ?disp and v = v, OF x0 keep sub]
    by (simp_all only: m_def own assms(5))
  show mem: "context_at (words m) (F t) = P t" if t: "t \<in> set xs" for t
  proof (cases "t = h")
    case False
    then have "frame (F t) \<inter> frame (F h) = {}" using assms(1,2) t by (auto simp: frames_apart_def)
    then have "context_at (words m) (F t) = context_at (words m0) (F t)"
      using t by (intro context_at_cong sw(4)) auto
    then show ?thesis using assms(6) t False by simp
  qed (simp add: sw(3))
  show "running m = P n" "SP m = F n + CTX_SIZE" using sw(1,2) mem [OF assms(3)] by simp_all
qed

lemma system_irq_rel:
  assumes "system_rel F s (xs, k, P)" and "\<forall>h. dev h 0xffff00008141000C AND 0x3FF = 27"
    and "\<And>t m a. t \<in> set xs \<Longrightarrow> a \<in> frame (F t) \<Longrightarrow> words (clob m) a = words m a"
  shows "system_rel F (system_irq clob dev v s) (ring_tick (xs, k, P))"
proof -
  let ?m = "take_exception v (mach s)" and ?sc = "(scd s)\<lparr>SPSR_EL1 := PSTATE (mach s)\<rparr>"
  let ?h = "hd xs" and ?h' = "hd (rotate1 xs)"
  have inv: "sched_inv ?sc xs k" using assms(1) by (simp add: sched_inv_spsr)
  note h = sched_inv_hd [OF inv]
  have ne: "xs \<noteq> []" and dist: "distinct xs" using inv by (simp_all add: sched_inv_def rq_rep_def)
  have run: "running (mach s) = P ?h" "SP (mach s) = F ?h + CTX_SIZE"
    and frs: "frames_apart F xs" "\<forall>t \<in> set xs. user_context (P t)"
    and sus: "\<And>t. t \<in> set (tl xs) \<Longrightarrow> task_context (tasks (scd s) t) = F t \<and> context_at (words (mach s)) (F t) = P t"
    using assms(1) by auto
  have own: "SP (mach s) - CTX_SIZE = F ?h" by (simp add: run(2))
  have "user_context (running (mach s))" using frs(2) h(1) by (simp add: run(1))
  then have el: "drop_bit 2 (SPSR_EL1 ?sc) AND mask 2 \<noteq> 1" by (simp add: user_context_def running_def)
  obtain c sc where d: "irq_dispatcher dev (F ?h) ?sc = (c, sc)" by fastforce
  have e: "if 1 < k then c = F ?h \<and> sched_inv sc xs (k - 1)
      else c = task_context (tasks sc ?h') \<and> sched_inv sc (rotate1 xs) 10"
    "\<And>t. task_context (tasks sc t) = (if t = ?h then F ?h else task_context (tasks (scd s) t))"
    using irq_dispatcher_user [where dev = dev and f = "F ?h", OF inv assms(2) el] by (auto simp: d)
  have in_tl: "t \<in> set (tl xs)" if "t \<in> set xs" "t \<noteq> ?h" for t using that by (cases xs) auto
  have ctx: "task_context (tasks sc t) = F t" if "t \<in> set xs" for t
    using that in_tl [OF that] sus [of t] by (auto simp: e(2))
  have h': "?h' \<in> set xs" using ne by (metis hd_in_set rotate1_is_Nil_conv set_rotate1)
  define n where "n = (if 1 < k then ?h else ?h')"
  have c: "c = F n" "n \<in> set xs" using e(1) ctx [OF h'] h(1) h' by (auto simp: n_def split: if_splits)
  define m where "m = el1_irq_entry (\<lambda>t. mov_x 0 c (clob t)) ?m"
  have keep: "\<forall>t \<in> set xs. \<forall>a \<in> frame (F t). \<forall>m. words (clob m) a = words m a" using assms(3) by auto
  have "\<forall>t \<in> set xs. t \<noteq> ?h \<longrightarrow> context_at (words (mach s)) (F t) = P t" using sus in_tl by auto
  note vf = vector_over_frames [OF frs(1) h(1) c(2) run(2,1) this keep, where v = v]
  have sw: "running m = P n" "SP m = F n + CTX_SIZE" "\<And>t. t \<in> set xs \<Longrightarrow> context_at (words m) (F t) = P t"
    using vf by (simp_all only: m_def c(1))
  have s': "system_irq clob dev v s = \<lparr>mach = m, scd = sc\<rparr>"
    using d by (simp add: system_irq_def Let_def own m_def)
  show ?thesis
  proof (cases "1 < k")
    case True
    then show ?thesis
      using e(1) frs sw ctx c h(1) list.set_sel(2) [OF ne] by (auto simp: s' n_def)
  next
    case False
    then show ?thesis
      using e(1) frs sw ctx c set_tl_rotate1 [OF dist] by (auto simp: s' n_def frames_apart_rotate)
  qed
qed

section \<open>Runs\<close>

definition system_step :: "(machine \<Rightarrow> machine) \<Rightarrow> device \<Rightarrow> u64 \<Rightarrow> (u64 \<Rightarrow> Context \<Rightarrow> Context) \<Rightarrow> system \<Rightarrow> system" where
  "system_step clob dev v u s = system_irq clob dev v (user_run (u (current (scd s))) s)"

definition ring_step :: "(u64 \<Rightarrow> Context \<Rightarrow> Context) \<Rightarrow> ring \<Rightarrow> ring" where
  "ring_step u r = ring_tick (ring_run u r)"

lemma system_step_rel:
  assumes "system_rel F s (xs, k, P)" and "\<forall>h. dev h 0xffff00008141000C AND 0x3FF = 27"
    and "\<And>t m a. t \<in> set xs \<Longrightarrow> a \<in> frame (F t) \<Longrightarrow> words (clob m) a = words m a"
    and "\<And>t c. user_context c \<Longrightarrow> user_context (u t c)"
  shows "system_rel F (system_step clob dev v u s) (ring_step u (xs, k, P))"
proof -
  have cur: "current (scd s) = hd xs" using assms(1) by (simp add: sched_inv_def)
  have "system_rel F (user_run (u (hd xs)) s) (xs, k, P(hd xs := u (hd xs) (P (hd xs))))"
    using user_run_rel [OF assms(1), where u = u] assms(4) by simp
  then have "system_rel F (system_irq clob dev v (user_run (u (hd xs)) s))
      (ring_tick (xs, k, P(hd xs := u (hd xs) (P (hd xs)))))"
    by (rule system_irq_rel [where dev = dev and clob = clob]) (fact assms(2), rule assms(3))
  then show ?thesis by (simp only: system_step_def ring_step_def cur ring_run.simps)
qed

text \<open>Frames that do not share a word: 280 bytes each.\<close>

lemma frames_disjoint:
  assumes "280 \<le> unat (b - a)" and "280 \<le> unat (a - b)"
  shows "frame a \<inter> frame b = {}"
proof (rule ccontr)
  assume "frame a \<inter> frame b \<noteq> {}"
  then obtain i j where ij: "i < 35" "j < 35" "a + of_nat i * 8 = b + of_nat j * 8"
    by (auto simp: frame_def)
  have small: "unat (of_nat n * 8 :: u64) = n * 8" if "n < 35" for n
    using that by (simp add: unat_word_ariths unat_of_nat)
  show False
  proof (cases "j \<le> i")
    case True
    then have "b - a = of_nat (i - j) * 8" using ij(3) by (simp add: algebra_simps of_nat_diff)
    then show False using assms(1) ij small [of "i - j"] by simp
  next
    case False
    then have "a - b = of_nat (j - i) * 8" using ij(3) by (simp add: algebra_simps of_nat_diff)
    then show False using assms(2) ij small [of "j - i"] by simp
  qed
qed

lemma first_user_enter_running:
  "running (first_user_enter m) = context_at (words m) (X m 0)" "SP (first_user_enter m) = X m 0 + CTX_SIZE"
  "words (first_user_enter m) = words m"
  by (simp_all add: first_user_enter_def RESTORE_running RESTORE_rest)

lemma context_at_regs: "length (x_regs (context_at w a)) = 31"
  by (simp add: context_at_def)

section \<open>Properties\<close>

text \<open>
  Preemption is correct.  Let the relation hold, with any number of tasks.  Run any number of
  rounds, each an arbitrary computation of the running program followed by a timer interrupt:
  the machine then still implements the abstract ring, in which each task computes on its own
  context, ten ticks in turn.  So no program ever sees a register, stack pointer, status or
  table base other than its own, however the interrupts fall.
\<close>

lemma preemption_refines_ring:
  assumes "system_rel F s (xs, k, P)" and "\<forall>h. dev h 0xffff00008141000C AND 0x3FF = 27"
    and "\<forall>t \<in> set xs. \<forall>m. \<forall>a \<in> frame (F t). words (clob m) a = words m a"
    and "\<forall>u \<in> set us. \<forall>t c. user_context c \<longrightarrow> user_context (u t c)"
  shows "system_rel F (fold (system_step clob dev v) us s) (fold ring_step us (xs, k, P))"
  using assms
proof (induction us arbitrary: s xs k P)
  case (Cons u us)
  have step: "system_rel F (system_step clob dev v u s) (ring_step u (xs, k, P))"
    using Cons.prems by (intro system_step_rel) auto
  obtain ys j Q where r: "ring_step u (xs, k, P) = (ys, j, Q)"
    by (cases "ring_step u (xs, k, P)")
  then have "set ys = set xs" by (auto simp: ring_step_def split: if_splits)
  then have "system_rel F (fold (system_step clob dev v) us (system_step clob dev v u s)) (fold ring_step us (ys, j, Q))"
    using step Cons.prems by (intro Cons.IH) (simp_all del: system_rel.simps add: r)
  then show ?case by (simp add: r)
qed simp

text \<open>
  Boot leads to preemption.  On a machine with less than 16 GiB whose bitmap memory is zero,
  with a device tree that is read to its end and a block device that answers and completes,
  \<open>kmain\<close> reaches \<open>first_user_enter\<close> with 23 pages of the pool in use and the allocator consistent.
  When the memory holds the contexts \<open>init_task\<close> has written, that entry starts the first program
  at its first instruction, on its own stack and tables at EL0, and puts the machine into the
  relation with the ring of the two tasks, from which every run refines it.
\<close>

lemma boot_leads_to_preemption:
  assumes "l3_pool_ok l2mem" and "tbl (blk_mm (blk s)) = mmu_init_tables l2mem m" and "ALLOCATED (blk_mm (blk s)) = 0"
    and "bump \<lparr>buffer = (\<lambda>i. ram (start + i))\<rparr> 0" and "total_ram < 0x400000000"
    and "get_drive_info dtb (drive_info s) = Some info" and "fst (probe vdev 0 (blk_bus (blk s))) \<noteq> 0"
    and "stores_succeed stx" and "device_completes used"
    and "rq_head (sch s) = 0" and "rq_tail (sch s) = 0"
    and "next_of (sch s) (kva 17) = 0" and "next_of (sch s) (kva 20) = 0"
  shows "\<exists>ctx s'. kmain l2mem start sy udev vdev stx used ram dtb total_ram s = Some (Inr (ctx, s')) \<and>
    kmalloc_inv l2mem 23 {..<23} (blk_mm (blk s')) \<and>
    (let F = \<lambda>t. task_context (tasks (sch s') t); P = \<lambda>t. contexts s' (F t) in
       \<forall>mc. X mc 0 = ctx \<and> (\<forall>t \<in> {kva 17, kva 20}. context_at (words mc) (F t) = P t) \<longrightarrow>
         PC (first_user_enter mc) = convert_to_physical (user_process1_sym sy) \<and>
         SP_EL0 (first_user_enter mc) = kpa 19 + 4096 \<and> PSTATE (first_user_enter mc) = 0 \<and>
         TTBR0 (first_user_enter mc) = USER_PROCESS_1_TABLE_START \<and>
         system_rel F \<lparr>mach = first_user_enter mc, scd = sch s'\<rparr> ([kva 17, kva 20], 10, P))"
proof -
  obtain s' where k: "kmain l2mem start sy udev vdev stx used ram dtb total_ram s = Some (Inr (kva 18 + 0xEE0, s'))"
    and inv: "sched_inv (sch s') [kva 17, kva 20] 10" "kmalloc_inv l2mem 23 {..<23} (blk_mm (blk s'))"
    and f: "task_context (tasks (sch s') (kva 17)) = kva 18 + 0xEE0" "task_context (tasks (sch s') (kva 20)) = kva 21 + 0xEE0"
    and c: "elr_el1 (contexts s' (kva 18 + 0xEE0)) = convert_to_physical (user_process1_sym sy)"
      "sp_el0 (contexts s' (kva 18 + 0xEE0)) = kpa 19 + 4096" "spsr_el1 (contexts s' (kva 18 + 0xEE0)) = 0"
      "ttbr0_el1 (contexts s' (kva 18 + 0xEE0)) = USER_PROCESS_1_TABLE_START"
      "spsr_el1 (contexts s' (kva 21 + 0xEE0)) = 0"
    using kmain_effect [OF assms, of sy udev] by (auto simp: Let_def)
  define F where "F = (\<lambda>t. task_context (tasks (sch s') t))"
  define P where "P = (\<lambda>t. contexts s' (F t))"
  have apart: "frames_apart F [kva 17, kva 20]"
    by (auto simp: frames_apart_def F_def f intro!: frames_disjoint) (simp_all add: kva_def)
  have "PC (first_user_enter mc) = convert_to_physical (user_process1_sym sy) \<and>
      SP_EL0 (first_user_enter mc) = kpa 19 + 4096 \<and> PSTATE (first_user_enter mc) = 0 \<and>
      TTBR0 (first_user_enter mc) = USER_PROCESS_1_TABLE_START \<and>
      system_rel F \<lparr>mach = first_user_enter mc, scd = sch s'\<rparr> ([kva 17, kva 20], 10, P)"
    if mc: "X mc 0 = kva 18 + 0xEE0" "context_at (words mc) (F (kva 17)) = P (kva 17)"
      "context_at (words mc) (F (kva 20)) = P (kva 20)" for mc
  proof -
    have run: "running (first_user_enter mc) = P (kva 17)"
      using mc(1,2) by (simp add: first_user_enter_running F_def f)
    have regs: "length (x_regs (P (kva 17))) = 31" "length (x_regs (P (kva 20))) = 31"
      using context_at_regs [of "words mc"] by (simp_all only: mc(2,3) [symmetric])
    have "user_context (P (kva 17))" "user_context (P (kva 20))"
      using regs c(3,5) by (simp_all add: user_context_def P_def F_def f)
    moreover have "PC (first_user_enter mc) = elr_el1 (P (kva 17))" "SP_EL0 (first_user_enter mc) = sp_el0 (P (kva 17))"
      "PSTATE (first_user_enter mc) = spsr_el1 (P (kva 17))" "TTBR0 (first_user_enter mc) = ttbr0_el1 (P (kva 17))"
      by (simp_all add: run [symmetric] running_def)
    ultimately show ?thesis
      using run mc inv(1) apart c by (simp add: first_user_enter_running) (simp add: P_def F_def f)
  qed
  then have "\<forall>mc. X mc 0 = kva 18 + 0xEE0 \<and> (\<forall>t \<in> {kva 17, kva 20}. context_at (words mc) (F t) = P t) \<longrightarrow>
      PC (first_user_enter mc) = convert_to_physical (user_process1_sym sy) \<and>
      SP_EL0 (first_user_enter mc) = kpa 19 + 4096 \<and> PSTATE (first_user_enter mc) = 0 \<and>
      TTBR0 (first_user_enter mc) = USER_PROCESS_1_TABLE_START \<and>
      system_rel F \<lparr>mach = first_user_enter mc, scd = sch s'\<rparr> ([kva 17, kva 20], 10, P)"
    by (simp del: system_rel.simps)
  then show ?thesis using k inv(2) unfolding Let_def F_def P_def by blast
qed

lemma boot_leads_to_preemption_witness:
  "\<exists>ctx s'. kmain 0x8008e000 0x80200000 linked_symbols (\<lambda>_ _. 0) first_slot_device (\<lambda>_. True) eager_device
      (\<lambda>_. 0) end_blob 0x100000000 reset_kernel = Some (Inr (ctx, s')) \<and>
    kmalloc_inv 0x8008e000 23 {..<23} (blk_mm (blk s'))"
proof -
  have n: "next_of (sch reset_kernel) (kva 17) = 0" "next_of (sch reset_kernel) (kva 20) = 0"
    "rq_head (sch reset_kernel) = 0" "rq_tail (sch reset_kernel) = 0"
    by simp_all
  have b: "tbl (blk_mm (blk reset_kernel)) = mmu_init_tables 0x8008e000 (\<lambda>_. 0)"
    "ALLOCATED (blk_mm (blk reset_kernel)) = 0" "bump \<lparr>buffer = \<lambda>_. 0\<rparr> 0"
    using bump_empty by (simp_all add: boot_state_def empty_bitmap_def)
  show ?thesis
    using boot_leads_to_preemption [OF l3_pool_ok_elf b(1,2), where ram = "\<lambda>_. 0" and start = "0x80200000"
        and total_ram = "0x100000000" and dtb = end_blob and vdev = first_slot_device and stx = "\<lambda>_. True"
        and used = eager_device and sy = linked_symbols and udev = "\<lambda>_ _. 0", OF b(3) _ end_blob_info
        first_slot_found always_succeeds eager_device_completes n(3,4,1,2)]
    by (auto simp: Let_def)
qed

text \<open>
  A system of two tasks for the next property: the first runs, the second is suspended in its
  frame, and the controller reports the timer.
\<close>

definition two_tasks :: system where
  "two_tasks = \<lparr>mach = \<lparr>X = (\<lambda>_. 0), SP = 0x2110, SP_EL0 = 0, PC = 0, PSTATE = 0, ELR = 0, SPSR = 0, TTBR0 = 0,
       ESR = 0, words = (\<lambda>_. 0)\<rparr>,
     scd = sched_set_current 1 (fold sched_ready_enqueue [1, 2]
       (upd_task 2 (\<lambda>t. t\<lparr>task_context := 0x3000\<rparr>) (upd_task 1 (\<lambda>t. t\<lparr>task_context := 0x2000\<rparr>) idle_sched)))\<rparr>"

definition zero_context :: Context where
  "zero_context = \<lparr>x_regs = replicate 31 0, sp_el0 = 0, elr_el1 = 0, spsr_el1 = 0, ttbr0_el1 = 0\<rparr>"

lemma two_tasks_rel: "system_rel (\<lambda>t. 0x1000 + 0x1000 * t) two_tasks ([1, 2], 10, \<lambda>_. zero_context)"
proof -
  let ?s0 = "upd_task 2 (\<lambda>t. t\<lparr>task_context := 0x3000\<rparr>) (upd_task 1 (\<lambda>t. t\<lparr>task_context := 0x2000\<rparr>) idle_sched)"
  have "sched_inv (scd two_tasks) [1, 2] 10"
    using boot_sched_inv [of ?s0 "[1, 2]"] by (simp add: two_tasks_def upd_task_def next_of_def idle_sched_def no_task_def)
  moreover have "task_context (tasks (scd two_tasks) 2) = 0x3000"
    by (simp add: two_tasks_def sched_set_current_def sched_ready_enqueue_def rq_push_def upd_task_def idle_sched_def)
  moreover have "frames_apart (\<lambda>t. 0x1000 + 0x1000 * t) [1, 2]"
    by (auto simp: frames_apart_def intro!: frames_disjoint)
  moreover have "running (mach two_tasks) = zero_context" "context_at (words (mach two_tasks)) a = zero_context" for a
    by (simp_all add: running_def context_at_def two_tasks_def zero_context_def map_replicate_const)
  ultimately show ?thesis
    by (simp add: user_context_def zero_context_def) (simp add: two_tasks_def CTX_SIZE_def)
qed

lemma preemption_refines_ring_witness:
  "current (scd (fold (system_step (\<lambda>t. t) (\<lambda>_ _. 27) 0xFFFF000080000280)
     (replicate 10 (\<lambda>t c. c\<lparr>sp_el0 := sp_el0 c + t\<rparr>)) two_tasks)) = 2"
proof -
  have "user_context (c\<lparr>sp_el0 := sp_el0 c + t\<rparr>)" if "user_context c" for c t
    using that by (simp add: user_context_def)
  then have "system_rel (\<lambda>t. 0x1000 + 0x1000 * t) (fold (system_step (\<lambda>t. t) (\<lambda>_ _. 27) 0xFFFF000080000280)
     (replicate 10 (\<lambda>t c. c\<lparr>sp_el0 := sp_el0 c + t\<rparr>)) two_tasks)
     (fold ring_step (replicate 10 (\<lambda>t c. c\<lparr>sp_el0 := sp_el0 c + t\<rparr>)) ([1, 2], 10, \<lambda>_. zero_context))"
    by (intro preemption_refines_ring [OF two_tasks_rel]) auto
  then show ?thesis
    by (simp add: numeral_eq_Suc ring_step_def sched_inv_def)
qed

end
