(* ===== verification/Runtime.thy ===== *)
theory Runtime
  imports Handlers Boot Simulation
begin

text \<open>
  The kernel after boot: what a run of interrupts and system calls does to the state \<open>kmain\<close> leaves.
  A run is a list of events, each handled by the dispatcher of \<^verbatim>\<open>core/handlers.c\<close>; the abstract
  kernel knows only how many pages of the pool are handed out, which of them are mapped, the
  ring of tasks and what is left of the slice of the first.
\<close>

section \<open>Events\<close>

text \<open>
  An interrupt comes with the value the controller reports, the saved status and the frame; a
  system call with the address of the array on the kernel stack, its number and arguments.
\<close>

datatype event =
    Interrupt (iar: u32) (spsr: u64) (ctx: u64)
  | Syscall (stack: u64) (nr: u64) (arg1: u64) (arg2: u64) (arg3: u64)

fun handle_event :: "u64 \<Rightarrow> (nat \<Rightarrow> bool) \<Rightarrow> (block_state \<Rightarrow> virtq_used) \<Rightarrow> event \<Rightarrow> kernel \<Rightarrow> (mm_error + kernel) option" where
  "handle_event l2mem stx used (Interrupt v p c) s =
     Some (Inr (s\<lparr>sch := snd (irq_dispatcher (\<lambda>_ _. v) c ((sch s)\<lparr>SPSR_EL1 := p\<rparr>))\<rparr>))"
| "handle_event l2mem stx used (Syscall a n a1 a2 a3) s =
     (case syscall_dispatcher l2mem stx used a a1 a2 a3 n (blk s) of
        None \<Rightarrow> None
      | Some (Inl e) \<Rightarrow> Some (Inl e)
      | Some (Inr (_, b)) \<Rightarrow> Some (Inr (s\<lparr>blk := b\<rparr>)))"

fun kernel_run :: "u64 \<Rightarrow> (nat \<Rightarrow> bool) \<Rightarrow> (block_state \<Rightarrow> virtq_used) \<Rightarrow> event list \<Rightarrow> kernel \<Rightarrow> (mm_error + kernel) option" where
  "kernel_run l2mem stx used [] s = Some (Inr s)"
| "kernel_run l2mem stx used (e # es) s =
     (case handle_event l2mem stx used e s of
        None \<Rightarrow> None
      | Some (Inl err) \<Rightarrow> Some (Inl err)
      | Some (Inr s) \<Rightarrow> kernel_run l2mem stx used es s)"

section \<open>The abstract kernel\<close>

record abs_kernel =
  handed_out :: nat
  mapped :: "nat set"
  task_ring :: "u64 list"
  ticks_left :: nat

text \<open>The pages an event takes, and those of them that are mapped: blocks of more than 20 pages are not.\<close>

fun pages_of :: "event \<Rightarrow> nat" where
  "pages_of (Interrupt v p c) = 0"
| "pages_of (Syscall a n a1 a2 a3) = (if n = 5 then pages_needed a1 else if n = 64 then 4 else 0)"

definition ticks :: "event \<Rightarrow> bool" where
  "ticks e \<longleftrightarrow> (case e of
      Interrupt v p c \<Rightarrow> v AND 0x3FF = 27 \<and> drop_bit 2 p AND mask 2 \<noteq> 1
    | Syscall _ _ _ _ _ \<Rightarrow> False)"

definition abs_event :: "event \<Rightarrow> abs_kernel \<Rightarrow> abs_kernel" where
  "abs_event e a =
    (let n = handed_out a; k = pages_of e in
     \<lparr>handed_out = n + k,
      mapped = (if k \<le> 20 then mapped a \<union> {n..<n + k} else mapped a),
      task_ring = (if ticks e \<and> ticks_left a \<le> 1 then rotate1 (task_ring a) else task_ring a),
      ticks_left = (if ticks e then if 1 < ticks_left a then ticks_left a - 1 else 10 else ticks_left a)\<rparr>)"

definition kernel_rel :: "u64 \<Rightarrow> kernel \<Rightarrow> abs_kernel \<Rightarrow> bool" where
  "kernel_rel l2mem s a \<longleftrightarrow>
     kmalloc_inv l2mem (handed_out a) (mapped a) (blk_mm (blk s)) \<and>
     blk_lock (blk s) = 0 \<and> used_request_index (blk s) 0 = 0 \<and>
     sched_inv (sch s) (task_ring a) (ticks_left a)"

text \<open>An event the pool has room for, with at most the 64 pages that \<open>kmalloc\<close> can note.\<close>

definition event_fits :: "event \<Rightarrow> abs_kernel \<Rightarrow> bool" where
  "event_fits e a \<longleftrightarrow> pages_of e \<le> 64 \<and> handed_out a + pages_of e \<le> 512"

section \<open>One event\<close>

lemma interrupt_rel:
  assumes "kernel_rel l2mem s a"
  shows "\<exists>s'. handle_event l2mem stx used (Interrupt v p c) s = Some (Inr s') \<and>
    kernel_rel l2mem s' (abs_event (Interrupt v p c) a)"
proof -
  have inv: "sched_inv ((sch s)\<lparr>SPSR_EL1 := p\<rparr>) (task_ring a) (ticks_left a)"
    using assms by (simp add: kernel_rel_def sched_inv_def rq_rep_def next_of_def [abs_def])
  have el: "check_current_el ((sch s)\<lparr>SPSR_EL1 := p\<rparr>) = 0 \<longleftrightarrow> drop_bit 2 p AND mask 2 \<noteq> 1"
    by (simp add: check_current_el_def Let_def)
  show ?thesis
    using irq_dispatcher_inv [OF inv, where dev = "\<lambda>_ _. v" and ctx = c] assms
    by (auto simp: kernel_rel_def abs_event_def ticks_def el Let_def split: if_splits)
qed

lemma syscall_rel:
  assumes "kernel_rel l2mem s a" and "event_fits (Syscall d n a1 a2 a3) a"
    and "stores_succeed stx" and "device_completes used"
  shows "\<exists>s'. handle_event l2mem stx used (Syscall d n a1 a2 a3) s = Some (Inr s') \<and>
    kernel_rel l2mem s' (abs_event (Syscall d n a1 a2 a3) a)"
proof -
  have inv: "kmalloc_inv l2mem (handed_out a) (mapped a) (blk_mm (blk s))" "blk_lock (blk s) = 0"
    "used_request_index (blk s) 0 = 0" using assms(1) by (simp_all add: kernel_rel_def)
  consider "n = 5" | "n = 64" | "n \<noteq> 5" "n \<noteq> 64" by blast
  then show ?thesis
  proof cases
    case 1
    then have "pages_needed a1 \<le> 64" "handed_out a + pages_needed a1 \<le> 512"
      using assms(2) by (simp_all add: event_fits_def)
    from kmalloc_bump [OF inv(1) this] show ?thesis
      using 1 assms(1) by (auto simp: syscall_dispatcher_def kernel_rel_def abs_event_def ticks_def Let_def)
  next
    case 2
    then have room: "handed_out a + 4 \<le> 512" using assms(2) by (simp add: event_fits_def)
    show ?thesis
      using syscall_write_returns [OF inv(1) room inv(2) assms(3,4) inv(3), of d a1 a2 a3] 2 assms(1)
      by (auto simp: kernel_rel_def abs_event_def ticks_def Let_def)
  next
    case 3
    then show ?thesis
      using assms(1) by (simp add: syscall_dispatcher_def kernel_rel_def abs_event_def ticks_def Let_def)
  qed
qed

lemma event_rel:
  assumes "kernel_rel l2mem s a" and "event_fits e a" and "stores_succeed stx" and "device_completes used"
  shows "\<exists>s'. handle_event l2mem stx used e s = Some (Inr s') \<and> kernel_rel l2mem s' (abs_event e a)"
  using interrupt_rel [OF assms(1)] syscall_rel [OF assms(1) _ assms(3,4)] assms(2) by (cases e) simp_all

section \<open>Runs\<close>

definition kernel_step :: "u64 \<Rightarrow> (nat \<Rightarrow> bool) \<Rightarrow> (block_state \<Rightarrow> virtq_used) \<Rightarrow> event \<Rightarrow> kernel \<Rightarrow> kernel option" where
  "kernel_step l2mem stx used e s = (case handle_event l2mem stx used e s of Some (Inr s) \<Rightarrow> Some s | _ \<Rightarrow> None)"

lemma kernel_run_events: "run_events (kernel_step l2mem stx used) es s = Some s' \<longleftrightarrow> kernel_run l2mem stx used es s = Some (Inr s')"
  by (induction es arbitrary: s) (auto simp: kernel_step_def split: option.splits sum.splits)

text \<open>Pages are the budget of a run: 512 of them, and at most 64 for an event.\<close>

interpretation kernel_runs: budgeted_simulation "kernel_step l2mem stx used" abs_event
    "\<lambda>s a. kernel_rel l2mem s a \<and> stores_succeed stx \<and> device_completes used" event_fits
    "\<lambda>e. pages_of e \<le> 64" pages_of handed_out 512
  for l2mem stx used
proof unfold_locales
  fix s a e
  assume "kernel_rel l2mem s a \<and> stores_succeed stx \<and> device_completes used" and "event_fits e a"
  then show "\<exists>s'. kernel_step l2mem stx used e s = Some s' \<and>
      kernel_rel l2mem s' (abs_event e a) \<and> stores_succeed stx \<and> device_completes used"
    using event_rel [of l2mem s a e stx used] by (auto simp: kernel_step_def)
next
  fix e :: event and a :: abs_kernel
  assume "pages_of e \<le> 64" "handed_out a + pages_of e \<le> 512"
  then show "event_fits e a" by (simp add: event_fits_def)
next
  show "handed_out (abs_event e a) \<le> handed_out a + pages_of e" for e a
    by (simp add: abs_event_def Let_def)
qed

lemma kernel_run_rel:
  assumes "kernel_rel l2mem s a" and "\<forall>e \<in> set es. pages_of e \<le> 64" and "handed_out a + sum_list (map pages_of es) \<le> 512"
    and "stores_succeed stx" and "device_completes used"
  shows "\<exists>s'. kernel_run l2mem stx used es s = Some (Inr s') \<and> kernel_rel l2mem s' (fold abs_event es a)"
  using kernel_runs.run_within_budget [of l2mem s a stx used es] assms by (simp add: kernel_run_events)

text \<open>The pages handed out add up.\<close>

lemma handed_out_event [simp]: "handed_out (abs_event e a) = handed_out a + pages_of e"
  by (simp add: abs_event_def Let_def)

lemma handed_out_run: "handed_out (fold abs_event es a) = handed_out a + sum_list (map pages_of es)"
  by (induction es arbitrary: a) simp_all

lemma sum_list_two_values:
  fixes f :: "'a \<Rightarrow> nat"
  shows "\<forall>x \<in> set xs. f x = 0 \<or> f x = k \<Longrightarrow> sum_list (map f xs) = k * length (filter (\<lambda>x. f x \<noteq> 0) xs)"
  by (induction xs) auto

text \<open>The ring keeps its tasks, and pages that are mapped stay mapped.\<close>

lemma abs_event_ring: "set (task_ring (fold abs_event es a)) = set (task_ring a)"
  by (induction es arbitrary: a) (simp_all add: abs_event_def Let_def)

lemma abs_event_mapped: "mapped a \<subseteq> mapped (fold abs_event es a)"
proof (induction es arbitrary: a)
  case (Cons e es)
  have "mapped a \<subseteq> mapped (abs_event e a)" by (auto simp: abs_event_def Let_def)
  then show ?case using Cons [of "abs_event e a"] by auto
qed simp

text \<open>The state \<open>kmain\<close> leaves.\<close>

definition abs_boot :: abs_kernel where
  "abs_boot = \<lparr>handed_out = 23, mapped = {..<23}, task_ring = [kva 17, kva 20], ticks_left = 10\<rparr>"

section \<open>Properties\<close>

text \<open>
  C4. The invariant of the running kernel.  Let the relation hold between the kernel and the
  abstract one: pages of the pool handed out and mapped as the allocator's invariant says, the
  block layer idle, and the scheduler's ring in order.  Then every run of interrupts and system
  calls whose blocks are at most 64 pages each and fit the pool comes to its end without an
  error, the relation holds again, with every task still in the ring, and every page that was
  accessible still translates to its physical page.
\<close>

theorem kernel_run_invariant:
  assumes "kernel_rel l2mem s a" and "\<forall>e \<in> set es. pages_of e \<le> 64"
    and "handed_out a + sum_list (map pages_of es) \<le> 512"
    and "stores_succeed stx" and "device_completes used"
  shows "\<exists>s' a'. kernel_run l2mem stx used es s = Some (Inr s') \<and> a' = fold abs_event es a \<and>
    kernel_rel l2mem s' a' \<and> handed_out a' = handed_out a + sum_list (map pages_of es) \<and>
    set (task_ring a') = set (task_ring a) \<and>
    (\<forall>p \<in> mapped a. \<forall>off < 0x1000. walk (tbl (blk_mm (blk s'))) L0_BASE_PHYS (kva p + off) = Some (kpa p + off))"
proof -
  from kernel_run_rel [OF assms] obtain s' where s':
    "kernel_run l2mem stx used es s = Some (Inr s')" "kernel_rel l2mem s' (fold abs_event es a)" by auto
  have inv: "kmalloc_inv l2mem (handed_out (fold abs_event es a)) (mapped (fold abs_event es a)) (blk_mm (blk s'))"
    using s'(2) by (simp add: kernel_rel_def)
  have "walk (tbl (blk_mm (blk s'))) L0_BASE_PHYS (kva p + off) = Some (kpa p + off)"
    if p: "p \<in> mapped a" "off < 0x1000" for p off
  proof -
    have m: "p \<in> mapped (fold abs_event es a)" using abs_event_mapped p(1) by auto
    then have "p < 512" using inv by (auto simp: kmalloc_inv_def)
    then show ?thesis using kma.lookup_page [OF inv _ p(2)] m by simp
  qed
  then show ?thesis using s' handed_out_run abs_event_ring by (intro exI [of _ s']) auto
qed

text \<open>
  C12. How long the kernel runs.  From boot on, any number of interrupts in any order with up to
  122 \<open>write\<close> system calls is handled: every call leaves four pages behind and \<open>kmain\<close> has taken
  23 of the 512, so this is as long as the first 2 MiB of the pool last.
\<close>

theorem boot_then_writes:
  assumes "l3_pool_ok l2mem" and "tbl (blk_mm (blk s)) = mmu_init_tables l2mem m" and "ALLOCATED (blk_mm (blk s)) = 0"
    and "bump \<lparr>buffer = (\<lambda>i. ram (start + i))\<rparr> 0" and "total_ram < 0x400000000"
    and "get_drive_info dtb (drive_info s) = Some info" and "fst (probe vdev 0 (blk_bus (blk s))) \<noteq> 0"
    and "stores_succeed stx" and "device_completes used"
    and "rq_head (sch s) = 0" and "rq_tail (sch s) = 0"
    and "next_of (sch s) (kva 17) = 0" and "next_of (sch s) (kva 20) = 0"
    and "\<forall>e \<in> set es. \<exists>v p c d fd buf sz. e = Interrupt v p c \<or> e = Syscall d 64 fd buf sz"
    and "length (filter (\<lambda>e. pages_of e \<noteq> 0) es) \<le> 122"
  shows "\<exists>ctx s1 s2. kmain l2mem start sy udev vdev stx used ram dtb total_ram s = Some (Inr (ctx, s1)) \<and>
    kernel_run l2mem stx used es s1 = Some (Inr s2) \<and> kernel_rel l2mem s2 (fold abs_event es abs_boot)"
proof -
  obtain s1 where k: "kmain l2mem start sy udev vdev stx used ram dtb total_ram s = Some (Inr (kva 18 + 0xEE0, s1))"
    and r: "kernel_rel l2mem s1 abs_boot"
    using kmain_effect [OF assms(1-13), of sy udev] by (auto simp: kernel_rel_def abs_boot_def)
  have four: "pages_of e = 0 \<or> pages_of e = 4" if "e \<in> set es" for e
    using assms(14) that by fastforce
  have "sum_list (map pages_of es) = 4 * length (filter (\<lambda>e. pages_of e \<noteq> 0) es)"
    using four by (intro sum_list_two_values) auto
  then have "handed_out abs_boot + sum_list (map pages_of es) \<le> 512" using assms(15) by (simp add: abs_boot_def)
  moreover have "\<forall>e \<in> set es. pages_of e \<le> 64" using four by force
  ultimately show ?thesis using kernel_run_rel [OF r _ _ assms(8,9)] k by auto
qed

section \<open>The properties at concrete states\<close>

theorem kernel_run_invariant_witness:
  "\<exists>s s'. sch s = sched_set_current 0x1000 (fold sched_ready_enqueue [0x1000, 0x2000] idle_sched) \<and>
     kernel_run 0x8008e000 (\<lambda>_. True) eager_device [Syscall 0 5 5000 0 0, Interrupt 27 0 0x9000] s = Some (Inr s') \<and>
     sched_inv (sch s') [0x1000, 0x2000] 9"
proof -
  let ?sc = "sched_set_current 0x1000 (fold sched_ready_enqueue [0x1000, 0x2000] idle_sched)"
  let ?s = "reset_kernel\<lparr>blk := block_boot (\<lambda>_. 0), sch := ?sc\<rparr>"
  let ?a = "\<lparr>handed_out = 0, mapped = {}, task_ring = [0x1000, 0x2000], ticks_left = 10\<rparr>"
  have "sched_inv ?sc [0x1000, 0x2000] 10" using boot_sched_inv [of idle_sched "[0x1000, 0x2000]"] by simp
  then have rel: "kernel_rel 0x8008e000 ?s ?a"
    using boot_state_inv by (simp add: kernel_rel_def)
  let ?es = "[Syscall 0 5 5000 0 0, Interrupt 27 0 0x9000]"
  obtain s' where run: "kernel_run 0x8008e000 (\<lambda>_. True) eager_device ?es ?s = Some (Inr s')"
    and rel': "kernel_rel 0x8008e000 s' (fold abs_event ?es ?a)"
    using kernel_run_invariant [OF rel, of ?es, OF _ _ always_succeeds eager_device_completes]
    by (auto simp: pages_5000 simp del: kernel_run.simps fold_simps)
  have "sched_inv (sch s') [0x1000, 0x2000] 9"
    using rel' by (simp add: kernel_rel_def abs_event_def ticks_def Let_def)
  then show ?thesis using run by (intro exI [of _ ?s] exI [of _ s']) (simp del: kernel_run.simps)
qed

theorem boot_then_writes_witness:
  "\<exists>ctx s1 s2. kmain 0x8008e000 0x80200000 linked_symbols (\<lambda>_ _. 0) first_slot_device (\<lambda>_. True) eager_device
      (\<lambda>_. 0) end_blob 0x100000000 reset_kernel = Some (Inr (ctx, s1)) \<and>
    kernel_run 0x8008e000 (\<lambda>_. True) eager_device [Interrupt 27 0 0, Syscall 0 64 1 0x80009000 5] s1 = Some (Inr s2) \<and>
    kmalloc_inv 0x8008e000 27 {..<27} (blk_mm (blk s2))"
proof -
  have n: "next_of (sch reset_kernel) (kva 17) = 0" "next_of (sch reset_kernel) (kva 20) = 0"
    "rq_head (sch reset_kernel) = 0" "rq_tail (sch reset_kernel) = 0"
    by simp_all
  have b: "tbl (blk_mm (blk reset_kernel)) = mmu_init_tables 0x8008e000 (\<lambda>_. 0)"
    "ALLOCATED (blk_mm (blk reset_kernel)) = 0" "bump \<lparr>buffer = \<lambda>_. 0\<rparr> 0"
    using bump_empty by (simp_all add: boot_state_def empty_bitmap_def)
  have un: "{..<23} \<union> {23..<27 :: nat} = {..<27}" by auto
  show ?thesis
    using boot_then_writes [OF l3_pool_ok_elf b(1,2), where ram = "\<lambda>_. 0" and start = "0x80200000"
        and total_ram = "0x100000000" and dtb = end_blob and vdev = first_slot_device and stx = "\<lambda>_. True"
        and used = eager_device and sy = linked_symbols and udev = "\<lambda>_ _. 0"
        and es = "[Interrupt 27 0 0, Syscall 0 64 1 0x80009000 5]", OF b(3) _ end_blob_info
        first_slot_found always_succeeds eager_device_completes n(3,4,1,2)]
    by (auto simp: kernel_rel_def abs_event_def abs_boot_def Let_def un)
qed

end
