(* ===== verification/SimpleSched.thy ===== *)
theory SimpleSched
  imports Vectors
begin

text \<open>
  The two kernels from which the present one grew: \<^verbatim>\<open>kernel-simple-scheduler\<close>, with two tasks in
  one address space, and \<^verbatim>\<open>kernel-interrupts\<close>, with one program.  Their data types, \<open>rq_push\<close>,
  \<open>rq_pop\<close>, \<open>sched_set_current\<close> and the accesses to registers compute the same as in the present
  kernel and are taken from \<open>Sched\<close> and \<open>Irq\<close> (\<open>EarlierDrivers\<close> and \<open>LogSimple\<close> translate them again); what differs is defined here: physical device
  addresses, a timer interval of 1 ms from the frequency read at boot, slices of 10000 ticks, the
  tick that acknowledges its own interrupt, and frames without the table base.  The log output
  and the serial port are in \<open>LogSimple\<close>.
\<close>

section \<open>Interrupt controller and timer\<close>

definition GICD_BASE :: u64 where "GICD_BASE = 0x08000000"
definition GICC_BASE :: u64 where "GICC_BASE = 0x08010000"

definition simple_gic_init :: "'a irq_state_scheme \<Rightarrow> 'a irq_state_scheme" where
  "simple_gic_init s =
    (let s = w32 (GICD_BASE + 0x000) 1 s;
         s = w32 (GICD_BASE + 0x100) (push_bit IRQ_VTIMER 1) s;
         s = w32 (GICC_BASE + 0x000) 1 s
     in w32 (GICC_BASE + 0x004) 0xf0 s)"

definition simple_gic_ack :: "device \<Rightarrow> 'a irq_state_scheme \<Rightarrow> u32 \<times> 'a irq_state_scheme" where
  "simple_gic_ack dev s = r32 dev (GICC_BASE + 0x00C) s"

definition simple_gic_eoi :: "u32 \<Rightarrow> 'a irq_state_scheme \<Rightarrow> 'a irq_state_scheme" where
  "simple_gic_eoi irq s = w32 (GICC_BASE + 0x010) irq s"

definition simple_set_cntv :: "'a irq_state_scheme \<Rightarrow> 'a irq_state_scheme" where
  "simple_set_cntv s = (let our_freq = cntfrq s div 1000 in msr_cntv_tval our_freq s)"

definition simple_timer_init_1khz :: "'a irq_state_scheme \<Rightarrow> 'a irq_state_scheme" where
  "simple_timer_init_1khz s = enable_cntv (simple_set_cntv (read_cntfrq s))"

section \<open>kernel-interrupts\<close>

record irq_kernel = irq_state +
  jiffies :: u64

definition timer_tick :: "irq_kernel \<Rightarrow> irq_kernel" where
  "timer_tick s = (let s = s\<lparr>jiffies := jiffies s + 1\<rparr> in simple_set_cntv s)"

definition el1_irq :: "device \<Rightarrow> irq_kernel \<Rightarrow> irq_kernel" where
  "el1_irq dev s =
    (let (iar, s) = simple_gic_ack dev s;
         irq = iar AND 0x3FF;
         s = (if irq = 27 then timer_tick s else s)
     in simple_gic_eoi iar s)"

section \<open>The scheduler\<close>

definition SIMPLE_RR_SLICE_TICKS :: int where "SIMPLE_RR_SLICE_TICKS = 10000"

definition simple_sched_ready_enqueue :: "u64 \<Rightarrow> 'a sched_state_scheme \<Rightarrow> 'a sched_state_scheme" where
  "simple_sched_ready_enqueue t s =
    (let s = upd_task t (task_state_update (\<lambda>_. READY)) s;
         s = upd_task t (slice_left_update (\<lambda>_. SIMPLE_RR_SLICE_TICKS)) s
     in rq_push t s)"

text \<open>The second half of \<open>schedule_on_tick\<close>, from the call of \<open>rq_pop\<close> on.\<close>

definition simple_schedule_next :: "u32 \<Rightarrow> u64 \<Rightarrow> 'a sched_state_scheme \<Rightarrow> u64 \<times> 'a sched_state_scheme" where
  "simple_schedule_next iar tf s =
    (case rq_pop s of (next, s) \<Rightarrow>
       if next = 0 then
         (if current s \<noteq> 0 then
            let s = simple_set_cntv s; s = simple_gic_eoi iar s in (task_context (tasks s (current s)), s)
          else
            let s = simple_set_cntv s; s = simple_gic_eoi iar s in (tf, s))
       else
         let s = upd_task next (task_state_update (\<lambda>_. RUNNING)) s;
             s = s\<lparr>current := next\<rparr>;
             s = simple_set_cntv s;
             s = simple_gic_eoi iar s
         in (task_context (tasks s (current s)), s))"

definition simple_schedule_on_tick :: "device \<Rightarrow> u64 \<Rightarrow> 'a sched_state_scheme \<Rightarrow> u64 \<times> 'a sched_state_scheme" where
  "simple_schedule_on_tick dev tf s =
    (let (iar, s) = simple_gic_ack dev s in
     if current s \<noteq> 0 \<and> task_state (tasks s (current s)) = RUNNING then
       let s = upd_task (current s) (task_context_update (\<lambda>_. tf)) s;
           s = upd_task (current s) (slice_left_update (\<lambda>n. n - 1)) s
       in if slice_left (tasks s (current s)) > 0 then
            let s = simple_set_cntv s; s = simple_gic_eoi iar s in (task_context (tasks s (current s)), s)
          else
            let s = upd_task (current s) (slice_left_update (\<lambda>_. SIMPLE_RR_SLICE_TICKS)) s;
                s = upd_task (current s) (task_state_update (\<lambda>_. READY)) s;
                s = rq_push (current s) s
            in simple_schedule_next iar tf s
     else simple_schedule_next iar tf s)"

section \<open>Boot\<close>

record SimpleContext =
  simple_x :: "u64 list"
  simple_sp_el0 :: u64
  simple_elr_el1 :: u64
  simple_spsr_el1 :: u64

definition sizeof_SimpleContext :: u64 where "sizeof_SimpleContext = 272"

definition simple_build_initial_context :: "u64 \<Rightarrow> u64 \<Rightarrow> SimpleContext \<Rightarrow> SimpleContext" where
  "simple_build_initial_context entry ustack ctx =
     ctx\<lparr>simple_sp_el0 := ustack, simple_elr_el1 := entry, simple_spsr_el1 := spsr_el0t_default\<rparr>"

record simple_kernel =
  simple_sch :: sched_state
  simple_contexts :: "u64 \<Rightarrow> SimpleContext"

definition STK_SZ :: u64 where "STK_SZ = 4096"

definition task_init :: "u64 \<Rightarrow> int \<Rightarrow> u64 \<Rightarrow> u64 \<Rightarrow> u64 \<Rightarrow> u64 \<Rightarrow> u64 \<Rightarrow> simple_kernel \<Rightarrow> simple_kernel" where
  "task_init t tid name entry kstk_base ustk_base sz s =
    (let ktop = kstk_base + sz;
         ctx = ktop - sizeof_SimpleContext;
         c = simple_build_initial_context entry (ustk_base + sz) (simple_contexts s ctx);
         sc = upd_task t (\<lambda>t. t\<lparr>task_id := tid, task_name := name, kernel_stack := kstk_base,
                user_stack := ustk_base, task_context := ctx\<rparr>) (simple_sch s)
     in s\<lparr>simple_contexts := (simple_contexts s)(ctx := c), simple_sch := simple_sched_ready_enqueue t sc\<rparr>)"

text \<open>The addresses of the statics of \<open>kmain.c\<close> and of the two programs, as linked.\<close>

record simple_image =
  T0 :: u64
  T1 :: u64
  kstack0 :: u64
  ustack0 :: u64
  kstack1 :: u64
  ustack1 :: u64
  user_loop :: u64
  user_loop2 :: u64
  name_A :: u64
  name_B :: u64

definition simple_kmain :: "simple_image \<Rightarrow> simple_kernel \<Rightarrow> u64 \<times> simple_kernel" where
  "simple_kmain im s =
    (let s = s\<lparr>simple_sch := simple_gic_init (simple_sch s)\<rparr>;
         s = s\<lparr>simple_sch := simple_timer_init_1khz (simple_sch s)\<rparr>;
         s = task_init (T0 im) 0 (name_A im) (user_loop im) (kstack0 im) (ustack0 im) STK_SZ s;
         s = task_init (T1 im) 1 (name_B im) (user_loop2 im) (kstack1 im) (ustack1 im) STK_SZ s;
         s = s\<lparr>simple_sch := sched_set_current (T0 im) (simple_sch s)\<rparr>
     in (task_context (tasks (simple_sch s) (T0 im)), s))"

section \<open>The vectors\<close>

definition simple_SAVE_CONTEXT :: "machine \<Rightarrow> machine" where
  "simple_SAVE_CONTEXT s =
    (let s = s\<lparr>SP := SP s - CTX_SIZE\<rparr>;
         s = fold (\<lambda>i. stp (2 * i) (2 * i + 1) (of_nat i * 16)) [0..<15] s;
         s = str 30 (15 * 16) s;
         s = mov_x 0 (SP_EL0 s) s;
         s = str 0 CTX_SP_EL0 s;
         s = mov_x 0 (ELR s) s;
         s = str 0 CTX_ELR s;
         s = mov_x 0 (SPSR s) s
     in str 0 CTX_SPSR s)"

definition simple_RESTORE_AND_ERET :: "machine \<Rightarrow> machine" where
  "simple_RESTORE_AND_ERET s =
    (let s = ldr 1 CTX_SP_EL0 s;
         s = s\<lparr>SP_EL0 := X s 1\<rparr>;
         s = ldr 1 CTX_ELR s;
         s = s\<lparr>ELR := X s 1\<rparr>;
         s = ldr 1 CTX_SPSR s;
         s = s\<lparr>SPSR := X s 1\<rparr>;
         s = ldr 30 (15 * 16) s;
         s = fold (\<lambda>i. ldp (2 * i) (2 * i + 1) (of_nat i * 16)) (rev [0..<15]) s;
         s = s\<lparr>SP := SP s + CTX_SIZE\<rparr>
     in eret s)"

definition simple_el1_irq_entry :: "(machine \<Rightarrow> machine) \<Rightarrow> machine \<Rightarrow> machine" where
  "simple_el1_irq_entry tick s =
    (let s = simple_SAVE_CONTEXT s;
         s = mov_x 0 (SP s) s;
         s = tick s;
         s = s\<lparr>SP := X s 0\<rparr>
     in simple_RESTORE_AND_ERET s)"

definition simple_first_user_enter :: "machine \<Rightarrow> machine" where
  "simple_first_user_enter s = simple_RESTORE_AND_ERET (s\<lparr>SP := X s 0\<rparr>)"

section \<open>Interrupts are counted\<close>

text \<open>
  The handler of \<^verbatim>\<open>kernel-interrupts\<close>, which unlike the tick above looks at the number: \<open>jiffies\<close>
  counts the timer interrupts, modulo the width of the counter.
\<close>

lemma el1_irq_effect:
  "jiffies (el1_irq (\<lambda>_ _. iar) s) = jiffies s + (if iar AND 0x3FF = 27 then 1 else 0)"
  "gic_bus (el1_irq (\<lambda>_ _. iar) s) = gic_bus s @ [BusRead 0x0801000C iar, BusWrite 0x08010010 iar]"
  by (simp_all add: el1_irq_def simple_gic_ack_def r32_def bus_read_def GICC_BASE_def simple_gic_eoi_def w32_def
      bus_write_def timer_tick_def simple_set_cntv_def msr_cntv_tval_def Let_def)

lemma jiffies_count:
  "jiffies (fold (\<lambda>iar. el1_irq (\<lambda>_ _. iar)) iars s) =
     jiffies s + of_nat (length (filter (\<lambda>iar. iar AND 0x3FF = 27) iars))"
  by (induction iars arbitrary: s) (simp_all add: el1_irq_effect)

section \<open>The tick against the tick of the present kernel\<close>

text \<open>The same queue and the same tasks, but for what is left of the slices.\<close>

definition same_queue :: "'a sched_state_scheme \<Rightarrow> 'a sched_state_scheme \<Rightarrow> bool" where
  "same_queue s s' \<longleftrightarrow> rq_head s = rq_head s' \<and> rq_tail s = rq_tail s' \<and> current s = current s' \<and>
     (\<forall>t. task_id (tasks s t) = task_id (tasks s' t) \<and> task_state (tasks s t) = task_state (tasks s' t) \<and>
        task_context (tasks s t) = task_context (tasks s' t) \<and> user_stack (tasks s t) = user_stack (tasks s' t) \<and>
        kernel_stack (tasks s t) = kernel_stack (tasks s' t) \<and> task_name (tasks s t) = task_name (tasks s' t) \<and>
        next_task (tasks s t) = next_task (tasks s' t))"

named_theorems same_queue_intros \<open>operations that keep the queues the same\<close>

lemma same_queue_push [same_queue_intros]: "same_queue s s' \<Longrightarrow> same_queue (rq_push t s) (rq_push t s')"
  by (simp add: same_queue_def rq_push_def upd_task_def)

lemma same_queue_pop [same_queue_intros]: "same_queue s s' \<Longrightarrow> same_queue (snd (rq_pop s)) (snd (rq_pop s'))"
  by (simp add: same_queue_def rq_pop_def upd_task_def Let_def)

lemma same_queue_pop_fst: "same_queue s s' \<Longrightarrow> fst (rq_pop s) = fst (rq_pop s')"
  by (simp add: same_queue_def rq_pop_def Let_def)

text \<open>Devices and timers are not part of the queue.\<close>

lemma same_queue_devices [simp]:
  "same_queue (simple_gic_eoi v s) s' \<longleftrightarrow> same_queue s s'" "same_queue (simple_set_cntv s) s' \<longleftrightarrow> same_queue s s'"
  "same_queue s (set_cntv s') \<longleftrightarrow> same_queue s s'" "same_queue (snd (simple_gic_ack dev s)) s' \<longleftrightarrow> same_queue s s'"
  by (simp_all add: same_queue_def simple_gic_eoi_def simple_set_cntv_def msr_cntv_tval_def w32_def set_cntv_eq
      simple_gic_ack_def r32_def split_beta)

lemma simple_device_fields [simp]:
  "tasks (simple_gic_eoi v s) = tasks s" "current (simple_gic_eoi v s) = current s"
  "tasks (simple_set_cntv s) = tasks s" "current (simple_set_cntv s) = current s"
  "tasks (snd (simple_gic_ack dev s)) = tasks s" "current (snd (simple_gic_ack dev s)) = current s"
  by (simp_all add: simple_gic_eoi_def simple_set_cntv_def msr_cntv_tval_def w32_def simple_gic_ack_def r32_def split_beta)

lemma same_queue_task:
  assumes "same_queue s s'"
  shows "same_queue (upd_task t (task_state_update f) s) (upd_task t (task_state_update f) s')"
    "same_queue (upd_task t (task_context_update g) s) (upd_task t (task_context_update g) s')"
    "same_queue (upd_task t (slice_left_update h) s) (upd_task t (slice_left_update h') s')"
    "same_queue (s\<lparr>current := c\<rparr>) (s'\<lparr>current := c\<rparr>)"
  using assms by (simp_all add: same_queue_def)

lemma same_queue_fields:
  "same_queue s s' \<Longrightarrow> current s = current s'"
  "same_queue s s' \<Longrightarrow> task_state (tasks s t) = task_state (tasks s' t)"
  "same_queue s s' \<Longrightarrow> task_context (tasks s t) = task_context (tasks s' t)"
  by (simp_all add: same_queue_def)

lemma simple_schedule_next_same:
  assumes "same_queue s s'"
  shows "fst (simple_schedule_next iar tf s) = fst (schedule_next tf s')"
    "same_queue (snd (simple_schedule_next iar tf s)) (snd (schedule_next tf s'))"
  using same_queue_pop [OF assms] same_queue_pop_fst [OF assms] same_queue_fields [OF same_queue_pop [OF assms]]
  by (auto simp: simple_schedule_next_def schedule_next_def split_beta Let_def intro!: same_queue_task)

lemma simple_tick_same:
  assumes "same_queue s s'"
    and "slice_left (tasks s (current s)) = slice_left (tasks s' (current s'))
      \<or> 1 < slice_left (tasks s (current s)) \<and> 1 < slice_left (tasks s' (current s'))"
  shows "fst (simple_schedule_on_tick dev tf s) = fst (schedule_on_tick tf s')"
    "same_queue (snd (simple_schedule_on_tick dev tf s)) (snd (schedule_on_tick tf s'))"
proof -
  let ?a = "snd (simple_gic_ack dev s)"
  have a: "same_queue ?a s'" using assms(1) by simp
  note f = same_queue_fields [OF assms(1)]
  define b where "b = upd_task (current s) (slice_left_update (\<lambda>n. n - 1)) (upd_task (current s) (task_context_update (\<lambda>_. tf)) ?a)"
  define b' where "b' = upd_task (current s) (slice_left_update (\<lambda>n. n - 1)) (upd_task (current s) (task_context_update (\<lambda>_. tf)) s')"
  have b: "same_queue b b'" unfolding b_def b'_def by (intro same_queue_task a)
  define c where "c = rq_push (current s) (upd_task (current s) (task_state_update (\<lambda>_. READY))
    (upd_task (current s) (slice_left_update (\<lambda>_. SIMPLE_RR_SLICE_TICKS)) b))"
  define c' where "c' = rq_push (current s) (upd_task (current s) (task_state_update (\<lambda>_. READY))
    (upd_task (current s) (slice_left_update (\<lambda>_. RR_SLICE_TICKS)) b'))"
  have c: "same_queue c c'" unfolding c_def c'_def by (intro same_queue_push same_queue_task b)
  have cur: "current b = current s" "current b' = current s" using f(1) by (simp_all add: b_def b'_def)
  have sl: "0 < slice_left (tasks b (current s)) \<longleftrightarrow> 0 < slice_left (tasks b' (current s))"
    using assms(2) f(1) by (auto simp: b_def b'_def)
  have st: "simple_schedule_on_tick dev tf s =
    (if current s \<noteq> 0 \<and> task_state (tasks s (current s)) = RUNNING then
       if 0 < slice_left (tasks b (current s))
       then (task_context (tasks b (current s)), simple_gic_eoi (fst (simple_gic_ack dev s)) (simple_set_cntv b))
       else simple_schedule_next (fst (simple_gic_ack dev s)) tf c
     else simple_schedule_next (fst (simple_gic_ack dev s)) tf ?a)"
    by (simp add: simple_schedule_on_tick_def split_beta Let_def cur c_def) (simp add: b_def)
  have st': "schedule_on_tick tf s' =
    (if current s \<noteq> 0 \<and> task_state (tasks s (current s)) = RUNNING then
       if 0 < slice_left (tasks b' (current s)) then (task_context (tasks b' (current s)), b') else schedule_next tf c'
     else schedule_next tf s')"
    by (simp add: schedule_on_tick_def Let_def f cur c'_def) (simp add: b'_def f)
  show "fst (simple_schedule_on_tick dev tf s) = fst (schedule_on_tick tf s')"
    "same_queue (snd (simple_schedule_on_tick dev tf s)) (snd (schedule_on_tick tf s'))"
    unfolding st st' using simple_schedule_next_same [OF a] simple_schedule_next_same [OF c] b sl same_queue_fields(3) [OF b]
    by simp_all
qed

text \<open>What the tick does beyond the queue: the slices, the bus and the timer.\<close>

lemma simple_next_rest:
  "slice_left (tasks (snd (simple_schedule_next iar tf s)) t) = slice_left (tasks s t)"
  "gic_bus (snd (simple_schedule_next iar tf s)) = gic_bus s @ [BusWrite 0x08010010 iar]"
  "CNTV_TVAL_EL0 (snd (simple_schedule_next iar tf s)) = cntfrq s div 1000"
  by (auto simp: simple_schedule_next_def rq_pop_def upd_task_def Let_def simple_gic_eoi_def w32_def bus_write_def
      GICC_BASE_def simple_set_cntv_def msr_cntv_tval_def split_beta)

lemma simple_ack_eq:
  "simple_gic_ack dev s = (dev (gic_bus s) 0x0801000C,
     s\<lparr>gic_bus := gic_bus s @ [BusRead 0x0801000C (dev (gic_bus s) 0x0801000C)]\<rparr>)"
  by (simp add: simple_gic_ack_def r32_def bus_read_def GICC_BASE_def)

lemma simple_tick_rest:
  "slice_left (tasks (snd (simple_schedule_on_tick dev tf s)) t) =
     (if t = current s \<and> current s \<noteq> 0 \<and> task_state (tasks s (current s)) = RUNNING then
        if 1 < slice_left (tasks s t) then slice_left (tasks s t) - 1 else 10000
      else slice_left (tasks s t))"
  "gic_bus (snd (simple_schedule_on_tick dev tf s)) = gic_bus s @
     [BusRead 0x0801000C (dev (gic_bus s) 0x0801000C), BusWrite 0x08010010 (dev (gic_bus s) 0x0801000C)]"
  "CNTV_TVAL_EL0 (snd (simple_schedule_on_tick dev tf s)) = cntfrq s div 1000"
  by (auto simp: simple_schedule_on_tick_def simple_ack_eq Let_def simple_next_rest upd_task_def rq_push_def
      SIMPLE_RR_SLICE_TICKS_def simple_gic_eoi_def w32_def bus_write_def GICC_BASE_def simple_set_cntv_def msr_cntv_tval_def)

section \<open>Round robin with long slices\<close>

definition simple_inv :: "'a sched_state_scheme \<Rightarrow> u64 list \<Rightarrow> nat \<Rightarrow> bool" where
  "simple_inv s xs k \<longleftrightarrow>
     rq_rep s xs \<and> xs \<noteq> [] \<and> current s = hd xs \<and> 1 \<le> k \<and> k \<le> 10000 \<and>
     task_state (tasks s (hd xs)) = RUNNING \<and> slice_left (tasks s (hd xs)) = int k \<and>
     (\<forall>t \<in> set (tl xs). task_state (tasks s t) = READY \<and> slice_left (tasks s t) = 10000)"

text \<open>The same state with slices of the present kernel, in which the current slice ends when it does here.\<close>

definition rescaled :: "'a sched_state_scheme \<Rightarrow> 'a sched_state_scheme" where
  "rescaled s = s\<lparr>tasks := (\<lambda>t. tasks s t\<lparr>slice_left := if t = current s then min 2 (slice_left (tasks s t)) else 10\<rparr>)\<rparr>"

lemma same_queue_rescaled: "same_queue s (rescaled s)"
  by (simp add: same_queue_def rescaled_def)

lemma same_queue_rep: "same_queue s s' \<Longrightarrow> rq_rep s xs \<longleftrightarrow> rq_rep s' xs"
  by (simp add: same_queue_def rq_rep_def next_of_def [abs_def])

lemma simple_inv_rescaled:
  assumes "simple_inv s xs k"
  shows "sched_inv (rescaled s) xs (min 2 k)" "current s = hd xs" "hd xs \<noteq> 0" "hd xs \<notin> set (tl xs)"
proof -
  have r: "rq_rep s xs" "xs \<noteq> []" and cur: "current s = hd xs" using assms by (simp_all add: simple_inv_def)
  then show cur: "current s = hd xs" "hd xs \<noteq> 0" "hd xs \<notin> set (tl xs)"
    using rq_rep_nonnull [OF r(1)] by (cases xs; auto simp: rq_rep_def)+
  show "sched_inv (rescaled s) xs (min 2 k)"
    using assms cur same_queue_rep [OF same_queue_rescaled, of s xs]
    by (auto simp: sched_inv_def simple_inv_def rescaled_def)
qed

lemma simple_inv_of:
  assumes "same_queue s s'" and "sched_inv s' xs j" and "1 \<le> k" "k \<le> 10000"
    and "slice_left (tasks s (hd xs)) = int k" and "\<And>t. t \<in> set (tl xs) \<Longrightarrow> slice_left (tasks s t) = 10000"
  shows "simple_inv s xs k"
  using assms same_queue_rep [OF assms(1)] by (simp add: simple_inv_def sched_inv_def same_queue_fields [OF assms(1)])

lemma simple_tick_inv:
  assumes "simple_inv s xs k"
  shows "simple_inv (snd (simple_schedule_on_tick dev tf s)) (if 1 < k then xs else rotate1 xs) (if 1 < k then k - 1 else 10000)"
    and "same_queue (snd (simple_schedule_on_tick dev tf s)) (snd (schedule_on_tick tf (rescaled s)))"
proof -
  note r = simple_inv_rescaled [OF assms]
  have sl: "slice_left (tasks s (hd xs)) = int k" "task_state (tasks s (hd xs)) = RUNNING" "1 \<le> k" "k \<le> 10000"
    "\<And>t. t \<in> set (tl xs) \<Longrightarrow> slice_left (tasks s t) = 10000" and ne: "xs \<noteq> []"
    using assms by (simp_all add: simple_inv_def)
  have "slice_left (tasks s (current s)) = slice_left (tasks (rescaled s) (current (rescaled s)))
      \<or> 1 < slice_left (tasks s (current s)) \<and> 1 < slice_left (tasks (rescaled s) (current (rescaled s)))"
    by (auto simp: rescaled_def)
  from simple_tick_same(2) [OF same_queue_rescaled this]
  show same: "same_queue (snd (simple_schedule_on_tick dev tf s)) (snd (schedule_on_tick tf (rescaled s)))" .
  have after: "slice_left (tasks (snd (simple_schedule_on_tick dev tf s)) t) =
      (if t = hd xs then if 1 < k then int k - 1 else 10000 else slice_left (tasks s t))" for t
    using r(2,3) sl(1,2) by (simp add: simple_tick_rest)
  show "simple_inv (snd (simple_schedule_on_tick dev tf s)) (if 1 < k then xs else rotate1 xs) (if 1 < k then k - 1 else 10000)"
  proof (cases "1 < k")
    case True
    then have inv: "sched_inv (snd (schedule_on_tick tf (rescaled s))) xs 1"
      using tick_counts_down(2) [OF r(1), of tf] by simp
    have "simple_inv (snd (simple_schedule_on_tick dev tf s)) xs (k - 1)"
      by (rule simple_inv_of [OF same inv]) (use True r(4) sl after in \<open>auto simp: of_nat_diff\<close>)
    then show ?thesis using True by simp
  next
    case False
    then have k: "k = 1" using sl(3) by simp
    have inv: "sched_inv (snd (schedule_on_tick tf (rescaled s))) (rotate1 xs) 10"
      using tick_switches(1) [of "rescaled s" xs tf] r(1) k by simp
    have all: "slice_left (tasks (snd (simple_schedule_on_tick dev tf s)) t) = 10000" if "t \<in> set xs" for t
    proof -
      have "t = hd xs \<or> t \<in> set (tl xs)" using that by (cases xs) auto
      then show ?thesis using k sl(5) after by auto
    qed
    have ne': "rotate1 xs \<noteq> []" using ne by simp
    have "simple_inv (snd (simple_schedule_on_tick dev tf s)) (rotate1 xs) 10000"
      by (rule simple_inv_of [OF same inv])
        (use all hd_in_set [OF ne'] list.set_sel(2) [OF ne'] in \<open>simp_all\<close>)
    then show ?thesis using k by simp
  qed
qed

interpretation rrs: round_robin simple_inv "simple_schedule_on_tick dev" current 10000
  for dev
proof unfold_locales
  show "simple_inv (snd (simple_schedule_on_tick dev c s)) xs (Suc k)" if "simple_inv s xs (Suc (Suc k))" for s xs k c
    using simple_tick_inv(1) [OF that, of dev c] by simp
  show "simple_inv (snd (simple_schedule_on_tick dev c s)) (rotate1 xs) 10000" if "simple_inv s xs 1" for s xs c
    using simple_tick_inv(1) [OF that, of dev c] by simp
qed (simp_all add: simple_inv_def)

section \<open>Boot and the vectors\<close>

text \<open>A task after \<open>task_init\<close>, and the others.\<close>

lemma task_init_queue:
  fixes s :: simple_kernel and tid :: int and name entry kstk ustk sz :: u64
  assumes "rq_rep (simple_sch s) xs" and "t \<notin> set xs" and "t \<noteq> 0" and "next_of (simple_sch s) t = 0"
  defines "s' \<equiv> simple_sch (task_init t tid name entry kstk ustk sz s)"
  shows "rq_rep s' (xs @ [t])" "a \<noteq> t \<Longrightarrow> a \<notin> set xs \<Longrightarrow> next_of s' a = next_of (simple_sch s) a"
    "task_state (tasks s' a) = (if a = t then READY else task_state (tasks (simple_sch s) a))"
    "slice_left (tasks s' a) = (if a = t then 10000 else slice_left (tasks (simple_sch s) a))"
    "task_context (tasks s' a) = (if a = t then kstk + sz - 272 else task_context (tasks (simple_sch s) a))"
proof -
  define q where "q = upd_task t (slice_left_update (\<lambda>_. SIMPLE_RR_SLICE_TICKS)) (upd_task t (task_state_update (\<lambda>_. READY))
    (upd_task t (\<lambda>t. t\<lparr>task_id := tid, task_name := name, kernel_stack := kstk,
       user_stack := ustk, task_context := kstk + sz - sizeof_SimpleContext\<rparr>) (simple_sch s)))"
  have s': "s' = rq_push t q"
    by (simp add: s'_def q_def task_init_def simple_sched_ready_enqueue_def Let_def)
  have n: "next_of q = next_of (simple_sch s)" by (auto simp: q_def next_of_def upd_task_def)
  have r: "rq_rep q xs" using assms(1) by (simp add: q_def rq_rep_upd_task)
  show "rq_rep s' (xs @ [t])" unfolding s' by (rule rq_push_rep [OF r assms(2,3)]) (simp add: n assms(4))
  show "next_of s' a = next_of (simple_sch s) a" if "a \<noteq> t" "a \<notin> set xs"
  proof (cases "xs = []")
    case True
    then show ?thesis using r that by (simp add: s' rq_push_def rq_rep_def n)
  next
    case False
    then have "rq_tail q = last xs" "last xs \<noteq> a" using r that by (auto simp: rq_rep_def)
    then show ?thesis by (simp add: s' rq_push_def next_of_upd_task n)
  qed
  show "task_state (tasks s' a) = (if a = t then READY else task_state (tasks (simple_sch s) a))"
    "slice_left (tasks s' a) = (if a = t then 10000 else slice_left (tasks (simple_sch s) a))"
    "task_context (tasks s' a) = (if a = t then kstk + sz - 272 else task_context (tasks (simple_sch s) a))"
    by (simp_all add: s') (simp_all add: q_def SIMPLE_RR_SLICE_TICKS_def sizeof_SimpleContext_def)
qed

lemma task_init_context:
  "simple_contexts (task_init t tid name entry kstk ustk sz s) =
     (simple_contexts s)(kstk + sz - 272 := simple_build_initial_context entry (ustk + sz) (simple_contexts s (kstk + sz - 272)))"
  by (simp add: task_init_def Let_def sizeof_SimpleContext_def)

lemma simple_devices_init:
  "rq_rep (simple_timer_init_1khz (simple_gic_init s)) xs \<longleftrightarrow> rq_rep s xs"
  "next_of (simple_timer_init_1khz (simple_gic_init s)) = next_of s"
  by (simp_all add: simple_timer_init_1khz_def enable_cntv_def simple_set_cntv_def read_cntfrq_def msr_cntv_tval_def
      simple_gic_init_def w32_def rq_rep_def next_of_def [abs_def])

lemma simple_kmain_effect:
  assumes "rq_head (simple_sch s) = 0" and "rq_tail (simple_sch s) = 0" and "T0 im \<noteq> 0" and "T1 im \<noteq> 0"
    and "T0 im \<noteq> T1 im" and "next_of (simple_sch s) (T0 im) = 0" and "next_of (simple_sch s) (T1 im) = 0"
    and "kstack0 im \<noteq> kstack1 im"
  shows "simple_inv (simple_sch (snd (simple_kmain im s))) [T0 im, T1 im] 10000"
    "fst (simple_kmain im s) = kstack0 im + 3824"
    "simple_elr_el1 (simple_contexts (snd (simple_kmain im s)) (kstack0 im + 3824)) = user_loop im"
    "simple_elr_el1 (simple_contexts (snd (simple_kmain im s)) (kstack1 im + 3824)) = user_loop2 im"
proof -
  define s0 where "s0 = s\<lparr>simple_sch := simple_timer_init_1khz (simple_gic_init (simple_sch s))\<rparr>"
  define s1 where "s1 = task_init (T0 im) 0 (name_A im) (user_loop im) (kstack0 im) (ustack0 im) STK_SZ s0"
  define s2 where "s2 = task_init (T1 im) 1 (name_B im) (user_loop2 im) (kstack1 im) (ustack1 im) STK_SZ s1"
  have k: "simple_kmain im s = (task_context (tasks (sched_set_current (T0 im) (simple_sch s2)) (T0 im)),
      s2\<lparr>simple_sch := sched_set_current (T0 im) (simple_sch s2)\<rparr>)"
    by (simp add: simple_kmain_def Let_def s0_def s1_def s2_def)
  have r0: "rq_rep (simple_sch s0) []" "next_of (simple_sch s0) (T0 im) = 0" "next_of (simple_sch s0) (T1 im) = 0"
    using assms by (simp_all add: s0_def simple_devices_init) (simp add: rq_rep_def)
  note q1 = task_init_queue [OF r0(1) _ assms(3) r0(2), where tid = 0 and name = "name_A im" and entry = "user_loop im" and kstk = "kstack0 im" and ustk = "ustack0 im"
      and sz = STK_SZ,
      folded s1_def, simplified]
  have n1: "next_of (simple_sch s1) (T1 im) = 0" using q1(2) [of "T1 im"] assms(5) r0(3) by auto
  note q2 = task_init_queue [OF q1(1) _ assms(4) n1, where tid = 1 and name = "name_B im" and entry = "user_loop2 im" and kstk = "kstack1 im" and ustk = "ustack1 im"
      and sz = STK_SZ,
      folded s2_def]
  have r2: "rq_rep (simple_sch s2) [T0 im, T1 im]" using q2(1) assms(5) by simp
  show "simple_inv (simple_sch (snd (simple_kmain im s))) [T0 im, T1 im] 10000"
    using r2 q1(3,4) q2(3,4) assms(5) by (simp add: k simple_inv_def sched_set_current_def Let_def rq_rep_upd_task)
  show "fst (simple_kmain im s) = kstack0 im + 3824"
    using q1(5) q2(5) assms(5) by (simp add: k sched_set_current_def Let_def STK_SZ_def)
  show "simple_elr_el1 (simple_contexts (snd (simple_kmain im s)) (kstack0 im + 3824)) = user_loop im"
    "simple_elr_el1 (simple_contexts (snd (simple_kmain im s)) (kstack1 im + 3824)) = user_loop2 im"
    using assms(8) by (simp_all add: k s2_def s1_def task_init_context STK_SZ_def simple_build_initial_context_def)
qed

definition simple_context_at :: "(u64 \<Rightarrow> u64) \<Rightarrow> u64 \<Rightarrow> SimpleContext" where
  "simple_context_at m a = \<lparr>simple_x = map (\<lambda>i. m (a + of_nat i * 8)) [0..<31],
     simple_sp_el0 = m (a + CTX_SP_EL0), simple_elr_el1 = m (a + CTX_ELR), simple_spsr_el1 = m (a + CTX_SPSR)\<rparr>"

definition simple_running :: "machine \<Rightarrow> SimpleContext" where
  "simple_running s = \<lparr>simple_x = map (X s) [0..<31], simple_sp_el0 = SP_EL0 s, simple_elr_el1 = PC s,
     simple_spsr_el1 = PSTATE s\<rparr>"

definition simple_frame :: "u64 \<Rightarrow> u64 set" where
  "simple_frame a = (\<lambda>i. a + of_nat i * 8) ` {..<34}"

lemma simple_SAVE_frame:
  "simple_context_at (words (simple_SAVE_CONTEXT (take_exception v s))) (SP s - CTX_SIZE) = simple_running s"
  "SP (simple_SAVE_CONTEXT s) = SP s - CTX_SIZE"
  by (simp_all add: simple_SAVE_CONTEXT_def Let_def upt_15 upt_31 simple_context_at_def simple_running_def vector_defs
      take_exception_def)

lemma simple_RESTORE_running:
  "simple_running (simple_RESTORE_AND_ERET s) = simple_context_at (words s) (SP s)"
  "SP (simple_RESTORE_AND_ERET s) = SP s + CTX_SIZE" "words (simple_RESTORE_AND_ERET s) = words s"
  by (simp_all add: simple_RESTORE_AND_ERET_def Let_def upt_15 upt_31 simple_running_def simple_context_at_def vector_defs)

lemma simple_context_at_cong:
  assumes "\<And>b. b \<in> simple_frame a \<Longrightarrow> m b = m' b"
  shows "simple_context_at m a = simple_context_at m' a"
proof -
  have w: "m (a + of_nat i * 8) = m' (a + of_nat i * 8)" if "i < 34" for i
    using that by (intro assms) (simp add: simple_frame_def)
  show ?thesis
    using w [of 31] w [of 32] w [of 33] w
    by (auto simp: simple_context_at_def CTX_SP_EL0_def CTX_ELR_def CTX_SPSR_def)
qed

text \<open>The saving macro of the present kernel does the same and stores one more word, at the old stack pointer.\<close>

lemma SAVE_CONTEXT_simple:
  "words (SAVE_CONTEXT s) = (words (simple_SAVE_CONTEXT s))(SP s := TTBR0 s)"
  by (simp add: SAVE_CONTEXT_def simple_SAVE_CONTEXT_def Let_def upt_15 vector_defs)

lemma simple_frame_words: "b \<in> simple_frame a \<longleftrightarrow> (\<exists>i < 34. b = a + of_nat i * 8)"
  by (auto simp: simple_frame_def)

lemma stack_pointer_not_in_frame: "a \<notin> simple_frame (a - CTX_SIZE)"
proof
  assume "a \<in> simple_frame (a - CTX_SIZE)"
  then obtain i where i: "i < 34" "of_nat i * 8 = (272 :: u64)"
    by (auto simp: simple_frame_def CTX_SIZE_def algebra_simps)
  have "unat (of_nat i * 8 :: u64) = i * 8" using i(1) by (simp add: unat_word_ariths unat_of_nat)
  then show False using i by simp
qed

lemma simple_SAVE_outside:
  assumes "b \<notin> simple_frame (SP s - CTX_SIZE)"
  shows "words (simple_SAVE_CONTEXT s) b = words s b"
proof (cases "b = SP s")
  case True
  have "SP s - CTX_SIZE + off \<noteq> SP s" if "off < 272" for off :: u64
  proof
    assume "SP s - CTX_SIZE + off = SP s"
    then have "off = 272" by (simp add: CTX_SIZE_def algebra_simps)
    then show False using that by simp
  qed
  then have n: "SP s \<noteq> SP s - CTX_SIZE + off" if "off < 272" for off using that by metis
  show ?thesis
    using n [unfolded CTX_SIZE_def]
    by (simp add: True simple_SAVE_CONTEXT_def Let_def upt_15 vector_defs)
next
  case False
  have "b \<notin> frame (SP s - CTX_SIZE)"
  proof
    assume "b \<in> frame (SP s - CTX_SIZE)"
    then obtain i where i: "i < 35" "b = SP s - CTX_SIZE + of_nat i * 8" by (auto simp: frame_def)
    then have "\<not> i < 34" using assms simple_frame_words by blast
    then have "i = 34" using i(1) by linarith
    then show False using i(2) False by (simp add: CTX_SIZE_def)
  qed
  then have "words (SAVE_CONTEXT s) b = words s b" by (rule SAVE_CONTEXT_outside)
  then show ?thesis using False by (simp add: SAVE_CONTEXT_simple)
qed

section \<open>Properties\<close>

text \<open>
  C25. The tick of \<^verbatim>\<open>kernel-simple-scheduler\<close> is the tick of the present kernel.  On the same queue,
  with the running slice at the same point (or not about to end in either), both return the same
  context and leave the same queue, tasks and current task.  Beyond that the older tick
  acknowledges the interrupt and signals its end, once each and with the same value, and sets
  the timer to the interval of 1 ms.  It does so for whatever interrupt the controller reports:
  the interrupt number is computed and never looked at.
\<close>

theorem simple_tick_equivalent:
  assumes "same_queue s s'"
    and "slice_left (tasks s (current s)) = slice_left (tasks s' (current s'))
      \<or> 1 < slice_left (tasks s (current s)) \<and> 1 < slice_left (tasks s' (current s'))"
  shows "case (simple_schedule_on_tick dev tf s, schedule_on_tick tf s') of ((c, t), (c', t')) \<Rightarrow>
    c = c' \<and> same_queue t t' \<and> CNTV_TVAL_EL0 t = cntfrq s div 1000 \<and>
    (let iar = dev (gic_bus s) 0x0801000C in
       gic_bus t = gic_bus s @ [BusRead 0x0801000C iar, BusWrite 0x08010010 iar])"
  using simple_tick_same [OF assms, of dev tf] by (simp add: split_beta Let_def simple_tick_rest)

text \<open>
  C26. \<^verbatim>\<open>kernel-simple-scheduler\<close> from boot: \<open>kmain\<close> enters the first program with the context at the top
  of its kernel stack, and after \<open>n\<close> interrupts the task that runs is number \<open>n div 10000\<close>, counted
  modulo 2: each task gets ten seconds in turn.
\<close>

theorem simple_round_robin:
  assumes "rq_head (simple_sch s) = 0" and "rq_tail (simple_sch s) = 0" and "T0 im \<noteq> 0" and "T1 im \<noteq> 0"
    and "T0 im \<noteq> T1 im" and "next_of (simple_sch s) (T0 im) = 0" and "next_of (simple_sch s) (T1 im) = 0"
    and "kstack0 im \<noteq> kstack1 im"
  shows "case simple_kmain im s of (ctx, s') \<Rightarrow>
    ctx = kstack0 im + 4096 - 272 \<and> simple_elr_el1 (simple_contexts s' ctx) = user_loop im \<and>
    current (fold (\<lambda>tf s. snd (simple_schedule_on_tick dev tf s)) tfs (simple_sch s')) =
      [T0 im, T1 im] ! (length tfs div 10000 mod 2)"
  using simple_kmain_effect [OF assms] rrs.running_after_ticks [OF simple_kmain_effect(1) [OF assms], of dev tfs]
  by (simp add: split_beta numeral_2_eq_2)

text \<open>
  C27. The context switch of \<^verbatim>\<open>kernel-simple-scheduler\<close>.  Its frames have room for all they hold: an
  interrupt changes no word outside the 272 bytes below the stack pointer, so one that arrives
  while the kernel runs leaves no trace, unlike in the present kernel, whose frame grew by a word
  and whose \<open>CTX_SIZE\<close> did not.  The interrupted program is saved there, and the program of the
  frame \<open>c\<close> that the tick returns runs.
\<close>

theorem simple_context_switch:
  assumes "\<forall>t. X (tick t) 0 = c" and "\<forall>t. \<forall>a \<in> K. words (tick t) a = words t a"
    and "simple_frame (SP s - CTX_SIZE) \<subseteq> K" and "simple_frame c \<subseteq> K"
    and "c = SP s - CTX_SIZE \<or> simple_frame c \<inter> simple_frame (SP s - CTX_SIZE) = {}"
  shows "case simple_el1_irq_entry tick (take_exception v s) of s' \<Rightarrow>
    simple_running s' = (if c = SP s - CTX_SIZE then simple_running s else simple_context_at (words s) c) \<and>
    SP s' = c + CTX_SIZE \<and> simple_context_at (words s') (SP s - CTX_SIZE) = simple_running s \<and>
    (\<forall>a \<in> K. a \<notin> simple_frame (SP s - CTX_SIZE) \<longrightarrow> words s' a = words s a) \<and>
    SP s \<notin> simple_frame (SP s - CTX_SIZE)"
proof -
  let ?f = "SP s - CTX_SIZE"
  let ?t = "mov_x 0 ?f (simple_SAVE_CONTEXT (take_exception v s))"
  define s' where "s' = simple_el1_irq_entry tick (take_exception v s)"
  have e: "s' = simple_RESTORE_AND_ERET ((tick ?t)\<lparr>SP := c\<rparr>)"
    using assms(1) by (simp add: s'_def simple_el1_irq_entry_def Let_def simple_SAVE_frame)
  have w: "words s' a = words (simple_SAVE_CONTEXT (take_exception v s)) a" if "a \<in> K" for a
    using that assms(2) by (simp add: e simple_RESTORE_running)
  have out: "words s' a = words s a" if "a \<in> K" "a \<notin> simple_frame ?f" for a
    using w [OF that(1)] simple_SAVE_outside [of a "take_exception v s"] that(2) by simp
  have own: "simple_context_at (words s') ?f = simple_running s"
    using simple_context_at_cong [of ?f "words s'" "words (simple_SAVE_CONTEXT (take_exception v s))"] w assms(3)
    by (auto simp: simple_SAVE_frame(1))
  have run: "simple_running s' = simple_context_at (words s') c" "SP s' = c + CTX_SIZE"
    by (simp_all add: e simple_RESTORE_running)
  have "simple_context_at (words s') c = simple_context_at (words s) c" if "simple_frame c \<inter> simple_frame ?f = {}"
    by (rule simple_context_at_cong) (use that assms(4) out in blast)
  then show ?thesis
    using assms(5) own out run stack_pointer_not_in_frame [of "SP s"] by (auto simp: s'_def [symmetric])
qed

section \<open>The properties at concrete states\<close>

text \<open>An image with its statics at some addresses, and its state at reset.\<close>

definition small_image :: simple_image where
  "small_image = \<lparr>T0 = 0x40010000, T1 = 0x40010040, kstack0 = 0x40020000, ustack0 = 0x40021000, kstack1 = 0x40022000,
     ustack1 = 0x40023000, user_loop = 0x40001000, user_loop2 = 0x40001100, name_A = 0x40002000, name_B = 0x40002002\<rparr>"

definition simple_reset :: simple_kernel where
  "simple_reset = \<lparr>simple_sch = idle_sched,
     simple_contexts = (\<lambda>_. \<lparr>simple_x = replicate 31 0, simple_sp_el0 = 0, simple_elr_el1 = 0, simple_spsr_el1 = 0\<rparr>)\<rparr>"

theorem simple_tick_equivalent_witness:
  "fst (simple_schedule_on_tick (\<lambda>_ _. 1023) 0x9000 idle_sched) = 0x9000"
proof -
  have "fst (schedule_on_tick 0x9000 idle_sched) = 0x9000"
    by (simp add: schedule_on_tick_def schedule_next_def rq_pop_def)
  moreover have "same_queue idle_sched idle_sched" by (simp add: same_queue_def)
  ultimately show ?thesis
    using simple_tick_equivalent [of idle_sched idle_sched "\<lambda>_ _. 1023" "0x9000"] by (simp add: split_beta)
qed

theorem simple_round_robin_witness:
  "fst (simple_kmain small_image simple_reset) = 0x40020EF0 \<and>
   current (fold (\<lambda>tf s. snd (simple_schedule_on_tick (\<lambda>_ _. 27) tf s)) (replicate 10000 0x9000)
     (simple_sch (snd (simple_kmain small_image simple_reset)))) = 0x40010040"
  using simple_round_robin [of simple_reset small_image "\<lambda>_ _. 27" "replicate 10000 0x9000"]
  by (simp add: small_image_def simple_reset_def split_beta)

theorem simple_context_switch_witness:
  "case simple_el1_irq_entry (\<lambda>t. mov_x 0 0x7EF0 t) (take_exception 0x40000280
      \<lparr>X = (\<lambda>i. of_nat i), SP = 0x8000, SP_EL0 = 1, PC = 2, PSTATE = 3, ELR = 0, SPSR = 0, TTBR0 = 0, ESR = 0, words = (\<lambda>_. 5)\<rparr>)
   of s' \<Rightarrow> PC s' = 2 \<and> SP s' = 0x8000 \<and> words s' 0x8000 = 5"
proof -
  let ?s = "\<lparr>X = (\<lambda>i. of_nat i), SP = 0x8000, SP_EL0 = 1, PC = 2, PSTATE = 3, ELR = 0, SPSR = 0, TTBR0 = 0, ESR = 0,
    words = (\<lambda>_. 5)\<rparr> :: machine"
  have "SP ?s - CTX_SIZE = 0x7EF0" "SP ?s = 0x8000" by (simp_all add: CTX_SIZE_def)
  then show ?thesis
    using simple_context_switch [of "mov_x 0 0x7EF0" "0x7EF0" UNIV ?s "0x40000280"]
    by (simp add: simple_running_def CTX_SIZE_def)
qed

end
