(* ===== verification/SimpleMmu.thy ===== *)
theory SimpleMmu
  imports Kmalloc UserMap
begin

text \<open>
  The memory management of \<^verbatim>\<open>kernel-simple-mmu/core/mmu.c\<close>, the state of the kernel before the
  block driver.  Descriptors, indices, the bitmap and the allocation of pages compute the same
  as in the present kernel (\<open>EarlierAlloc\<close>) and are taken from \<open>PageTable\<close> and \<open>Bitmap\<close>.  What differs is defined
  here: the boot tables, the place of the level 2 table of the pool and of the user tables, one
  page per mapped function, and table writes at physical addresses, through the identity mapping
  that \<open>TTBR0\<close> provides while the kernel runs on its own tables.  The bitmap is an argument of
  \<open>kmalloc\<close>.
\<close>

section \<open>mmu_init\<close>

abbreviation SIMPLE_L2_INDEX3_BASE_PHYS :: u64 where "SIMPLE_L2_INDEX3_BASE_PHYS \<equiv> 0x0000000080070000"
abbreviation SIMPLE_USER_PROCESS_1_TABLE_START :: u64 where "SIMPLE_USER_PROCESS_1_TABLE_START \<equiv> 0x800F0000"
abbreviation SIMPLE_USER_PROCESS_2_TABLE_START :: u64 where
  "SIMPLE_USER_PROCESS_2_TABLE_START \<equiv> SIMPLE_USER_PROCESS_1_TABLE_START + 0x00060000"

definition simple_mmu_init_tables :: "cells \<Rightarrow> cells" where
  "simple_mmu_init_tables m =
    (let m = clear_table L0_BASE_PHYS m;
         m = clear_table L1_BASE_PHYS m;
         m = clear_table L2_BASE_PHYS m;
         m = clear_table SIMPLE_L2_INDEX3_BASE_PHYS m;
         m = clear_table L3_INDEX0_BASE_PHYS m;
         m = set_table_entry L0_BASE_PHYS (calc_index_l0 VIRT_KERNEL_BASE)
               (make_table_desc L1_BASE_PHYS) m;
         m = set_table_entry L0_BASE_PHYS (calc_index_l0 PHYS_KERNEL_BASE)
               (make_table_desc L1_BASE_PHYS) m;
         m = set_table_entry L1_BASE_PHYS (calc_index_l1 VIRT_KERNEL_BASE)
               (make_table_desc L2_BASE_PHYS) m;
         m = set_table_entry L1_BASE_PHYS (calc_index_l1 PHYS_KERNEL_BASE)
               (make_table_desc L2_BASE_PHYS) m;
         m = set_table_entry L2_BASE_PHYS (calc_index_l2 VIRT_KERNEL_BASE)
               (make_block_desc PHYS_KERNEL_BASE) m;
         m = set_table_entry L2_BASE_PHYS (calc_index_l2 PHYS_KERNEL_BASE)
               (make_block_desc PHYS_KERNEL_BASE) m;
         m = set_table_entry L2_BASE_PHYS (calc_index_l2 VIRT_REGION_2_BASE)
               (make_block_desc PHYS_REGION_2_BASE) m;
         m = set_table_entry L2_BASE_PHYS (calc_index_l2 VIRTUAL_GICD_BASE)
               (make_block_desc GICD_BASE) m
     in set_table_entry L2_BASE_PHYS (calc_index_l2 STACK_TOP) (make_block_desc STACK_TOP) m)"

section \<open>User tables\<close>

definition simple_user_l0 :: "u64 \<Rightarrow> u64" where
  "simple_user_l0 pid =
     (if pid = 1 then SIMPLE_USER_PROCESS_1_TABLE_START else SIMPLE_USER_PROCESS_2_TABLE_START)"

definition simple_map_user_to_physical :: "u64 \<Rightarrow> u64 \<Rightarrow> cells \<Rightarrow> cells" where
  "simple_map_user_to_physical pid address m =
    (let l0 = simple_user_l0 pid;
         l1 = l0 + 0x00010000;
         l2 = l1 + 0x00010000;
         l3 = l2 + 0x00010000;
         l0_idx = calc_index_l0 address;
         l0_desc = make_table_desc l1;
         m = set_table_entry l0 l0_idx l0_desc m;
         l1_idx = calc_index_l1 address;
         l1_desc = make_table_desc l2;
         m = set_table_entry l1 l1_idx l1_desc m;
         l2_idx = calc_index_l2 address;
         l2_desc = make_table_desc l3;
         m = set_table_entry l2 l2_idx l2_desc m;
         l3_idx = calc_index_l3 address;
         l3_desc = make_l3_block_desc address
     in set_table_entry l3 l3_idx l3_desc m)"

section \<open>kmalloc\<close>

record simple_mm =
  simple_tbl :: cells
  simple_ALLOCATED :: u64

definition simple_map_one_page :: "u64 \<Rightarrow> u64 \<Rightarrow> u64 \<Rightarrow> cells \<Rightarrow> cells" where
  "simple_map_one_page l2mem current_va physical_va m =
    (let current_l2 = SIMPLE_L2_INDEX3_BASE_PHYS;
         l2_idx = calc_index_l2 current_va;
         l3_table_address = (l2mem AND 0x0000FFFFFFFFFFFF) + (512 * l2_idx);
         l2_desc = make_table_desc l3_table_address;
         m = set_table_entry current_l2 l2_idx l2_desc m;
         l3_idx = calc_index_l3 current_va;
         l3_desc = make_l3_block_desc physical_va
     in set_table_entry l3_table_address l3_idx l3_desc m)"

definition simple_map_pages :: "u64 \<Rightarrow> u64 \<Rightarrow> u64 \<Rightarrow> nat \<Rightarrow> cells \<Rightarrow> cells" where
  "simple_map_pages l2mem va pa n m =
     fold (\<lambda>i. simple_map_one_page l2mem (va + 4096 * of_nat i) (pa + 4096 * of_nat i)) [0..<n] m"

definition simple_map_pagetable_entry :: "u64 \<Rightarrow> u64 \<Rightarrow> u64 \<Rightarrow> u64 \<Rightarrow> simple_mm \<Rightarrow> bool \<times> simple_mm" where
  "simple_map_pagetable_entry l2mem va pa tot s =
    (if tot > 20 then (False, s)
     else
       let l1_global_va = 0xffff0000C0000000;
           l1_idx = calc_index_l1 l1_global_va
       in if l1_idx \<noteq> 3 then (False, s)
       else
         let s = (if simple_ALLOCATED s = 0
                  then s\<lparr>simple_tbl := set_table_entry L1_BASE_PHYS l1_idx
                                 (make_table_desc SIMPLE_L2_INDEX3_BASE_PHYS)
                                 (clear_table L3_INDEX0_BASE_PHYS
                                   (clear_cells l2mem (512 * 10 div 8) (simple_tbl s))),
                         simple_ALLOCATED := 1\<rparr>
                  else s)
         in (True, s\<lparr>simple_tbl := simple_map_pages l2mem va pa (unat tot) (simple_tbl s)\<rparr>))"

definition simple_kmalloc :: "u64 \<Rightarrow> AllocateMem \<Rightarrow> u64 \<Rightarrow> simple_mm \<Rightarrow> mm_error + (u64 \<times> AllocateMem \<times> simple_mm)" where
  "simple_kmalloc l2mem mem sz s =
    (let res = replicate 64 None in
     case allocate_mem mem sz res of
       Inl e \<Rightarrow> Inl e
     | Inr (total_allocated, mem', res') \<Rightarrow>
         (case res' ! 0 of
            None \<Rightarrow> Inl ResUninit
          | Some current \<Rightarrow>
              let pa = bitindex_to_phys current;
                  va = pa OR 0xFFFF000000000000;
                  s' = snd (simple_map_pagetable_entry l2mem va pa total_allocated s)
              in Inr (va, mem', s')))"

section \<open>The boot tables\<close>

lemma simple_table_constants [simp]:
  "page_aligned SIMPLE_L2_INDEX3_BASE_PHYS"
  "convert_to_physical SIMPLE_L2_INDEX3_BASE_PHYS = SIMPLE_L2_INDEX3_BASE_PHYS"
  "table_address (make_table_desc SIMPLE_L2_INDEX3_BASE_PHYS) = SIMPLE_L2_INDEX3_BASE_PHYS"
  by (simp_all add: page_aligned_def convert_to_physical_def desc_decode)

lemma simple_init_cells:
  assumes "i < 0x200"
  shows "simple_mmu_init_tables m (cell L0_BASE_PHYS i) = (if i = 0 then make_table_desc L1_BASE_PHYS else 0)"
    and "simple_mmu_init_tables m (cell L1_BASE_PHYS i) = (if i = 2 then make_table_desc L2_BASE_PHYS else 0)"
    and "simple_mmu_init_tables m (cell L2_BASE_PHYS i) =
           (if i = 0 then make_block_desc STACK_TOP else if i = 10 then make_block_desc GICD_BASE
            else if i = 18 then make_block_desc PHYS_REGION_2_BASE else 0)"
    and "simple_mmu_init_tables m (cell SIMPLE_L2_INDEX3_BASE_PHYS i) = 0"
  by (simp_all add: simple_mmu_init_tables_def set_table_entry_def Let_def cell_eq_iff clear_table_cell assms)

section \<open>The tables of the two kernels\<close>

text \<open>The l3 pool is a page of its own in both kernels.\<close>

definition simple_pool_ok :: "u64 \<Rightarrow> bool" where
  "simple_pool_ok l2mem \<longleftrightarrow> l3_pool_ok l2mem \<and> l2mem \<noteq> SIMPLE_L2_INDEX3_BASE_PHYS \<and>
     l2mem + 0x1000 \<noteq> SIMPLE_L2_INDEX3_BASE_PHYS"

text \<open>
  \<open>same_tables l2mem m m'\<close>: the tables that lead to the pool are the same in the memory \<open>m\<close> of the
  older kernel and \<open>m'\<close> of the present one, but for the place of the level 2 table.
\<close>

definition same_tables :: "u64 \<Rightarrow> cells \<Rightarrow> cells \<Rightarrow> bool" where
  "same_tables l2mem m m' \<longleftrightarrow>
     (\<forall>i < 0x200. m (cell L0_BASE_PHYS i) = m' (cell L0_BASE_PHYS i) \<and> m (cell l2mem i) = m' (cell l2mem i) \<and>
        m (cell SIMPLE_L2_INDEX3_BASE_PHYS i) = m' (cell L2_INDEX3_BASE_PHYS i)) \<and>
     (m (cell L1_BASE_PHYS 3) = 0 \<and> m' (cell L1_BASE_PHYS 3) = 0 \<or>
      m (cell L1_BASE_PHYS 3) = make_table_desc SIMPLE_L2_INDEX3_BASE_PHYS \<and>
      m' (cell L1_BASE_PHYS 3) = make_table_desc L2_INDEX3_BASE_PHYS)"

lemma simple_pool_okD:
  assumes "simple_pool_ok l2mem"
  shows "l3_pool_ok l2mem" "in_image l2mem" "l2mem \<noteq> SIMPLE_L2_INDEX3_BASE_PHYS" "SIMPLE_L2_INDEX3_BASE_PHYS \<noteq> l2mem"
    "SIMPLE_L2_INDEX3_BASE_PHYS \<noteq> l2mem + 0x1000"
  using assms by (auto simp: simple_pool_ok_def l3_pool_ok_def)

lemma simple_cells_distinct:
  assumes "simple_pool_ok l2mem" and "i < 0x200" and "j < 0x200"
  shows "cell l2mem i \<noteq> cell SIMPLE_L2_INDEX3_BASE_PHYS j" "cell SIMPLE_L2_INDEX3_BASE_PHYS j \<noteq> cell l2mem i"
  using assms(2,3) l3_pool_okD [OF simple_pool_okD(1) [OF assms(1)]] simple_pool_okD [OF assms(1)]
  by (simp_all add: cell_simps)

lemma same_tables_start:
  assumes "simple_pool_ok l2mem" and "same_tables l2mem m m'"
  shows "same_tables l2mem
    (set_table_entry L1_BASE_PHYS 3 (make_table_desc SIMPLE_L2_INDEX3_BASE_PHYS)
       (clear_table L3_INDEX0_BASE_PHYS (clear_cells l2mem 640 m)))
    (set_table_entry L1_BASE_PHYS 3 (make_table_desc L2_INDEX3_BASE_PHYS)
       (clear_table L3_INDEX0_BASE_PHYS (clear_cells l2mem 640 m')))"
proof -
  note ok = simple_pool_okD [OF assms(1)]
  note d = l3_pool_okD [OF ok(1)]
  have s: "clear_cells l2mem 640 m (cell SIMPLE_L2_INDEX3_BASE_PHYS i) = m (cell SIMPLE_L2_INDEX3_BASE_PHYS i)"
    if "i < 0x200" for i
    using that ok by (intro clear_cells_outside) simp_all
  show ?thesis
    using assms(2) d ok(3,4)
    by (simp add: same_tables_def set_table_entry_def cell_simps clear_table_cell s clear_l3_pool [OF ok(1)])
qed

lemma simple_map_one_page_first:
  assumes "simple_pool_ok l2mem" and "p < 512"
  shows "simple_map_one_page l2mem (kva p) (kpa p) m =
    m(cell SIMPLE_L2_INDEX3_BASE_PHYS 0 := make_table_desc l2mem, cell l2mem (of_nat p) := make_l3_block_desc (kpa p))"
  using kva_indices [of p 0] assms(2) l3_pool_okD [OF simple_pool_okD(1) [OF assms(1)]]
  by (simp add: simple_map_one_page_def set_table_entry_def Let_def)

lemma same_tables_page:
  assumes "simple_pool_ok l2mem" and "same_tables l2mem m m'" and "p < 512"
  shows "same_tables l2mem (simple_map_one_page l2mem (kva p) (kpa p) m) (map_one_page l2mem (kva p) (kpa p) m')"
proof -
  note ok = simple_pool_okD [OF assms(1)]
  note b = of_nat_index_bound [OF assms(3)]
  show ?thesis
    using assms(2) l3_pool_okD [OF ok(1)] ok(3,4) b
    by (simp add: same_tables_def simple_map_one_page_first [OF assms(1,3)] map_one_page_first [OF ok(1) assms(3)] cell_simps)
qed

lemma same_tables_pages:
  assumes "simple_pool_ok l2mem" and "same_tables l2mem m m'" and "n + k \<le> 512"
  shows "same_tables l2mem (simple_map_pages l2mem (kva n) (kpa n) k m) (map_pages l2mem (kva n) (kpa n) k m')"
  using assms(3)
proof (induction k)
  case (Suc k)
  have "simple_map_pages l2mem (kva n) (kpa n) (Suc k) m =
      simple_map_one_page l2mem (kva (n + k)) (kpa (n + k)) (simple_map_pages l2mem (kva n) (kpa n) k m)"
    by (simp add: simple_map_pages_def kva_plus kpa_plus del: of_nat_add)
  then show ?case
    using Suc same_tables_page [OF assms(1), of _ _ "n + k"] by (simp add: map_pages_Suc kva_plus kpa_plus del: of_nat_add)
qed (simp add: simple_map_pages_def assms(2))

text \<open>The pool translates to the same pages.\<close>

lemma same_tables_walk:
  assumes "simple_pool_ok l2mem" and "same_tables l2mem m m'" and "m' (cell L0_BASE_PHYS 0) = make_table_desc L1_BASE_PHYS"
    and "m' (cell L1_BASE_PHYS 3) \<noteq> 0 \<Longrightarrow> m' (cell L2_INDEX3_BASE_PHYS 0) = make_table_desc l2mem"
    and "p < 512" and "off < 0x1000"
  shows "walk m L0_BASE_PHYS (kva p + off) = walk m' L0_BASE_PHYS (kva p + off)"
proof -
  have t: "table_address (make_table_desc l2mem) = l2mem"
    using l3_pool_okD [OF simple_pool_okD(1) [OF assms(1)]] by (simp add: desc_decode page_aligned_and_page_part)
  have ix: "of_nat p < (0x200 :: u64)" by (rule of_nat_index_bound [OF assms(5)])
  have q: "p div 512 = 0" "p mod 512 = p" "p < GIB_PAGES" using assms(5) by simp_all
  note iv = kva_indices [OF q(3) assms(6), unfolded q(1,2)]
  have l0: "m (cell L0_BASE_PHYS 0) = make_table_desc L1_BASE_PHYS"
    using assms(2,3) by (simp add: same_tables_def)
  have l3: "m (cell l2mem (of_nat p)) = m' (cell l2mem (of_nat p))"
    using assms(2) ix by (simp add: same_tables_def)
  consider "m (cell L1_BASE_PHYS 3) = 0" "m' (cell L1_BASE_PHYS 3) = 0"
    | "m (cell L1_BASE_PHYS 3) = make_table_desc SIMPLE_L2_INDEX3_BASE_PHYS"
      "m' (cell L1_BASE_PHYS 3) = make_table_desc L2_INDEX3_BASE_PHYS"
    using assms(2) unfolding same_tables_def by blast
  then show ?thesis
  proof cases
    case 1
    then show ?thesis by (simp add: walk_def iv l0 assms(3) desc_decode(1))
  next
    case 2
    have "m' (cell L1_BASE_PHYS 3) \<noteq> 0" by (simp add: 2 make_desc_or)
    then have l2: "m' (cell L2_INDEX3_BASE_PHYS 0) = make_table_desc l2mem" by (rule assms(4))
    then have "m (cell SIMPLE_L2_INDEX3_BASE_PHYS 0) = make_table_desc l2mem"
      using assms(2) by (simp add: same_tables_def)
    then show ?thesis
      using 2 l2 l3 by (simp add: walk_def iv l0 assms(3) desc_decode(1) t Let_def)
  qed
qed

definition same_mm :: "u64 \<Rightarrow> simple_mm \<Rightarrow> mm_state \<Rightarrow> bool" where
  "same_mm l2mem s s' \<longleftrightarrow> same_tables l2mem (simple_tbl s) (tbl s') \<and> simple_ALLOCATED s = ALLOCATED s'"

lemma same_mm_entry:
  assumes "simple_pool_ok l2mem" and "same_mm l2mem s s'" and "n + k \<le> 512" and "k \<le> 20"
  shows "same_mm l2mem (snd (simple_map_pagetable_entry l2mem (kva n) (kpa n) (of_nat k) s))
    (snd (map_pagetable_entry l2mem (kva n) (kpa n) (of_nat k) s'))"
proof -
  have uk: "unat (of_nat k :: u64) = k" using assms(4) by (simp add: unat_of_nat)
  have le: "\<not> (of_nat k :: u64) > 20" using assms(4) by (simp add: word_less_nat_alt uk)
  show ?thesis
    using assms(2) same_tables_pages [OF assms(1) _ assms(3)] same_tables_start [OF assms(1)] le
    by (simp add: simple_map_pagetable_entry_def map_pagetable_entry_def uk same_mm_def)
qed

lemma same_mm_walk:
  assumes "simple_pool_ok l2mem" and "same_mm l2mem s s'" and "kmalloc_inv l2mem n M s'" and "p < 512" and "off < 0x1000"
  shows "walk (simple_tbl s) L0_BASE_PHYS (kva p + off) = walk (tbl s') L0_BASE_PHYS (kva p + off)"
  using assms(2,3) by (intro same_tables_walk [OF assms(1) _ _ _ assms(4,5)]) (auto simp: same_mm_def kmalloc_inv_def split: if_splits)

lemma simple_kmalloc_same:
  assumes "simple_pool_ok l2mem" and "same_mm l2mem s s'" and "kmalloc_inv l2mem n M s'"
    and "pages_needed sz \<le> 20" and "n + pages_needed sz \<le> 512"
  shows "\<exists>t t'. simple_kmalloc l2mem (GlobalBitMapArray s') sz s = Inr (kva n, GlobalBitMapArray t', t) \<and>
    kmalloc l2mem sz s' = Inr (kva n, t') \<and> same_mm l2mem t t' \<and>
    kmalloc_inv l2mem (n + pages_needed sz) (M \<union> {n..<n + pages_needed sz}) t'"
proof -
  let ?k = "pages_needed sz"
  have b: "bump (GlobalBitMapArray s') n" using assms(3) by (simp add: kmalloc_inv_def)
  have nk: "n < GIB_PAGES" using assms(5) pages_needed_pos [of sz] by simp
  obtain bm res where a: "allocate_mem (GlobalBitMapArray s') sz (replicate 64 None) = Inr (of_nat ?k, bm, res)"
    and r: "res ! 0 = Some (page_entry n)" "bitindex_to_phys (page_entry n) = kpa n"
    using allocate_block [OF b _ assms(5)] assms(4) by auto
  define t where "t = snd (simple_map_pagetable_entry l2mem (kva n) (kpa n) (of_nat ?k) s)"
  define t' where "t' = snd (map_pagetable_entry l2mem (kva n) (kpa n) (of_nat ?k) (s'\<lparr>GlobalBitMapArray := bm\<rparr>))"
  have gb: "GlobalBitMapArray t' = bm" by (simp add: t'_def map_pagetable_entry_def Let_def)
  have "simple_kmalloc l2mem (GlobalBitMapArray s') sz s = Inr (kva n, bm, t)"
    using a r kpa_or_kva [OF nk] by (simp add: simple_kmalloc_def t_def Let_def)
  moreover have k: "kmalloc l2mem sz s' = Inr (kva n, t')"
    using a r kpa_or_kva [OF nk] by (simp add: kmalloc_def t'_def Let_def)
  moreover have "same_mm l2mem t t'"
    unfolding t_def t'_def by (rule same_mm_entry [OF assms(1) _ assms(5,4)]) (use assms(2) in \<open>simp add: same_mm_def\<close>)
  moreover have "kmalloc_inv l2mem (n + ?k) (M \<union> {n..<n + ?k}) t'"
    using kma.alloc_next [OF assms(3-5)] k by auto
  ultimately show ?thesis by (auto simp: gb)
qed

text \<open>The older allocator as a page allocator, with the state of the present one as its specification.\<close>

definition simple_kmalloc_inv :: "u64 \<Rightarrow> nat \<Rightarrow> nat set \<Rightarrow> AllocateMem \<times> simple_mm \<Rightarrow> bool" where
  "simple_kmalloc_inv l2mem n M s \<longleftrightarrow> simple_pool_ok l2mem \<and>
     (\<exists>s'. GlobalBitMapArray s' = fst s \<and> same_mm l2mem (snd s) s' \<and> kmalloc_inv l2mem n M s')"

definition simple_alloc :: "u64 \<Rightarrow> u64 \<Rightarrow> AllocateMem \<times> simple_mm \<Rightarrow> mm_error + (u64 \<times> AllocateMem \<times> simple_mm)" where
  "simple_alloc l2mem sz s = simple_kmalloc l2mem (fst s) sz (snd s)"

interpretation skma: page_allocator "simple_kmalloc_inv l2mem" "simple_alloc l2mem" pages_needed kva kpa
  "\<lambda>s. walk (simple_tbl (snd s)) L0_BASE_PHYS" 20 512
  for l2mem
proof unfold_locales
  show "\<exists>s'. simple_alloc l2mem sz s = Inr (kva n, s') \<and>
      simple_kmalloc_inv l2mem (n + pages_needed sz) (M \<union> {n..<n + pages_needed sz}) s'"
    if inv: "simple_kmalloc_inv l2mem n M s" and sz: "pages_needed sz \<le> 20" "n + pages_needed sz \<le> 512" for n M s sz
  proof -
    obtain s' where s': "GlobalBitMapArray s' = fst s" "same_mm l2mem (snd s) s'" "kmalloc_inv l2mem n M s'"
      and ok: "simple_pool_ok l2mem" using inv by (auto simp: simple_kmalloc_inv_def)
    obtain t t' where "simple_kmalloc l2mem (GlobalBitMapArray s') sz (snd s) = Inr (kva n, GlobalBitMapArray t', t)"
      "same_mm l2mem t t'" "kmalloc_inv l2mem (n + pages_needed sz) (M \<union> {n..<n + pages_needed sz}) t'"
      using simple_kmalloc_same [OF ok s'(2,3) sz] by blast
    then show ?thesis
      using s'(1) ok by (intro exI [of _ "(GlobalBitMapArray t', t)"]) (auto simp: simple_alloc_def simple_kmalloc_inv_def)
  qed
  show "walk (simple_tbl (snd s)) L0_BASE_PHYS (kva p + off) = (if p \<in> M then Some (kpa p + off) else None)"
    if "simple_kmalloc_inv l2mem n M s" "p < 512" "off < 0x1000" for n M s p off
    using that same_mm_walk kmalloc_inv_walk by (fastforce simp: simple_kmalloc_inv_def)
qed

text \<open>The state after \<open>mmu_init\<close>.\<close>

lemma simple_kmalloc_inv_boot:
  assumes "simple_pool_ok l2mem" and "bump b 0"
  shows "simple_kmalloc_inv l2mem 0 {} (b, \<lparr>simple_tbl = simple_mmu_init_tables m, simple_ALLOCATED = 0\<rparr>)"
proof -
  note ok = simple_pool_okD [OF assms(1)]
  note d = l3_pool_okD [OF ok(1)]
  let ?s = "\<lparr>tbl = mmu_init_tables l2mem m, ALLOCATED = 0, GlobalBitMapArray = b\<rparr>"
  have pool: "mmu_init_tables l2mem m (cell l2mem i) = simple_mmu_init_tables m (cell l2mem i)" if "i < 0x200" for i
    using that d ok
    by (simp add: mmu_init_tables_def simple_mmu_init_tables_def set_table_entry_def Let_def in_image_index
        cell_eq_iff clear_table_cell)
  have "same_mm l2mem \<lparr>simple_tbl = simple_mmu_init_tables m, simple_ALLOCATED = 0\<rparr> ?s"
    by (simp add: same_mm_def same_tables_def simple_init_cells mmu_init_cells [OF ok(2)] pool)
  moreover have "kmalloc_inv l2mem 0 {} ?s" using assms(2) ok(1) by (intro kmalloc_inv_init) simp_all
  ultimately show ?thesis
    unfolding simple_kmalloc_inv_def using assms(1) by (intro conjI exI [of _ ?s]) simp_all
qed

section \<open>User pages\<close>

lemma simple_user_tables [simp]:
  "page_aligned (simple_user_l0 pid)" "page_aligned (simple_user_l0 pid + 0x10000)"
  "page_aligned (simple_user_l0 pid + 0x20000)" "page_aligned (simple_user_l0 pid + 0x30000)"
  "convert_to_physical (simple_user_l0 pid) = simple_user_l0 pid"
  "convert_to_physical (simple_user_l0 pid + 0x10000) = simple_user_l0 pid + 0x10000"
  "convert_to_physical (simple_user_l0 pid + 0x20000) = simple_user_l0 pid + 0x20000"
  "convert_to_physical (simple_user_l0 pid + 0x30000) = simple_user_l0 pid + 0x30000"
  by (simp_all add: simple_user_l0_def page_aligned_def convert_to_physical_def)

lemma simple_map_user_cells:
  "simple_map_user_to_physical pid a m =
    m(cell (simple_user_l0 pid) (calc_index_l0 a) := make_table_desc (simple_user_l0 pid + 0x10000),
      cell (simple_user_l0 pid + 0x10000) (calc_index_l1 a) := make_table_desc (simple_user_l0 pid + 0x20000),
      cell (simple_user_l0 pid + 0x20000) (calc_index_l2 a) := make_table_desc (simple_user_l0 pid + 0x30000),
      cell (simple_user_l0 pid + 0x30000) (calc_index_l3 a) := make_l3_block_desc a)"
  by (simp add: simple_map_user_to_physical_def Let_def set_table_entry_def add.assoc)

text \<open>The page of a mapped function is identity mapped for the process.\<close>

lemma simple_map_user_walk:
  assumes "drop_bit 12 va = drop_bit 12 a"
  shows "walk (simple_map_user_to_physical pid a m) (simple_user_l0 pid) va = Some (convert_to_physical va)"
proof -
  have t: "table_address (make_table_desc (simple_user_l0 pid + 0x10000)) = simple_user_l0 pid + 0x10000"
    "table_address (make_table_desc (simple_user_l0 pid + 0x20000)) = simple_user_l0 pid + 0x20000"
    "table_address (make_table_desc (simple_user_l0 pid + 0x30000)) = simple_user_l0 pid + 0x30000"
    by (simp_all add: desc_decode page_aligned_and_page_part)
  have c: "simple_map_user_to_physical pid a m (cell (simple_user_l0 pid) (calc_index_l0 a)) = make_table_desc (simple_user_l0 pid + 0x10000)"
    "simple_map_user_to_physical pid a m (cell (simple_user_l0 pid + 0x10000) (calc_index_l1 a)) = make_table_desc (simple_user_l0 pid + 0x20000)"
    "simple_map_user_to_physical pid a m (cell (simple_user_l0 pid + 0x20000) (calc_index_l2 a)) = make_table_desc (simple_user_l0 pid + 0x30000)"
    "simple_map_user_to_physical pid a m (cell (simple_user_l0 pid + 0x30000) (calc_index_l3 a)) = make_l3_block_desc a"
    by (simp_all add: simple_map_user_cells cell_simps)
  show ?thesis
    using same_page_address [OF assms]
    by (simp only: walk_def Let_def same_page_indices [OF assms] c t desc_decode(1,2,5)) simp
qed

section \<open>Properties\<close>

text \<open>
  C13. \<open>kmalloc\<close> of \<^verbatim>\<open>kernel-simple-mmu\<close> and \<open>kmalloc\<close> of the present kernel agree.  From the tables
  of their own \<open>mmu_init\<close> and the same empty bitmap, every sequence of requests of up to 20 pages
  each that fits the pool gets the same addresses in both, and afterwards every address of the
  pool is translated to the same place, or not at all, by both.
\<close>

theorem simple_kmalloc_equivalent:
  assumes "simple_pool_ok l2mem" and "bump b 0" and "\<forall>sz \<in> set szs. pages_needed sz \<le> 20"
    and "sum_list (map pages_needed szs) \<le> 512"
  shows "\<exists>vas t t'.
    alloc_all (simple_alloc l2mem) szs (b, \<lparr>simple_tbl = simple_mmu_init_tables m, simple_ALLOCATED = 0\<rparr>) = Inr (vas, t) \<and>
    alloc_all (kmalloc l2mem) szs \<lparr>tbl = mmu_init_tables l2mem m', ALLOCATED = 0, GlobalBitMapArray = b\<rparr> = Inr (vas, t') \<and>
    (\<forall>p off. p < 512 \<longrightarrow> off < 0x1000 \<longrightarrow>
       walk (simple_tbl (snd t)) L0_BASE_PHYS (kva p + off) = walk (tbl t') L0_BASE_PHYS (kva p + off))"
proof -
  have "kmalloc_inv l2mem 0 {} \<lparr>tbl = mmu_init_tables l2mem m', ALLOCATED = 0, GlobalBitMapArray = b\<rparr>"
    using assms(2) simple_pool_okD(1) [OF assms(1)] by (intro kmalloc_inv_init) simp_all
  from kma.alloc_all_mapped [OF this assms(3)] skma.alloc_all_mapped [OF simple_kmalloc_inv_boot [OF assms(1,2)] assms(3), of m]
  show ?thesis using assms(4) by auto
qed

text \<open>
  The boot tables only grew.  Whatever was in table memory before, every address that the boot
  tables of \<^verbatim>\<open>kernel-simple-mmu\<close> translate is translated to the same place by those of the present
  kernel, although the entry of the kernel image is written with another base there.
\<close>

lemma boot_tables_extended:
  assumes "in_image l2mem" and "walk (simple_mmu_init_tables m) L0_BASE_PHYS va = Some pa"
  shows "walk (mmu_init_tables l2mem m') L0_BASE_PHYS va = Some pa"
  using assms(2)
  by (simp add: walk_def Let_def simple_init_cells mmu_init_cells [OF assms(1)] desc_decode in_image_block [OF assms(1)]
      split: if_splits)

theorem simple_kmalloc_equivalent_witness:
  "\<exists>vas t. alloc_all (simple_alloc 0x8008e000) [5000, 1]
      (empty_bitmap, \<lparr>simple_tbl = simple_mmu_init_tables (\<lambda>_. 0), simple_ALLOCATED = 0\<rparr>) = Inr (vas, t)"
proof -
  have "simple_pool_ok 0x8008e000" using l3_pool_ok_elf by (simp add: simple_pool_ok_def)
  then show ?thesis
    using simple_kmalloc_equivalent [of "0x8008e000" empty_bitmap "[5000, 1]" "\<lambda>_. 0" "\<lambda>_. 0"] bump_empty
    by (auto simp: pages_needed_def)
qed

lemma boot_tables_extended_witness:
  "walk (mmu_init_tables 0x8008e000 (\<lambda>_. 0)) L0_BASE_PHYS 0xffff0000801F0008 = Some 0x801F0008"
proof -
  have "in_image 0x8008e000" using l3_pool_ok_elf by (simp add: l3_pool_ok_def)
  moreover have "walk (simple_mmu_init_tables (\<lambda>_. 0)) L0_BASE_PHYS 0xffff0000801F0008 = Some 0x801F0008"
    by (simp add: walk_def simple_init_cells calc_index_l0_def calc_index_l1_def calc_index_l2_def desc_decode)
  ultimately show ?thesis by (rule boot_tables_extended)
qed

end
