(* ===== verification/SimpleBoot.thy ===== *)
theory SimpleBoot
  imports SimpleMmu Boot Vectors
begin

text \<open>
  The rest of \<^verbatim>\<open>kernel-simple-mmu\<close>: \<open>init_task\<close> and \<open>kmain\<close> of \<^verbatim>\<open>core/kmain.c\<close>, the system call
  dispatcher of \<^verbatim>\<open>core/handlers.c\<close> and the system call vector.  The scheduler, the timer, the
  interrupt controller, the serial port and the interrupt vector are the text of the present
  kernel, but for calls of \<open>uart_printf\<close> and \<open>uart_puts\<close>, and are taken from \<open>Sched\<close>, \<open>Irq\<close>, \<open>Uart\<close> and
  \<open>Vectors\<close>.  The output of the log is left out.
\<close>

section \<open>State\<close>

record simple_mmu_kernel =
  simple_mem :: simple_mm
  simple_bitmap :: AllocateMem
  simple_sch :: sched_state
  simple_contexts :: "u64 \<Rightarrow> Context"
  simple_bytes :: "u64 \<Rightarrow> u8"
  simple_uart :: bus
  simple_daif :: u64

definition simple_kmalloc_in :: "u64 \<Rightarrow> u64 \<Rightarrow> simple_mmu_kernel \<Rightarrow> mm_error + u64 \<times> simple_mmu_kernel" where
  "simple_kmalloc_in l2mem sz s =
    (case simple_kmalloc l2mem (simple_bitmap s) sz (simple_mem s) of
       Inl e \<Rightarrow> Inl e
     | Inr (p, b, m) \<Rightarrow> Inr (p, s\<lparr>simple_bitmap := b, simple_mem := m\<rparr>))"

definition simple_map_user_in :: "u64 \<Rightarrow> u64 \<Rightarrow> simple_mmu_kernel \<Rightarrow> simple_mmu_kernel" where
  "simple_map_user_in pid a s =
    s\<lparr>simple_mem := (simple_mem s)\<lparr>simple_tbl := simple_map_user_to_physical pid a (simple_tbl (simple_mem s))\<rparr>\<rparr>"

section \<open>init_task and kmain\<close>

text \<open>\<open>map_user_to_physical_test\<close> has the same body as \<open>map_user_to_physical\<close> in this kernel.\<close>

definition simple_init_task :: "u64 \<Rightarrow> u64 \<Rightarrow> u64 \<Rightarrow> u64 \<Rightarrow> u64 \<Rightarrow> simple_mmu_kernel
    \<Rightarrow> mm_error + u64 \<times> simple_mmu_kernel" where
  "simple_init_task l2mem pid name entry sz s =
    (case simple_kmalloc_in l2mem sizeof_Task s of Inl e \<Rightarrow> Inl e | Inr (task, s) \<Rightarrow>
     case simple_kmalloc_in l2mem sz s of Inl e \<Rightarrow> Inl e | Inr (kstack, s) \<Rightarrow>
     case simple_kmalloc_in l2mem sz s of Inl e \<Rightarrow> Inl e | Inr (ustack_t, s) \<Rightarrow>
     let ustack = kernal_to_user_space ustack_t;
         s = simple_map_user_in pid ustack s;
         ustack = ustack + sz;
         ktop = kstack + sz;
         ctx = ktop - sizeof_Context;
         entry = kernal_to_user_space entry;
         s = simple_map_user_in pid entry s;
         c = build_initial_context entry ustack (simple_contexts s ctx);
         c = c\<lparr>ttbr0_el1 := if pid = 1 then SIMPLE_USER_PROCESS_1_TABLE_START else SIMPLE_USER_PROCESS_2_TABLE_START\<rparr>;
         s = s\<lparr>simple_contexts := (simple_contexts s)(ctx := c)\<rparr>;
         t = upd_task task (\<lambda>t. t\<lparr>task_id := uint pid, task_name := name, kernel_stack := kstack,
               user_stack := ustack, task_context := ctx\<rparr>) (simple_sch s);
         s = s\<lparr>simple_sch := sched_ready_enqueue task t\<rparr>
     in Inr (task, s))"

text \<open>
  \<open>p1\<close>, \<open>n1\<close>, \<open>p2\<close> and \<open>n2\<close> are the addresses of the two programs and of their names; \<open>first_user_enter\<close>
  is called with the first component of the result.
\<close>

definition simple_mmu_kmain :: "u64 \<Rightarrow> u64 \<Rightarrow> u64 \<Rightarrow> u64 \<Rightarrow> u64 \<Rightarrow> u64 \<Rightarrow> device \<Rightarrow> (u64 \<Rightarrow> u8) \<Rightarrow> u64
    \<Rightarrow> simple_mmu_kernel \<Rightarrow> mm_error + u64 \<times> simple_mmu_kernel" where
  "simple_mmu_kmain l2mem block_memory_start p1 n1 p2 n2 udev ram total_ram s =
    (let s = s\<lparr>simple_uart := uart_init udev (simple_uart s)\<rparr>;
         s = s\<lparr>simple_sch := gic_init (simple_sch s)\<rparr>;
         s = s\<lparr>simple_sch := timer_init_1khz (simple_sch s)\<rparr>;
         bitmap = init_allocation_map block_memory_start total_ram;
         s = s\<lparr>simple_bitmap := \<lparr>buffer = (\<lambda>i. ram (bitmap + i))\<rparr>\<rparr>
     in case simple_kmalloc_in l2mem 16000 s of Inl e \<Rightarrow> Inl e | Inr (test, s) \<Rightarrow>
     let s = s\<lparr>simple_bytes := write_test test (simple_bytes s)\<rparr>
     in case simple_init_task l2mem 1 n1 p1 STACK_SZ s of Inl e \<Rightarrow> Inl e | Inr (task1, s) \<Rightarrow>
     case simple_init_task l2mem 2 n2 p2 STACK_SZ s of Inl e \<Rightarrow> Inl e | Inr (task2, s) \<Rightarrow>
     let s = s\<lparr>simple_sch := sched_set_current task1 (simple_sch s)\<rparr>;
         s = s\<lparr>simple_daif := unmask_interrupts (simple_daif s)\<rparr>
     in Inr (task_context (tasks (simple_sch s) task1), s))"

section \<open>System calls\<close>

definition simple_syscall_dispatcher :: "u64 \<Rightarrow> u64 \<Rightarrow> u64 \<Rightarrow> u64 \<Rightarrow> u64 \<Rightarrow> simple_mmu_kernel
    \<Rightarrow> mm_error + u64 \<times> simple_mmu_kernel" where
  "simple_syscall_dispatcher l2mem syscall_num arg1 arg2 arg3 s =
    (let result = 0 in
     if syscall_num = 5 then simple_kmalloc_in l2mem arg1 s else Inr (result, s))"

text \<open>
  The vector.  \<^verbatim>\<open>vectors.s\<close> defines a label \<open>syscall_dispatcher\<close> of its own, an \<open>eret\<close>, and the
  assembler resolves the branch to it: the object file beside the source has the label as a
  local symbol and no relocation for the branch.  \<open>lr\<close> is the address after the branch.
\<close>

definition bl_local_eret :: "u64 \<Rightarrow> machine \<Rightarrow> machine" where
  "bl_local_eret lr s = eret (mov_x 30 lr s)"

definition simple_el0_sync_entry :: "u64 \<Rightarrow> machine \<Rightarrow> machine" where
  "simple_el0_sync_entry lr s =
    (let s = mov_x 10 (ESR s) s;
         s = mov_x 11 (drop_bit 26 (X s 10)) s
     in if X s 11 \<noteq> 0x15 then eret s
     else
       let s = mov_x 3 (X s 0) s;
           s = mov_x 4 (X s 1) s;
           s = mov_x 5 (X s 2) s;
           s = mov_x 4 (X s 11) s;
           s = mov_x 4 (X s 4 AND NOT 0xffff) s;
           s = mov_x 0 (X s 4) s;
           s = mov_x 1 (X s 3) s;
           s = mov_x 2 (X s 4) s;
           s = mov_x 3 (X s 5) s
       in bl_local_eret lr s)"

section \<open>The tables of a process\<close>

text \<open>
  \<open>user_maps pid a m\<close>: the tables of the process lead to the page of \<open>a\<close>.  This is kept by the calls
  that follow: the entry of another page, the tables of the other process, and the allocator.
\<close>

definition user_maps :: "u64 \<Rightarrow> u64 \<Rightarrow> cells \<Rightarrow> bool" where
  "user_maps pid a m \<longleftrightarrow>
     m (cell (simple_user_l0 pid) (calc_index_l0 a)) = make_table_desc (simple_user_l0 pid + 0x10000) \<and>
     m (cell (simple_user_l0 pid + 0x10000) (calc_index_l1 a)) = make_table_desc (simple_user_l0 pid + 0x20000) \<and>
     m (cell (simple_user_l0 pid + 0x20000) (calc_index_l2 a)) = make_table_desc (simple_user_l0 pid + 0x30000) \<and>
     m (cell (simple_user_l0 pid + 0x30000) (calc_index_l3 a)) = make_l3_block_desc a"

definition user_table_pages :: "u64 \<Rightarrow> u64 set" where
  "user_table_pages pid = {simple_user_l0 pid, simple_user_l0 pid + 0x10000, simple_user_l0 pid + 0x20000,
     simple_user_l0 pid + 0x30000}"

lemma user_maps_cong:
  assumes "\<And>t i. t \<in> user_table_pages pid \<Longrightarrow> i < 0x200 \<Longrightarrow> m' (cell t i) = m (cell t i)"
  shows "user_maps pid a m' \<longleftrightarrow> user_maps pid a m"
  by (simp add: user_maps_def assms user_table_pages_def)

lemma user_maps_map:
  "user_maps pid a (simple_map_user_to_physical pid a m)"
  by (simp add: user_maps_def simple_map_user_cells cell_simps)

lemma user_maps_map_other_page:
  assumes "user_maps pid b m" and "calc_index_l3 a \<noteq> calc_index_l3 b"
  shows "user_maps pid b (simple_map_user_to_physical pid a m)"
  using assms by (simp add: user_maps_def simple_map_user_cells cell_simps)

lemma user_pages_apart:
  assumes "t \<in> user_table_pages 1" and "t' \<in> user_table_pages 2" and "i < 0x200" and "j < 0x200"
  shows "cell t i \<noteq> cell t' j"
proof -
  have "page_aligned t" "page_aligned t'" using assms(1,2) by (auto simp: user_table_pages_def)
  moreover have "convert_to_physical t \<noteq> convert_to_physical t'"
    using assms(1,2) by (auto simp: user_table_pages_def) (auto simp: simple_user_l0_def)
  ultimately show ?thesis using assms(3,4) by (simp add: cell_eq_iff)
qed

lemma user_maps_map_other_process:
  "user_maps 1 b (simple_map_user_to_physical 2 a m) \<longleftrightarrow> user_maps 1 b m"
proof (rule user_maps_cong)
  fix t i :: u64
  assume "t \<in> user_table_pages 1" "i < 0x200"
  note d = user_pages_apart [OF this(1) _ this(2)]
  show "simple_map_user_to_physical 2 a m (cell t i) = m (cell t i)"
    using d [of "simple_user_l0 2" "calc_index_l0 a"] d [of "simple_user_l0 2 + 0x10000" "calc_index_l1 a"]
      d [of "simple_user_l0 2 + 0x20000" "calc_index_l2 a"] d [of "simple_user_l0 2 + 0x30000" "calc_index_l3 a"]
    by (simp add: simple_map_user_cells user_table_pages_def)
qed

lemma user_maps_walk:
  assumes "user_maps pid a m" and "drop_bit 12 va = drop_bit 12 a"
  shows "walk m (simple_user_l0 pid) va = Some (convert_to_physical va)"
proof -
  have t: "table_address (make_table_desc (simple_user_l0 pid + 0x10000)) = simple_user_l0 pid + 0x10000"
    "table_address (make_table_desc (simple_user_l0 pid + 0x20000)) = simple_user_l0 pid + 0x20000"
    "table_address (make_table_desc (simple_user_l0 pid + 0x30000)) = simple_user_l0 pid + 0x30000"
    by (simp_all add: desc_decode page_aligned_and_page_part)
  note c = assms(1) [unfolded user_maps_def]
  show ?thesis
    using same_page_address [OF assms(2)]
    by (simp only: walk_def Let_def same_page_indices [OF assms(2)] c t desc_decode(1,2,5)) simp
qed

text \<open>The pool of l3 tables is none of the tables of the processes, which the linker script does not say.\<close>

definition simple_layout_ok :: "u64 \<Rightarrow> bool" where
  "simple_layout_ok l2mem \<longleftrightarrow> simple_pool_ok l2mem \<and> l2mem \<notin> user_table_pages 1 \<union> user_table_pages 2"

lemma simple_layout_okD:
  assumes "simple_layout_ok l2mem" and "pid \<in> {1, 2}" and "t \<in> user_table_pages pid" and "i < 0x200" and "j < 0x200"
  shows "cell t i \<noteq> cell l2mem j" "cell t i \<noteq> cell SIMPLE_L2_INDEX3_BASE_PHYS j" "cell t i \<noteq> cell L0_BASE_PHYS j"
    "cell t i \<noteq> cell L1_BASE_PHYS j"
proof -
  have "t \<noteq> l2mem" "simple_pool_ok l2mem" using assms(1-3) by (auto simp: simple_layout_ok_def)
  moreover note l3_pool_okD [OF simple_pool_okD(1) [OF this(2)]]
  ultimately show "cell t i \<noteq> cell l2mem j" "cell t i \<noteq> cell SIMPLE_L2_INDEX3_BASE_PHYS j"
    "cell t i \<noteq> cell L0_BASE_PHYS j" "cell t i \<noteq> cell L1_BASE_PHYS j"
    using assms(2-5) by (auto simp: user_table_pages_def cell_simps) (auto simp: simple_user_l0_def)
qed

section \<open>The allocator inside the kernel\<close>

abbreviation pool_inv :: "u64 \<Rightarrow> nat \<Rightarrow> nat set \<Rightarrow> simple_mmu_kernel \<Rightarrow> bool" where
  "pool_inv l2mem n M s \<equiv> simple_kmalloc_inv l2mem n M (simple_bitmap s, simple_mem s)"

abbreviation tables_of :: "simple_mmu_kernel \<Rightarrow> cells" where
  "tables_of s \<equiv> simple_tbl (simple_mem s)"

text \<open>Entering a user page touches none of the tables of the kernel.\<close>

lemma pool_inv_map_user:
  assumes "simple_layout_ok l2mem" and "pid \<in> {1, 2}" and "pool_inv l2mem n M s"
  shows "pool_inv l2mem n M (simple_map_user_in pid a s)"
proof -
  note d = simple_layout_okD [OF assms(1,2)]
  have c: "simple_map_user_to_physical pid a m (cell b j) = m (cell b j)"
    if "b \<in> {l2mem, SIMPLE_L2_INDEX3_BASE_PHYS, L0_BASE_PHYS, L1_BASE_PHYS}" "j < 0x200" for m b j
    using that d [of "simple_user_l0 pid" "calc_index_l0 a" j] d [of "simple_user_l0 pid + 0x10000" "calc_index_l1 a" j]
      d [of "simple_user_l0 pid + 0x20000" "calc_index_l2 a" j] d [of "simple_user_l0 pid + 0x30000" "calc_index_l3 a" j]
    by (auto simp: simple_map_user_cells user_table_pages_def)
  show ?thesis
    using assms(3) by (auto simp: simple_kmalloc_inv_def simple_map_user_in_def same_mm_def same_tables_def c)
qed

text \<open>One page of the pool, once the tables of the pool are in place.\<close>

lemma simple_page:
  assumes "pool_inv l2mem n M s" and "M \<noteq> {}" and "pages_needed sz = 1" and "n < 512"
  shows "\<exists>b. simple_kmalloc_in l2mem sz s = Inr (kva n, s\<lparr>simple_bitmap := b, simple_mem :=
      (simple_mem s)\<lparr>simple_tbl := simple_map_one_page l2mem (kva n) (kpa n) (tables_of s)\<rparr>\<rparr>) \<and>
    pool_inv l2mem (n + 1) (M \<union> {n..<n + 1}) (s\<lparr>simple_bitmap := b, simple_mem :=
      (simple_mem s)\<lparr>simple_tbl := simple_map_one_page l2mem (kva n) (kpa n) (tables_of s)\<rparr>\<rparr>)"
proof -
  have b: "bump (simple_bitmap s) n" and al: "simple_ALLOCATED (simple_mem s) \<noteq> 0"
    using assms(1,2) by (auto simp: simple_kmalloc_inv_def same_mm_def kmalloc_inv_def)
  obtain bm res where a: "allocate_mem (simple_bitmap s) sz (replicate 64 None) = Inr (1, bm, res)"
    and r: "res ! 0 = Some (page_entry n)" "bitindex_to_phys (page_entry n) = kpa n"
    using allocate_block [OF b, of sz] assms(3,4) by auto
  have "simple_map_pagetable_entry l2mem (kva n) (kpa n) 1 (simple_mem s) =
      (True, (simple_mem s)\<lparr>simple_tbl := simple_map_one_page l2mem (kva n) (kpa n) (tables_of s)\<rparr>)"
    using al by (simp add: simple_map_pagetable_entry_def simple_map_pages_def Let_def)
  then have k: "simple_kmalloc l2mem (simple_bitmap s) sz (simple_mem s) = Inr (kva n, bm,
      (simple_mem s)\<lparr>simple_tbl := simple_map_one_page l2mem (kva n) (kpa n) (tables_of s)\<rparr>)"
    using a r kpa_or_kva [of n] assms(4) by (simp add: simple_kmalloc_def Let_def)
  have "pool_inv l2mem (n + 1) (M \<union> {n..<n + 1}) (s\<lparr>simple_bitmap := bm, simple_mem :=
      (simple_mem s)\<lparr>simple_tbl := simple_map_one_page l2mem (kva n) (kpa n) (tables_of s)\<rparr>\<rparr>)"
    using skma.alloc_next [OF assms(1), of sz] assms(3,4) k by (simp add: simple_alloc_def)
  then show ?thesis using k by (auto simp: simple_kmalloc_in_def)
qed

lemma user_maps_page:
  assumes "simple_layout_ok l2mem" and "pid \<in> {1, 2}" and "p < 512"
  shows "user_maps pid a (simple_map_one_page l2mem (kva p) (kpa p) m) \<longleftrightarrow> user_maps pid a m"
proof -
  have "simple_pool_ok l2mem" using assms(1) by (simp add: simple_layout_ok_def)
  note e = simple_map_one_page_first [OF this assms(3)]
  show ?thesis
    by (rule user_maps_cong)
      (use simple_layout_okD(1) [OF assms(1,2) _ _ of_nat_index_bound [OF assms(3)]]
         simple_layout_okD(2) [OF assms(1,2), where j = 0] in \<open>simp add: e\<close>)
qed

section \<open>What init_task leaves\<close>

definition simple_start_context :: "u64 \<Rightarrow> u64 \<Rightarrow> u64 \<Rightarrow> Context \<Rightarrow> Context" where
  "simple_start_context pid entry ustack_top c = (start_context pid entry ustack_top c)\<lparr>ttbr0_el1 := simple_user_l0 pid\<rparr>"

lemma simple_init_task_effect:
  fixes s :: simple_mmu_kernel and entry :: u64 and n :: nat
  assumes "simple_layout_ok l2mem" and "pid \<in> {1, 2}" and "pool_inv l2mem n M s" and "M \<noteq> {}" and "n + 3 \<le> 512"
  defines "ctx \<equiv> kva (n + 1) + STACK_SZ - sizeof_Context" and "e \<equiv> convert_to_physical entry"
  shows "\<exists>b m. simple_kmalloc_inv l2mem (n + 3) (M \<union> {n..<n + 3}) (b, m) \<and> user_maps pid e (simple_tbl m) \<and>
    (calc_index_l3 e \<noteq> calc_index_l3 (kpa (n + 2)) \<longrightarrow> user_maps pid (kpa (n + 2)) (simple_tbl m)) \<and>
    (\<forall>a. pid = 2 \<longrightarrow> user_maps 1 a (tables_of s) \<longrightarrow> user_maps 1 a (simple_tbl m)) \<and>
    simple_init_task l2mem pid name entry STACK_SZ s = Inr (kva n, s\<lparr>simple_bitmap := b, simple_mem := m,
      simple_contexts := (simple_contexts s)(ctx :=
        simple_start_context pid e (kpa (n + 2) + STACK_SZ) (simple_contexts s ctx)),
      simple_sch := sched_ready_enqueue (kva n) (upd_task (kva n) (\<lambda>t. t\<lparr>task_id := uint pid, task_name := name,
        kernel_stack := kva (n + 1), user_stack := kpa (n + 2) + STACK_SZ, task_context := ctx\<rparr>) (simple_sch s))\<rparr>)"
proof -
  let ?page = "\<lambda>q. simple_map_one_page l2mem (kva q) (kpa q)"
  define T where "T = ?page (n + 2) (?page (n + 1) (?page n (tables_of s)))"
  define m where "m = (simple_mem s)\<lparr>simple_tbl := simple_map_user_to_physical pid e
    (simple_map_user_to_physical pid (kpa (n + 2)) T)\<rparr>"
  let ?at = "\<lambda>b t. s\<lparr>simple_bitmap := b, simple_mem := (simple_mem s)\<lparr>simple_tbl := t\<rparr>\<rparr>"
  let ?t1 = "?page n (tables_of s)" and ?t2 = "?page (n + 1) (?page n (tables_of s))"
  obtain b1 where k1: "simple_kmalloc_in l2mem sizeof_Task s = Inr (kva n, ?at b1 ?t1)"
    and i1: "pool_inv l2mem (n + 1) (M \<union> {n..<n + 1}) (?at b1 ?t1)"
    using simple_page [OF assms(3,4) task_pages(1)] assms(5) by auto
  obtain b2 where k2: "simple_kmalloc_in l2mem STACK_SZ (?at b1 ?t1) = Inr (kva (n + 1), ?at b2 ?t2)"
    and i2: "pool_inv l2mem (n + 1 + 1) (M \<union> {n..<n + 1} \<union> {n + 1..<n + 1 + 1}) (?at b2 ?t2)"
    using simple_page [OF i1 _ task_pages(2)] assms(5) by auto
  obtain b3 where k3: "simple_kmalloc_in l2mem STACK_SZ (?at b2 ?t2) = Inr (kva (n + 2), ?at b3 T)"
    and i3: "pool_inv l2mem (n + 1 + 1 + 1) (M \<union> {n..<n + 1} \<union> {n + 1..<n + 1 + 1} \<union> {n + 1 + 1..<n + 1 + 1 + 1})
      (?at b3 T)"
    using simple_page [OF i2 _ task_pages(2)] assms(5) by (auto simp: T_def)
  have "pool_inv l2mem (n + 3) (M \<union> {n..<n + 3}) (?at b3 T)"
    using i3 unfolding three_pages by (simp add: numeral_3_eq_3)
  from pool_inv_map_user [OF assms(1,2) pool_inv_map_user [OF assms(1,2) this, of "kpa (n + 2)"], of e]
  have inv: "simple_kmalloc_inv l2mem (n + 3) (M \<union> {n..<n + 3}) (b3, m)"
    by (simp add: simple_map_user_in_def m_def)
  have u: "convert_to_physical (kva (n + 2)) = kpa (n + 2)"
    using user_address_kva [of "n + 2"] assms(5) by (simp add: kernal_to_user_space_eq)
  have run: "simple_init_task l2mem pid name entry STACK_SZ s = Inr (kva n, s\<lparr>simple_bitmap := b3, simple_mem := m,
      simple_contexts := (simple_contexts s)(ctx :=
        simple_start_context pid e (kpa (n + 2) + STACK_SZ) (simple_contexts s ctx)),
      simple_sch := sched_ready_enqueue (kva n) (upd_task (kva n) (\<lambda>t. t\<lparr>task_id := uint pid, task_name := name,
        kernel_stack := kva (n + 1), user_stack := kpa (n + 2) + STACK_SZ, task_context := ctx\<rparr>) (simple_sch s))\<rparr>)"
    using k1 k2 k3 u
    by (simp add: simple_init_task_def Let_def kernal_to_user_space_eq e_def ctx_def build_initial_context_def
        simple_start_context_def start_context_def simple_user_l0_def m_def simple_map_user_in_def spsr_el0t_default_def)
  have other: "user_maps 1 a (simple_tbl m)" if "pid = 2" "user_maps 1 a (tables_of s)" for a
    using that assms(5) by (simp add: m_def T_def user_maps_map_other_process user_maps_page [OF assms(1)])
  have own: "user_maps pid e (simple_tbl m)"
    "calc_index_l3 e \<noteq> calc_index_l3 (kpa (n + 2)) \<Longrightarrow> user_maps pid (kpa (n + 2)) (simple_tbl m)"
    by (simp_all add: m_def user_maps_map user_maps_map_other_page)
  show ?thesis using inv run other own by blast
qed

section \<open>Properties\<close>

text \<open>
  \<open>task_boots pid entry q t s\<close>: the task at \<open>t\<close> runs the program at \<open>entry\<close> with the page \<open>q\<close> of the pool
  as its stack, in EL0 with interrupts on, and the tables of its process lead to both pages.
\<close>

definition task_boots :: "u64 \<Rightarrow> u64 \<Rightarrow> nat \<Rightarrow> u64 \<Rightarrow> simple_mmu_kernel \<Rightarrow> bool" where
  "task_boots pid entry q t s \<longleftrightarrow>
    (let c = simple_contexts s (task_context (tasks (simple_sch s) t)) in
       elr_el1 c = convert_to_physical entry \<and> sp_el0 c = kpa q + 4096 \<and> spsr_el1 c = 0 \<and>
       ttbr0_el1 c = simple_user_l0 pid \<and>
       (\<forall>va. drop_bit 12 va = drop_bit 12 (elr_el1 c) \<or> drop_bit 12 va = drop_bit 12 (kpa q) \<longrightarrow>
          walk (tables_of s) (ttbr0_el1 c) va = Some (convert_to_physical va)))"

lemma task_bootsI:
  assumes "simple_contexts s (task_context (tasks (simple_sch s) t)) =
      simple_start_context pid (convert_to_physical entry) (kpa q + STACK_SZ) c"
    and "user_maps pid (convert_to_physical entry) (tables_of s)" and "user_maps pid (kpa q) (tables_of s)"
  shows "task_boots pid entry q t s"
  using user_maps_walk [OF assms(2)] user_maps_walk [OF assms(3)]
  by (auto simp: task_boots_def assms(1) simple_start_context_def start_context_def STACK_SZ_def)

text \<open>The state before the tasks are made: four pages are taken for the test of the allocator.\<close>

lemma simple_test_block:
  assumes "simple_pool_ok l2mem" and "bump b 0"
    and "simple_mem s = \<lparr>simple_tbl = simple_mmu_init_tables m, simple_ALLOCATED = 0\<rparr>"
  shows "\<exists>b' t. simple_kmalloc_in l2mem 16000 (s\<lparr>simple_bitmap := b\<rparr>) =
      Inr (kva 0, s\<lparr>simple_bitmap := b', simple_mem := t\<rparr>) \<and> simple_kmalloc_inv l2mem 4 {..<4} (b', t)"
proof -
  have p: "pages_needed 16000 = 4" by (simp add: pages_needed_def)
  have "simple_kmalloc_inv l2mem 0 {} (b, simple_mem s)"
    unfolding assms(3) by (rule simple_kmalloc_inv_boot [OF assms(1,2)])
  from skma.alloc_next [OF this, of 16000]
  obtain b' t where "simple_kmalloc l2mem b 16000 (simple_mem s) = Inr (kva 0, b', t)"
    "simple_kmalloc_inv l2mem 4 {..<4} (b', t)"
    by (auto simp: p atLeast0LessThan simple_alloc_def)
  then show ?thesis by (intro exI [of _ b'] exI [of _ t]) (simp add: simple_kmalloc_in_def)
qed

text \<open>Both tasks: what they are in memory, and what their tables lead to.\<close>

definition task_record :: "int \<Rightarrow> u64 \<Rightarrow> nat \<Rightarrow> Task \<Rightarrow> Task" where
  "task_record i name n t = t\<lparr>task_id := i, task_name := name, kernel_stack := kva (n + 1),
     user_stack := kpa (n + 2) + STACK_SZ, task_context := kva (n + 1) + STACK_SZ - sizeof_Context\<rparr>"

lemma simple_two_tasks:
  fixes s :: simple_mmu_kernel and p1 p2 :: u64
  assumes "simple_layout_ok l2mem" and "pool_inv l2mem 4 {..<4} s"
    and "calc_index_l3 (convert_to_physical p1) \<noteq> calc_index_l3 (kpa 6)"
    and "calc_index_l3 (convert_to_physical p2) \<noteq> calc_index_l3 (kpa 9)"
  defines "c1 \<equiv> kva 5 + STACK_SZ - sizeof_Context" and "c2 \<equiv> kva 8 + STACK_SZ - sizeof_Context"
    and "e1 \<equiv> convert_to_physical p1" and "e2 \<equiv> convert_to_physical p2"
  shows "\<exists>s1 b m x y. simple_init_task l2mem 1 n1 p1 STACK_SZ s = Inr (kva 4, s1) \<and>
    simple_init_task l2mem 2 n2 p2 STACK_SZ s1 = Inr (kva 7, s\<lparr>simple_bitmap := b, simple_mem := m,
      simple_contexts := (simple_contexts s)(c1 := simple_start_context 1 e1 (kpa 6 + STACK_SZ) x,
        c2 := simple_start_context 2 e2 (kpa 9 + STACK_SZ) y),
      simple_sch := sched_ready_enqueue (kva 7) (upd_task (kva 7) (task_record 2 n2 7)
        (sched_ready_enqueue (kva 4) (upd_task (kva 4) (task_record 1 n1 4) (simple_sch s))))\<rparr>) \<and>
    simple_kmalloc_inv l2mem 10 {..<10} (b, m) \<and>
    user_maps 1 e1 (simple_tbl m) \<and> user_maps 1 (kpa 6) (simple_tbl m) \<and>
    user_maps 2 e2 (simple_tbl m) \<and> user_maps 2 (kpa 9) (simple_tbl m)"
proof -
  have ar: "(4 :: nat) + 3 = 7" "(4 :: nat) + 2 = 6" "(4 :: nat) + 1 = 5" "(7 :: nat) + 3 = 10" "(7 :: nat) + 2 = 9"
    "(7 :: nat) + 1 = 8" "{..<4} \<union> {4..<7 :: nat} = {..<7}" "{..<7} \<union> {7..<10 :: nat} = {..<10}" by auto
  have ne: "{..<4 :: nat} \<noteq> {}" "{..<7 :: nat} \<noteq> {}" by (simp_all add: lessThan_empty_iff)
  have pid: "(1 :: u64) \<in> {1, 2}" "(2 :: u64) \<in> {1, 2}" by simp_all
  have le: "(4 :: nat) + 3 \<le> 512" "(7 :: nat) + 3 \<le> 512" by simp_all
  have rec: "(\<lambda>t. t\<lparr>task_id := uint (1 :: u64), task_name := n1, kernel_stack := kva 5,
      user_stack := kpa 6 + STACK_SZ, task_context := c1\<rparr>) = task_record 1 n1 4"
    "(\<lambda>t. t\<lparr>task_id := uint (2 :: u64), task_name := n2, kernel_stack := kva 8,
      user_stack := kpa 9 + STACK_SZ, task_context := c2\<rparr>) = task_record 2 n2 7"
    by (simp_all add: task_record_def fun_eq_iff c1_def c2_def)
  obtain b m where i1: "simple_kmalloc_inv l2mem 7 {..<7} (b, m)"
    and m1: "user_maps 1 e1 (simple_tbl m)" "user_maps 1 (kpa 6) (simple_tbl m)"
    and t1: "simple_init_task l2mem 1 n1 p1 STACK_SZ s = Inr (kva 4, s\<lparr>simple_bitmap := b, simple_mem := m,
      simple_contexts := (simple_contexts s)(c1 := simple_start_context 1 e1 (kpa 6 + STACK_SZ) (simple_contexts s c1)),
      simple_sch := sched_ready_enqueue (kva 4) (upd_task (kva 4) (task_record 1 n1 4) (simple_sch s))\<rparr>)"
    using simple_init_task_effect [OF assms(1) pid(1) assms(2) ne(1) le(1), of p1 n1, unfolded ar] assms(3)
    by (auto simp: rec [symmetric] c1_def e1_def)
  define s1 where "s1 = s\<lparr>simple_bitmap := b, simple_mem := m,
      simple_contexts := (simple_contexts s)(c1 := simple_start_context 1 e1 (kpa 6 + STACK_SZ) (simple_contexts s c1)),
      simple_sch := sched_ready_enqueue (kva 4) (upd_task (kva 4) (task_record 1 n1 4) (simple_sch s))\<rparr>"
  have i1': "pool_inv l2mem 7 {..<7} s1" using i1 by (simp add: s1_def)
  obtain b2 m2 where i2: "simple_kmalloc_inv l2mem 10 {..<10} (b2, m2)"
    and m2: "user_maps 2 e2 (simple_tbl m2)" "user_maps 2 (kpa 9) (simple_tbl m2)"
      "\<And>a. user_maps 1 a (tables_of s1) \<Longrightarrow> user_maps 1 a (simple_tbl m2)"
    and t2: "simple_init_task l2mem 2 n2 p2 STACK_SZ s1 = Inr (kva 7, s1\<lparr>simple_bitmap := b2, simple_mem := m2,
      simple_contexts := (simple_contexts s1)(c2 := simple_start_context 2 e2 (kpa 9 + STACK_SZ) (simple_contexts s1 c2)),
      simple_sch := sched_ready_enqueue (kva 7) (upd_task (kva 7) (task_record 2 n2 7) (simple_sch s1))\<rparr>)"
    using simple_init_task_effect [OF assms(1) pid(2) i1' ne(2) le(2), of p2 n2, unfolded ar] assms(4)
    by (auto simp: rec [symmetric] c2_def e2_def)
  show ?thesis
    using i2 m2(1,2) m2(3) [of e1] m2(3) [of "kpa 6"] m1 t1 [folded s1_def] t2
    by (intro exI [of _ s1] exI [of _ b2] exI [of _ m2] exI) (auto simp: s1_def)
qed

text \<open>
  C24. The boot of \<^verbatim>\<open>kernel-simple-mmu\<close>.  From the tables of \<open>mmu_init\<close>, an empty bitmap and an empty
  run queue, \<open>kmain\<close> reaches \<open>first_user_enter\<close>: ten pages of the pool are taken and mapped, both tasks
  are queued with the first running and a full slice, and each starts at its entry, on its stack
  page and on tables of its own that lead to both, provided its entry does not have the l3 index of
  its stack page (6 and 9).
\<close>

theorem simple_mmu_kmain_boots:
  assumes "simple_layout_ok l2mem" and "bump \<lparr>buffer = (\<lambda>i. ram (start + i))\<rparr> 0" and "total_ram < 0x400000000"
    and "simple_mem s = \<lparr>simple_tbl = simple_mmu_init_tables m, simple_ALLOCATED = 0\<rparr>"
    and "rq_head (simple_sch s) = 0" and "rq_tail (simple_sch s) = 0"
    and "next_of (simple_sch s) (kva 4) = 0" and "next_of (simple_sch s) (kva 7) = 0"
    and "calc_index_l3 (convert_to_physical p1) \<noteq> calc_index_l3 (kpa 6)"
    and "calc_index_l3 (convert_to_physical p2) \<noteq> calc_index_l3 (kpa 9)"
  shows "\<exists>s'. simple_mmu_kmain l2mem start p1 n1 p2 n2 udev ram total_ram s = Inr (kva 5 + 0xEE0, s') \<and>
    sched_inv (simple_sch s') [kva 4, kva 7] 10 \<and>
    task_context (tasks (simple_sch s') (kva 4)) = kva 5 + 0xEE0 \<and>
    simple_kmalloc_inv l2mem 10 {..<10} (simple_bitmap s', simple_mem s') \<and>
    task_boots 1 p1 6 (kva 4) s' \<and> task_boots 2 p2 9 (kva 7) s'"
proof -
  have pool: "simple_pool_ok l2mem" using assms(1) by (simp add: simple_layout_ok_def)
  let ?c1 = "kva 5 + STACK_SZ - sizeof_Context" and ?c2 = "kva 8 + STACK_SZ - sizeof_Context"
  let ?u = "s\<lparr>simple_uart := uart_init udev (simple_uart s), simple_sch := timer_init_1khz (gic_init (simple_sch s))\<rparr>"
  define h where "h = timer_init_1khz (gic_init (simple_sch s))"
  have hf: "rq_head h = 0" "rq_tail h = 0" "next_of h (kva 4) = 0" "next_of h (kva 7) = 0"
    using assms(5-8) kmain_devices_frame(4-6) [of udev "reset_kernel\<lparr>sch := simple_sch s\<rparr>"]
    by (simp_all add: h_def kmain_devices_def Let_def)
  obtain b t where k: "simple_kmalloc_in l2mem 16000 (?u\<lparr>simple_bitmap := \<lparr>buffer = (\<lambda>i. ram (start + i))\<rparr>\<rparr>) =
      Inr (kva 0, ?u\<lparr>simple_bitmap := b, simple_mem := t\<rparr>)" and i: "simple_kmalloc_inv l2mem 4 {..<4} (b, t)"
    using simple_test_block [OF pool assms(2), of ?u m] assms(4) by auto
  define s0 where "s0 = ?u\<lparr>simple_bitmap := b, simple_mem := t, simple_bytes := write_test (kva 0) (simple_bytes s)\<rparr>"
  have i0: "pool_inv l2mem 4 {..<4} s0" using i by (simp add: s0_def)
  obtain s1 b' m' x y where t: "simple_init_task l2mem 1 n1 p1 STACK_SZ s0 = Inr (kva 4, s1)"
    "simple_init_task l2mem 2 n2 p2 STACK_SZ s1 = Inr (kva 7, s0\<lparr>simple_bitmap := b', simple_mem := m',
      simple_contexts := (simple_contexts s0)(?c1 := simple_start_context 1 (convert_to_physical p1) (kpa 6 + STACK_SZ) x,
        ?c2 := simple_start_context 2 (convert_to_physical p2) (kpa 9 + STACK_SZ) y),
      simple_sch := sched_ready_enqueue (kva 7) (upd_task (kva 7) (task_record 2 n2 7)
        (sched_ready_enqueue (kva 4) (upd_task (kva 4) (task_record 1 n1 4) (simple_sch s0))))\<rparr>)"
    and r: "simple_kmalloc_inv l2mem 10 {..<10} (b', m')"
      "user_maps 1 (convert_to_physical p1) (simple_tbl m')" "user_maps 1 (kpa 6) (simple_tbl m')"
      "user_maps 2 (convert_to_physical p2) (simple_tbl m')" "user_maps 2 (kpa 9) (simple_tbl m')"
    using simple_two_tasks [OF assms(1) i0 assms(9,10), of n1 n2] by blast
  let ?h2 = "sched_ready_enqueue (kva 7) (upd_task (kva 7) (task_record 2 n2 7)
    (sched_ready_enqueue (kva 4) (upd_task (kva 4) (task_record 1 n1 4) h)))"
  define s2 where "s2 = s0\<lparr>simple_bitmap := b', simple_mem := m',
      simple_contexts := (simple_contexts s0)(?c1 := simple_start_context 1 (convert_to_physical p1) (kpa 6 + STACK_SZ) x,
        ?c2 := simple_start_context 2 (convert_to_physical p2) (kpa 9 + STACK_SZ) y),
      simple_sch := sched_set_current (kva 4) ?h2, simple_daif := unmask_interrupts (simple_daif s0)\<rparr>"
  have d: "kva 7 \<noteq> kva 4" "kva 4 \<noteq> 0" "kva 7 \<noteq> 0" "?c1 \<noteq> ?c2"
    by (simp_all add: kva_distinct kva_nonzero)
  have q: "sched_inv (simple_sch s2) [kva 4, kva 7] 10" "task_context (tasks (simple_sch s2) (kva 4)) = ?c1"
    "task_context (tasks (simple_sch s2) (kva 7)) = ?c2"
    using two_tasks_queued [OF hf d(1-3), of "task_record 1 n1 4" "task_record 2 n2 7" ?c1 ?c2]
    by (simp_all add: s2_def task_record_def)
  have "simple_mmu_kmain l2mem start p1 n1 p2 n2 udev ram total_ram s = Inr (?c1, s2)"
    using k t q(2)
    by (simp add: simple_mmu_kmain_def Let_def init_allocation_map_small [OF assms(3)] s0_def [symmetric])
      (simp add: s2_def s0_def h_def)
  moreover have "task_boots 1 p1 6 (kva 4) s2" "task_boots 2 p2 9 (kva 7) s2"
    using d(4) r(2-5) by (auto intro!: task_bootsI simp: q) (simp_all add: s2_def)
  moreover have "?c1 = kva 5 + 0xEE0" by (simp add: STACK_SZ_def sizeof_Context_def kva_def)
  moreover have "simple_kmalloc_inv l2mem 10 {..<10} (simple_bitmap s2, simple_mem s2)" by (simp add: s2_def r(1))
  ultimately show ?thesis using q by (intro exI [of _ s2]) simp
qed

text \<open>
  C39. No system call of \<^verbatim>\<open>kernel-simple-mmu\<close> is ever served.  The branch to \<open>syscall_dispatcher\<close> goes
  to the label of that name in \<^verbatim>\<open>vectors.s\<close>, which returns to the program at once: memory, stack
  pointer, tables and status are untouched, \<open>x0\<close> is 0 whatever the call, and the link register of
  the program is overwritten with an address of the kernel.  Had the C function been called with
  the arguments the vector prepares, it would not have allocated either: the number passed is the
  exception class with its low 16 bits cleared, 0, never the 5 of an allocation.
\<close>

theorem simple_syscall_never_served:
  assumes "drop_bit 26 (ESR s) = 0x15"
  shows "case simple_el0_sync_entry lr (take_exception v s) of s' \<Rightarrow>
    PC s' = PC s \<and> PSTATE s' = PSTATE s \<and> SP s' = SP s \<and> SP_EL0 s' = SP_EL0 s \<and> TTBR0 s' = TTBR0 s \<and>
    words s' = words s \<and> X s' 0 = 0 \<and> X s' 30 = lr \<and>
    (\<forall>i. i \<in> {6..9} \<union> {12..29} \<longrightarrow> X s' i = X s i) \<and>
    simple_syscall_dispatcher l2mem (X s' 0) (X s' 1) (X s' 2) (X s' 3) k = Inr (0, k)"
  using assms
  by (auto simp: simple_el0_sync_entry_def bl_local_eret_def Let_def mov_x_def eret_def take_exception_def
      simple_syscall_dispatcher_def)

section \<open>The properties at concrete states\<close>

definition simple_reset_kernel :: simple_mmu_kernel where
  "simple_reset_kernel = \<lparr>simple_mem = \<lparr>simple_tbl = simple_mmu_init_tables (\<lambda>_. 7), simple_ALLOCATED = 0\<rparr>,
     simple_bitmap = empty_bitmap, simple_sch = idle_sched, simple_contexts = contexts reset_kernel,
     simple_bytes = (\<lambda>_. 0), simple_uart = [], simple_daif = 0\<rparr>"

lemma simple_layout_ok_elf: "simple_layout_ok 0x8008e000"
  using l3_pool_ok_elf
  by (simp add: simple_layout_ok_def simple_pool_ok_def user_table_pages_def simple_user_l0_def)

theorem simple_mmu_kmain_boots_witness:
  "\<exists>s'. simple_mmu_kmain 0x8008e000 0x80200000 0xFFFF000080001000 0 0xFFFF000080002000 0 (\<lambda>_ _. 0) (\<lambda>_. 0)
      0x100000000 simple_reset_kernel = Inr (0xFFFF0000C0005EE0, s') \<and>
    walk (simple_tbl (simple_mem s')) 0x800F0000 0x80001234 = Some 0x80001234"
proof -
  let ?p1 = "0xFFFF000080001000 :: u64" and ?p2 = "0xFFFF000080002000 :: u64"
  have b: "bump \<lparr>buffer = (\<lambda>i. (\<lambda>_. 0) (0x80200000 + i))\<rparr> 0" using bump_empty by (simp add: empty_bitmap_def)
  have ix: "calc_index_l3 (convert_to_physical ?p1) \<noteq> calc_index_l3 (kpa 6)"
    "calc_index_l3 (convert_to_physical ?p2) \<noteq> calc_index_l3 (kpa 9)"
    by (simp_all add: calc_index_l3_def convert_to_physical_def kpa_def)
  obtain s' where s': "simple_mmu_kmain 0x8008e000 0x80200000 ?p1 0 ?p2 0 (\<lambda>_ _. 0) (\<lambda>_. 0) 0x100000000
      simple_reset_kernel = Inr (kva 5 + 0xEE0, s')" "task_boots 1 ?p1 6 (kva 4) s'"
    using simple_mmu_kmain_boots [OF simple_layout_ok_elf b _ _ _ _ _ _ ix, where total_ram = "0x100000000" and s = simple_reset_kernel
        and m = "\<lambda>_. 7" and ?n1.0 = 0 and ?n2.0 = 0 and udev = "\<lambda>_ _. 0"]
    by (auto simp: simple_reset_kernel_def)
  then show ?thesis
    by (auto simp: task_boots_def Let_def convert_to_physical_def simple_user_l0_def kva_def)
qed

theorem simple_syscall_never_served_witness:
  "X (simple_el0_sync_entry 0xFFFF000080002928 (take_exception 0xFFFF000080002400 user_machine)) 30 = 0xFFFF000080002928 \<and>
   X user_machine 30 = 30"
proof -
  have "drop_bit 26 (ESR user_machine) = 0x15" by (simp add: user_machine_def)
  from simple_syscall_never_served [OF this, of "0xFFFF000080002928" "0xFFFF000080002400"] show ?thesis
    by (simp add: user_machine_def)
qed

end
