(* ===== verification/Start.thy ===== *)
theory Start
  imports PageTable Uart
begin

text \<open>
  The code that runs before \<open>kmain\<close>: \<^verbatim>\<open>arch/aarch64/start.s\<close> of the kernel and of the earlier
  kernels, instruction by instruction, and \<^verbatim>\<open>kernel-boot-minimal\<close>, a loader that copies a
  kernel and a kernel that prints one line.  Memory is a function from addresses to bytes, with
  the caches and the MMU off; the translation tables are kept apart as cells, as \<open>PageTable\<close> has
  them, because nothing here reads them.  The addresses of the linker are a record.  The
  C functions called are \<open>mmu_init\<close> of \<open>PageTable\<close> and \<open>get_total_ram\<close>; what their compiled code leaves in
  the registers is a parameter, bound only by the procedure call standard (\<open>aapcs\<close>).
\<close>

section \<open>Processor and memory\<close>

record boot_cpu =
  gpr :: "nat \<Rightarrow> u64"
  sp_reg :: u64
  spsel :: u64
  daif_reg :: u64
  vbar_reg :: u64
  pc_reg :: u64
  ram :: "u64 \<Rightarrow> u8"
  tables :: cells
  mmu_state :: mmu_regs

definition set_r :: "nat \<Rightarrow> u64 \<Rightarrow> boot_cpu \<Rightarrow> boot_cpu" where
  "set_r i v s = s\<lparr>gpr := (gpr s)(i := v)\<rparr>"

text \<open>Little endian accesses of eight bytes.\<close>

definition store64 :: "u64 \<Rightarrow> u64 \<Rightarrow> (u64 \<Rightarrow> u8) \<Rightarrow> u64 \<Rightarrow> u8" where
  "store64 a v m = (\<lambda>b. let k = unat (b - a) in if k < 8 then ucast (drop_bit (8 * k) v) else m b)"

definition load64 :: "(u64 \<Rightarrow> u8) \<Rightarrow> u64 \<Rightarrow> u64" where
  "load64 m a = ucast (m a) OR push_bit 8 (ucast (m (a + 1))) OR push_bit 16 (ucast (m (a + 2))) OR
     push_bit 24 (ucast (m (a + 3))) OR push_bit 32 (ucast (m (a + 4))) OR push_bit 40 (ucast (m (a + 5))) OR
     push_bit 48 (ucast (m (a + 6))) OR push_bit 56 (ucast (m (a + 7)))"

text \<open>\<open>str v, [xa], #8\<close> and \<open>ldr xd, [xa], #8\<close>.\<close>

definition str_post :: "u64 \<Rightarrow> nat \<Rightarrow> boot_cpu \<Rightarrow> boot_cpu" where
  "str_post v a s = set_r a (gpr s a + 8) (s\<lparr>ram := store64 (gpr s a) v (ram s)\<rparr>)"

definition ldr_post :: "nat \<Rightarrow> nat \<Rightarrow> boot_cpu \<Rightarrow> boot_cpu" where
  "ldr_post d a s = set_r a (gpr s a + 8) (set_r d (load64 (ram s) (gpr s a)) s)"

section \<open>The first instructions of the kernels\<close>

text \<open>\<open>virt_entry_sym\<close> and the other symbols are link addresses, in the image.\<close>

record start_symbols =
  stack_top_sym :: u64
  bss_start_sym :: u64
  bss_end_sym :: u64
  vectors_sym :: u64
  virt_entry_sym :: u64

text \<open>The loop that zeroes \<^verbatim>\<open>.bss\<close>, which ends when \<open>x1\<close> equals \<open>x2\<close>.\<close>

partial_function (option) zero_bss :: "boot_cpu \<Rightarrow> boot_cpu option" where
  "zero_bss s = (if gpr s 1 = gpr s 2 then Some s else zero_bss (str_post 0 1 s))"

definition start_prefix :: "start_symbols \<Rightarrow> boot_cpu \<Rightarrow> boot_cpu option" where
  "start_prefix sy s =
    (let s = s\<lparr>daif_reg := daif_reg s OR push_bit 6 0xf\<rparr>;
         s = s\<lparr>spsel := 1\<rparr>;
         s = set_r 0 (stack_top_sym sy) s;
         s = s\<lparr>sp_reg := gpr s 0\<rparr>;
         s = set_r 1 (bss_start_sym sy) s;
         s = set_r 2 (bss_end_sym sy) s
     in Option.bind (zero_bss s) (\<lambda>s.
     let s = set_r 0 (vectors_sym sy) s
     in Some (s\<lparr>vbar_reg := gpr s 0\<rparr>)))"

text \<open>
  \<open>kernel-interrupts\<close> leaves the choice of the stack pointer out; \<open>kernel-simple-scheduler\<close> is the
  prefix alone.  Both continue with \<open>bl kmain\<close>.
\<close>

definition interrupts_start :: "start_symbols \<Rightarrow> boot_cpu \<Rightarrow> boot_cpu option" where
  "interrupts_start sy s =
    (let s = s\<lparr>daif_reg := daif_reg s OR push_bit 6 0xf\<rparr>;
         s = set_r 0 (stack_top_sym sy) s;
         s = s\<lparr>sp_reg := gpr s 0\<rparr>;
         s = set_r 1 (bss_start_sym sy) s;
         s = set_r 2 (bss_end_sym sy) s
     in Option.bind (zero_bss s) (\<lambda>s.
     let s = set_r 0 (vectors_sym sy) s
     in Some (s\<lparr>vbar_reg := gpr s 0\<rparr>)))"

definition simple_scheduler_start :: "start_symbols \<Rightarrow> boot_cpu \<Rightarrow> boot_cpu option" where
  "simple_scheduler_start sy s = start_prefix sy s"

text \<open>\<open>bl mmu_init\<close>: the effect of the C function, and \<open>clob\<close> on the registers.\<close>

definition bl_mmu_init :: "u64 \<Rightarrow> (boot_cpu \<Rightarrow> boot_cpu) \<Rightarrow> boot_cpu \<Rightarrow> boot_cpu" where
  "bl_mmu_init l2mem clob s =
    (case mmu_init l2mem (tables s, mmu_state s) of (t, r) \<Rightarrow> (clob s)\<lparr>tables := t, mmu_state := r\<rparr>)"

text \<open>
  From the end of the prefix to the call of \<open>kmain\<close> at \<open>virt_entry\<close>.  \<open>adrp\<close> and \<open>add\<close> form the address
  relative to the program counter, which is the physical address here.
\<close>

definition to_virt_entry :: "start_symbols \<Rightarrow> boot_cpu \<Rightarrow> boot_cpu" where
  "to_virt_entry sy s =
    (let s = set_r 0 0xFFFF000080000000 s;
         s = set_r 1 0x0000000080000000 s;
         s = set_r 2 (gpr s 0 - gpr s 1) s;
         s = set_r 3 (virt_entry_sym sy) s;
         s = set_r 3 (gpr s 3 + gpr s 2) s;
         s = s\<lparr>pc_reg := gpr s 3\<rparr>
     in set_r 0 (gpr s 13) s)"

definition kernel_start :: "start_symbols \<Rightarrow> u64 \<Rightarrow> (boot_cpu \<Rightarrow> boot_cpu) \<Rightarrow> (boot_cpu \<Rightarrow> boot_cpu) \<Rightarrow> boot_cpu \<Rightarrow> boot_cpu option" where
  "kernel_start sy l2mem get_total_ram clob s =
    Option.bind (start_prefix sy s) (\<lambda>s.
      let s = get_total_ram s;
          s = set_r 13 (gpr s 0) s;
          s = bl_mmu_init l2mem clob s;
          s = set_r 0 (vectors_sym sy) s;
          s = set_r 1 0xffff000000000000 s;
          s = set_r 0 (gpr s 0 OR gpr s 1) s;
          s = s\<lparr>vbar_reg := gpr s 0\<rparr>
      in Some (to_virt_entry sy s))"

text \<open>
  \<^verbatim>\<open>kernel-simple-mmu\<close> writes the virtual address of the vectors as a number; its \<open>mmu_init\<close> is the
  parameter \<open>mmu\<close>.
\<close>

definition simple_mmu_start :: "start_symbols \<Rightarrow> (boot_cpu \<Rightarrow> boot_cpu) \<Rightarrow> (boot_cpu \<Rightarrow> boot_cpu) \<Rightarrow> boot_cpu \<Rightarrow> boot_cpu option" where
  "simple_mmu_start sy get_total_ram mmu s =
    Option.bind (start_prefix sy s) (\<lambda>s.
      let s = get_total_ram s;
          s = set_r 13 (gpr s 0) s;
          s = mmu s;
          s = set_r 0 0xffff000080002000 s;
          s = s\<lparr>vbar_reg := gpr s 0\<rparr>
      in Some (to_virt_entry sy s))"

section \<open>kernel-boot-minimal\<close>

text \<open>
  Its loops count down by eight with \<open>subs\<close> and go on while the signed result is positive
  (\<open>b.gt\<close>), that is while what was left is more than eight.
\<close>

function minimal_zero :: "boot_cpu \<Rightarrow> boot_cpu" where
  "minimal_zero s =
    (let left = gpr s 2;
         s = str_post 0 1 s;
         s = set_r 2 (left - 8) s
     in if 8 < sint left then minimal_zero s else s)"
  by pat_completeness auto

function mem_copy :: "boot_cpu \<Rightarrow> boot_cpu" where
  "mem_copy s =
    (let left = gpr s 5;
         s = ldr_post 7 3 s;
         s = str_post (gpr s 7) 6 s;
         s = set_r 5 (left - 8) s
     in if 8 < sint left then mem_copy s else s)"
  by pat_completeness auto

record loader_symbols =
  loader_stack :: u64
  loader_bss_start :: u64
  loader_bss_end :: u64
  kernel_bin_start :: u64
  kernel_bin_end :: u64

definition KERNEL_LOAD_ADDR :: u64 where "KERNEL_LOAD_ADDR = 0x40080000"

lemma sint_minus_8: "8 < sint (w :: u64) \<Longrightarrow> sint (w - 8) = sint w - 8"
proof -
  assume w: "8 < sint w"
  have "sint (w - 8) = signed_take_bit 63 (sint w - 8)"
    by (simp add: signed_take_bit_eq_if_positive sint_word_ariths)
  moreover have "sint w < 2 ^ 63" using sint_lt [of w] by simp
  ultimately show ?thesis using w by (simp add: signed_take_bit_int_eq_self)
qed

termination minimal_zero
  by (relation "measure (\<lambda>s. nat (sint (gpr s 2)))") (auto simp: set_r_def str_post_def sint_minus_8)

termination mem_copy
  by (relation "measure (\<lambda>s. nat (sint (gpr s 5)))") (auto simp: set_r_def str_post_def ldr_post_def sint_minus_8)

declare minimal_zero.simps [simp del] mem_copy.simps [simp del]

definition minimal_start :: "loader_symbols \<Rightarrow> boot_cpu \<Rightarrow> boot_cpu" where
  "minimal_start sy s =
    (let s = s\<lparr>daif_reg := daif_reg s OR push_bit 6 0xf\<rparr>;
         s = set_r 0 (loader_stack sy) s;
         s = s\<lparr>sp_reg := gpr s 0\<rparr>;
         s = set_r 1 (loader_bss_start sy) s;
         s = set_r 2 (loader_bss_end sy) s;
         s = set_r 2 (gpr s 2 - gpr s 1) s;
         s = (if gpr s 2 = 0 then s else minimal_zero s);
         s = set_r 3 (kernel_bin_start sy) s;
         s = set_r 4 (kernel_bin_end sy) s;
         s = set_r 5 (gpr s 4 - gpr s 3) s;
         s = set_r 6 KERNEL_LOAD_ADDR s;
         s = (if gpr s 5 = 0 then s else mem_copy s);
         s = set_r 0 0 s;
         s = set_r 1 0 s;
         s = set_r 2 0 s;
         s = set_r 3 KERNEL_LOAD_ADDR s
     in s\<lparr>pc_reg := gpr s 3\<rparr>)"

section \<open>Filling memory in steps of eight\<close>

definition zero_range :: "u64 \<Rightarrow> nat \<Rightarrow> (u64 \<Rightarrow> u8) \<Rightarrow> u64 \<Rightarrow> u8" where
  "zero_range a n m = (\<lambda>b. if unat (b - a) < n then 0 else m b)"

lemma unat_minus_8:
  fixes u :: u64
  shows "unat (u - 8) = (if unat u < 8 then unat u + 2 ^ 64 - 8 else unat u - 8)"
proof (cases "unat u < 8")
  case True
  then have u: "u < 8" by (simp add: word_less_nat_alt)
  have "u - 8 = u + (- 8)" by (rule diff_conv_add_uminus)
  also have "(- 8 :: u64) = 18446744073709551608" by simp
  finally have "u - 8 = u + 18446744073709551608" .
  moreover have "unat (u + 18446744073709551608) = unat u + 18446744073709551608"
    using True by (simp add: unat_word_ariths)
  ultimately show ?thesis using True by (simp only: if_True) simp
next
  case False
  then have "8 \<le> u" by (simp add: word_le_nat_alt)
  then show ?thesis using False by (simp add: unat_sub)
qed

lemma zero_range_step:
  assumes "8 + n \<le> 2 ^ 64 - 8"
  shows "zero_range (a + 8) n (store64 a 0 m) = zero_range a (8 + n) m"
proof
  fix b
  have e: "b - (a + 8) = (b - a) - 8" by (simp only: diff_diff_eq)
  show "zero_range (a + 8) n (store64 a 0 m) b = zero_range a (8 + n) m b"
    using assms unat_minus_8 [of "b - a"] by (auto simp: zero_range_def store64_def Let_def e)
qed

lemma zero_bss_returns:
  assumes "unat (gpr s 2 - gpr s 1) = 8 * n"
  shows "zero_bss s = Some (s\<lparr>gpr := (gpr s)(1 := gpr s 2), ram := zero_range (gpr s 1) (8 * n) (ram s)\<rparr>)"
  using assms
proof (induction n arbitrary: s)
  case 0
  then have "gpr s 2 = gpr s 1" by (simp add: unat_eq_0)
  then show ?case by (subst zero_bss.simps) (simp add: zero_range_def fun_upd_idem)
next
  case (Suc n)
  have ne: "gpr s 1 \<noteq> gpr s 2" using Suc.prems by auto
  have "gpr s 2 - (gpr s 1 + 8) = (gpr s 2 - gpr s 1) - 8" by (simp only: diff_diff_eq)
  then have d: "unat (gpr s 2 - (gpr s 1 + 8)) = 8 * n"
    using Suc.prems unat_minus_8 [of "gpr s 2 - gpr s 1"] by (simp only:) simp
  have b: "8 + 8 * n \<le> 2 ^ 64 - 8"
  proof -
    have "8 * Suc n < 2 ^ 64" using Suc.prems unsigned_less [of "gpr s 2 - gpr s 1", where 'a = nat] by simp
    then show ?thesis by simp
  qed
  have t: "str_post 0 1 s = s\<lparr>gpr := (gpr s)(1 := gpr s 1 + 8), ram := store64 (gpr s 1) 0 (ram s)\<rparr>"
    by (simp add: str_post_def set_r_def)
  have "zero_bss s = zero_bss (str_post 0 1 s)" using ne by (subst zero_bss.simps) simp
  also have "\<dots> = Some ((str_post 0 1 s)\<lparr>gpr := (gpr (str_post 0 1 s))(1 := gpr s 2),
      ram := zero_range (gpr s 1 + 8) (8 * n) (store64 (gpr s 1) 0 (ram s))\<rparr>)"
    using Suc.IH [of "str_post 0 1 s"] d unfolding t by (simp add: fun_upd_def cong: if_cong)
  also have "zero_range (gpr s 1 + 8) (8 * n) (store64 (gpr s 1) 0 (ram s)) = zero_range (gpr s 1) (8 * Suc n) (ram s)"
    using zero_range_step [OF b] by simp
  also have "(gpr (str_post 0 1 s))(1 := gpr s 2) = (gpr s)(1 := gpr s 2)" unfolding t by auto
  finally show ?case unfolding t by simp
qed

lemma zero_bss_aligned:
  assumes "zero_bss s = Some t"
  shows "8 dvd unat (gpr s 2 - gpr s 1)"
proof (rule zero_bss.raw_induct [where P = "\<lambda>s t. 8 dvd unat (gpr s 2 - gpr s 1)", OF _ assms])
  fix zb s t
  assume IH: "\<And>s t. zb s = Some t \<Longrightarrow> 8 dvd unat (gpr s 2 - gpr s 1)"
    and run: "(if gpr s 1 = gpr s 2 then Some s else zb (str_post 0 1 s)) = Some t"
  show "8 dvd unat (gpr s 2 - gpr s 1)"
  proof (cases "gpr s 1 = gpr s 2")
    case False
    then have "8 dvd unat (gpr (str_post 0 1 s) 2 - gpr (str_post 0 1 s) 1)" using IH run by simp
    moreover have "gpr (str_post 0 1 s) 2 - gpr (str_post 0 1 s) 1 = (gpr s 2 - gpr s 1) - 8"
      by (simp add: str_post_def set_r_def diff_diff_eq)
    ultimately have "8 dvd unat (gpr s 2 - gpr s 1 - 8)" by simp
    then show ?thesis unfolding unat_minus_8 by (auto split: if_splits) presburger+
  qed simp
qed

section \<open>The loops of the loader\<close>

definition round8 :: "nat \<Rightarrow> nat" where "round8 n = (n + 7) div 8 * 8"

lemma round8_step:
  assumes "8 < n"
  shows "round8 n = 8 + round8 (n - 8)"
proof -
  have "n + 7 = (n - 8 + 7) + 8" using assms by simp
  then have "(n + 7) div 8 = (n - 8 + 7) div 8 + 1" by (simp only: div_add_self2)
  then show ?thesis by (simp add: round8_def)
qed

lemma round8_last: "0 < n \<Longrightarrow> n \<le> 8 \<Longrightarrow> round8 n = 8"
  unfolding round8_def by presburger

lemma round8_le: "round8 n \<le> n + 7" "n \<le> round8 n"
  unfolding round8_def by presburger+

lemma sint_unat:
  fixes w :: u64
  assumes "unat w \<le> 2 ^ 62"
  shows "sint w = int (unat w)"
proof -
  have r: "sint w = signed_take_bit 63 (int (unat w))" by (simp add: sint_uint)
  have "int (unat w) \<le> 2 ^ 62" using assms by (metis of_nat_le_iff of_nat_numeral of_nat_power)
  moreover have "0 \<le> int (unat w)" by (rule of_nat_0_le_iff)
  moreover have "(2 :: int) ^ 62 < 2 ^ 63" "- (2 ^ 63) \<le> (0 :: int)" by simp_all
  ultimately have "- (2 ^ 63) \<le> int (unat w)" "int (unat w) < 2 ^ 63" by linarith+
  then show ?thesis unfolding r by (rule signed_take_bit_int_eq_self)
qed

lemma cpu_simps [simp]:
  "gpr (set_r i v s) = (gpr s)(i := v)" "ram (set_r i v s) = ram s" "sp_reg (set_r i v s) = sp_reg s"
  "pc_reg (set_r i v s) = pc_reg s" "vbar_reg (set_r i v s) = vbar_reg s" "daif_reg (set_r i v s) = daif_reg s"
  "spsel (set_r i v s) = spsel s" "tables (set_r i v s) = tables s" "mmu_state (set_r i v s) = mmu_state s"
  by (simp_all add: set_r_def)

lemma str_post_simps [simp]:
  "gpr (str_post v a s) = (gpr s)(a := gpr s a + 8)" "ram (str_post v a s) = store64 (gpr s a) v (ram s)"
  "sp_reg (str_post v a s) = sp_reg s" "daif_reg (str_post v a s) = daif_reg s"
  by (simp_all add: str_post_def)

lemma ldr_post_simps [simp]:
  "ram (ldr_post d a s) = ram s" "sp_reg (ldr_post d a s) = sp_reg s" "daif_reg (ldr_post d a s) = daif_reg s"
  "a \<noteq> d \<Longrightarrow> gpr (ldr_post d a s) = (gpr s)(d := load64 (ram s) (gpr s a), a := gpr s a + 8)"
  by (simp_all add: ldr_post_def)

lemma loader_frame:
  "sp_reg (minimal_zero s) = sp_reg s" "daif_reg (minimal_zero s) = daif_reg s"
  "sp_reg (mem_copy s) = sp_reg s" "daif_reg (mem_copy s) = daif_reg s"
proof -
  show "sp_reg (minimal_zero s) = sp_reg s" "daif_reg (minimal_zero s) = daif_reg s"
    by (induction s rule: minimal_zero.induct; subst minimal_zero.simps; simp add: Let_def)+
  show "sp_reg (mem_copy s) = sp_reg s" "daif_reg (mem_copy s) = daif_reg s"
    by (induction s rule: mem_copy.induct; subst mem_copy.simps; simp add: Let_def)+
qed

lemma more_than_8: "unat (w :: u64) \<le> 2 ^ 62 \<Longrightarrow> 8 < sint w \<longleftrightarrow> 8 < unat w"
  by (simp only: sint_unat) linarith

lemma minimal_zero_fills:
  assumes "0 < unat (gpr s 2)" and "unat (gpr s 2) \<le> 2 ^ 62"
  shows "ram (minimal_zero s) = zero_range (gpr s 1) (round8 (unat (gpr s 2))) (ram s)"
  using assms
proof (induction s rule: minimal_zero.induct)
  case (1 s)
  note si = more_than_8 [OF "1.prems"(2)]
  show ?case
  proof (cases "8 < unat (gpr s 2)")
    case False
    have "store64 (gpr s 1) 0 (ram s) = zero_range (gpr s 1) 8 (ram s)"
      by (auto simp: store64_def zero_range_def Let_def)
    then show ?thesis
      using False si round8_last [of "unat (gpr s 2)"] "1.prems"(1)
      by (subst minimal_zero.simps) (simp add: Let_def)
  next
    case True
    let ?t = "set_r 2 (gpr s 2 - 8) (str_post 0 1 s)"
    have run: "minimal_zero s = minimal_zero ?t" using True si by (subst minimal_zero.simps) (simp add: Let_def)
    have u: "unat (gpr s 2 - 8) = unat (gpr s 2) - 8" using True unat_minus_8 [of "gpr s 2"] by simp
    have c: "8 < sint (gpr s 2)" using True si by simp
    have "ram (minimal_zero ?t) = zero_range (gpr ?t 1) (round8 (unat (gpr ?t 2))) (ram ?t)"
      by (rule "1.IH" [OF refl refl refl c]) (use u True "1.prems"(2) in simp_all)
    moreover have "8 + round8 (unat (gpr s 2) - 8) \<le> 2 ^ 64 - 8"
      using round8_le(1) [of "unat (gpr s 2) - 8"] "1.prems"(2) True by simp
    ultimately show ?thesis
      unfolding run using zero_range_step round8_step [OF True] u by simp
  qed
qed

text \<open>What the copy leaves: the bytes of the source, provided no store touches it.\<close>

definition copy_range :: "u64 \<Rightarrow> u64 \<Rightarrow> nat \<Rightarrow> (u64 \<Rightarrow> u8) \<Rightarrow> u64 \<Rightarrow> u8" where
  "copy_range src dst n m = (\<lambda>b. if unat (b - dst) < n then m (src + (b - dst)) else m b)"

lemma load64_byte: "k < 8 \<Longrightarrow> ucast (drop_bit (8 * k) (load64 m a)) = m (a + of_nat k)"
proof -
  assume "k < 8"
  then consider "k = 0" | "k = 1" | "k = 2" | "k = 3" | "k = 4" | "k = 5" | "k = 6" | "k = 7" by linarith
  then show ?thesis
    by cases (simp_all add: load64_def, (intro bit_word_eqI; auto simp: bit_simps dest: bit_imp_le_length)+)
qed

lemma store_load: "store64 dst (load64 m src) m' b =
   (if unat (b - dst) < 8 then m (src + (b - dst)) else m' b)"
  using load64_byte [of "unat (b - dst)" m src] by (simp add: store64_def Let_def)


lemma copy_range_step:
  assumes "8 + n \<le> 2 ^ 64 - 8"
    and "\<And>i j. i < 8 + n \<Longrightarrow> j < 8 + n \<Longrightarrow> src + of_nat i \<noteq> dst + of_nat j"
  shows "copy_range (src + 8) (dst + 8) n (store64 dst (load64 m src) m) = copy_range src dst (8 + n) m"
proof
  fix b
  have e: "b - (dst + 8) = (b - dst) - 8" "src + 8 + (b - dst - 8) = src + (b - dst)" by (simp_all only: diff_diff_eq) simp
  have "unat (src + (b - dst) - dst) \<ge> 8" if "unat (b - dst) < 8 + n"
  proof (rule ccontr)
    assume "\<not> 8 \<le> unat (src + (b - dst) - dst)"
    then have "unat (src + (b - dst) - dst) < 8 + n" by simp
    from assms(2) [OF that this] show False by simp
  qed
  then show "copy_range (src + 8) (dst + 8) n (store64 dst (load64 m src) m) b = copy_range src dst (8 + n) m b"
    using assms(1) unat_minus_8 [of "b - dst"] by (auto simp: copy_range_def store_load e)
qed

lemma mem_copy_copies:
  assumes "0 < unat (gpr s 5)" and "unat (gpr s 5) \<le> 2 ^ 62"
    and "\<And>i j. i < round8 (unat (gpr s 5)) \<Longrightarrow> j < round8 (unat (gpr s 5)) \<Longrightarrow> gpr s 3 + of_nat i \<noteq> gpr s 6 + of_nat j"
  shows "ram (mem_copy s) = copy_range (gpr s 3) (gpr s 6) (round8 (unat (gpr s 5))) (ram s)"
  using assms
proof (induction s rule: mem_copy.induct)
  case (1 s)
  note si = more_than_8 [OF "1.prems"(2)]
  let ?l = "ldr_post 7 3 s"
  let ?t = "set_r 5 (gpr s 5 - 8) (str_post (gpr ?l 7) 6 ?l)"
  have t: "ram ?t = store64 (gpr s 6) (load64 (ram s) (gpr s 3)) (ram s)" "gpr ?t 3 = gpr s 3 + 8" "gpr ?t 6 = gpr s 6 + 8"
    "gpr ?t 5 = gpr s 5 - 8" by simp_all
  show ?case
  proof (cases "8 < unat (gpr s 5)")
    case False
    have "store64 (gpr s 6) (load64 (ram s) (gpr s 3)) (ram s) = copy_range (gpr s 3) (gpr s 6) 8 (ram s)"
      by (auto simp: store_load copy_range_def)
    then show ?thesis
      using False si round8_last [of "unat (gpr s 5)"] "1.prems"(1)
      by (subst mem_copy.simps) (simp add: Let_def)
  next
    case True
    have run: "mem_copy s = mem_copy ?t" using True si by (subst mem_copy.simps) (simp add: Let_def)
    have u: "unat (gpr s 5 - 8) = unat (gpr s 5) - 8" using True unat_minus_8 [of "gpr s 5"] by simp
    have c: "8 < sint (gpr s 5)" using True si by simp
    have r: "round8 (unat (gpr s 5)) = 8 + round8 (unat (gpr s 5) - 8)" by (rule round8_step [OF True])
    have apart: "gpr s 3 + 8 + of_nat i \<noteq> gpr s 6 + 8 + of_nat j"
      if "i < round8 (unat (gpr s 5) - 8)" "j < round8 (unat (gpr s 5) - 8)" for i j
      using "1.prems"(3) [of "8 + i" "8 + j"] that by (simp add: r add.assoc)
    have "ram (mem_copy ?t) = copy_range (gpr ?t 3) (gpr ?t 6) (round8 (unat (gpr ?t 5))) (ram ?t)"
      by (rule "1.IH" [OF refl refl refl refl c]) (use u True "1.prems"(2) apart in \<open>simp_all only: t\<close>, simp_all)
    moreover have b: "8 + round8 (unat (gpr s 5) - 8) \<le> 2 ^ 64 - 8"
      using round8_le(1) [of "unat (gpr s 5) - 8"] "1.prems"(2) True by simp
    moreover have "copy_range (gpr s 3 + 8) (gpr s 6 + 8) (round8 (unat (gpr s 5) - 8))
        (store64 (gpr s 6) (load64 (ram s) (gpr s 3)) (ram s)) =
      copy_range (gpr s 3) (gpr s 6) (8 + round8 (unat (gpr s 5) - 8)) (ram s)"
      by (rule copy_range_step [OF b]) (rule "1.prems"(3) [unfolded r])
    ultimately show ?thesis unfolding run t u r by (simp only:)
  qed
qed

section \<open>Addresses after mmu_init\<close>

text \<open>
  The translation of an address with the registers of \<open>mmu_init\<close>: \<open>T0SZ\<close> and \<open>T1SZ\<close> are 16, so
  addresses with upper bits 0 go through \<open>TTBR0_EL1\<close>, those with upper bits 1 through \<open>TTBR1_EL1\<close>.
\<close>

definition translate :: "boot_cpu \<Rightarrow> u64 \<Rightarrow> u64 option" where
  "translate s va =
    (if drop_bit 48 va = 0 then walk (tables s) (TTBR0_EL1 (mmu_state s)) va
     else if drop_bit 48 va = 0xffff then walk (tables s) (TTBR1_EL1 (mmu_state s)) va else None)"

text \<open>The first 2 MiB of the image, where the code is linked.\<close>

definition in_text :: "u64 \<Rightarrow> bool" where
  "in_text a \<longleftrightarrow> 0x80000000 \<le> a \<and> a < 0x80200000"

lemma in_text_facts:
  assumes "in_text a"
  shows "drop_bit 48 a = 0" "calc_index_l0 a = 0" "calc_index_l1 a = 2" "calc_index_l2 a = 0"
    "0x80000000 + (a AND 0x1FFFFF) = a"
proof -
  have u: "2147483648 \<le> unat a" "unat a < 2149580800"
    using assms by (simp_all add: in_text_def word_le_nat_alt word_less_nat_alt)
  show "drop_bit 48 a = 0" using u by (simp add: word_unat_eq_iff unat_drop_bit_div)
  have "unat a div 2 ^ 30 = 2" "unat a div 2 ^ 21 = 1024" using u by simp_all
  then show "calc_index_l0 a = 0" "calc_index_l1 a = 2" "calc_index_l2 a = 0"
    using u by (simp_all add: word_unat_eq_iff unat_calc_index)
  have "unat a = unat a div 2 ^ 21 * 2 ^ 21 + unat a mod 2 ^ 21" by (rule div_mult_mod_eq [symmetric])
  then have "unat a = 1024 * 2 ^ 21 + unat a mod 2 ^ 21" by (simp only: \<open>unat a div 2 ^ 21 = 1024\<close>)
  then have "unat a mod 2 ^ 21 = unat a - 2147483648" by simp
  then have "unat (a AND 0x1FFFFF) = unat a - 2147483648" by (simp add: unat_and_numerals)
  then show "0x80000000 + (a AND 0x1FFFFF) = a"
    using u by (simp add: word_unat_eq_iff unat_word_ariths)
qed

lemma in_text_high:
  assumes "in_text a"
  shows "drop_bit 48 (0xFFFF000000000000 OR a) = 0xffff" "calc_index_l0 (0xFFFF000000000000 OR a) = 0"
    "calc_index_l1 (0xFFFF000000000000 OR a) = 2" "calc_index_l2 (0xFFFF000000000000 OR a) = 0"
    "(0xFFFF000000000000 OR a) AND 0x1FFFFF = a AND 0x1FFFFF" "a + 0xFFFF000000000000 = 0xFFFF000000000000 OR a"
  using in_text_facts [OF assms]
proof -
  note f = in_text_facts [OF assms]
  have "drop_bit 48 a = 0 \<Longrightarrow> a AND 0xFFFF000000000000 = 0"
  proof -
    assume "drop_bit 48 a = 0"
    then have "push_bit 48 (drop_bit 48 a) = 0" by simp
    moreover have "push_bit 48 (drop_bit 48 a) = a AND NOT (mask 48)" by (intro bit_word_eqI) (auto simp: bit_simps)
    moreover have "NOT (mask 48) = (0xFFFF000000000000 :: u64)" by (simp add: mask_eq_decr_exp)
    ultimately show ?thesis by simp
  qed
  then have "a AND 0xFFFF000000000000 = 0" using f(1) by simp
  then show "a + 0xFFFF000000000000 = 0xFFFF000000000000 OR a"
    by (simp add: disjunctive_add_eq_or or.commute)
qed (simp_all add: drop_bit_or calc_index_l0_def calc_index_l1_def calc_index_l2_def bit.conj_disj_distrib2)


lemma translate_text:
  assumes "in_image l2mem" and "in_text a" and "tables s = mmu_init_tables l2mem m" and "mmu_state s = mmu_init_regs r"
  shows "translate s a = Some a" "translate s (0xFFFF000000000000 OR a) = Some a"
  using in_text_facts [OF assms(2)] in_text_high [OF assms(2)]
  by (simp_all add: translate_def assms(3,4) mmu_init_regs_def Let_def mmu_init_walk [OF assms(1)] boot_block_def)

section \<open>What the procedure call standard leaves to the caller\<close>

text \<open>
  A compiled C function keeps the stack pointer and \<open>x19\<close> to \<open>x29\<close>, and does not write system
  registers or the memory outside its own frame and data, of which nothing is read here.
\<close>

definition aapcs :: "(boot_cpu \<Rightarrow> boot_cpu) \<Rightarrow> bool" where
  "aapcs f \<longleftrightarrow> (\<forall>s. sp_reg (f s) = sp_reg s \<and> (\<forall>i \<in> {19..29}. gpr (f s) i = gpr s i) \<and> spsel (f s) = spsel s \<and>
     daif_reg (f s) = daif_reg s \<and> vbar_reg (f s) = vbar_reg s \<and> tables (f s) = tables s \<and> mmu_state (f s) = mmu_state s)"

lemma start_prefix_eq:
  assumes "8 dvd unat (bss_end_sym sy - bss_start_sym sy)"
  shows "\<exists>t. start_prefix sy s = Some t \<and> sp_reg t = stack_top_sym sy \<and> spsel t = 1 \<and>
    daif_reg t = daif_reg s OR 0x3c0 \<and> vbar_reg t = vectors_sym sy \<and> tables t = tables s \<and> mmu_state t = mmu_state s \<and>
    ram t = zero_range (bss_start_sym sy) (unat (bss_end_sym sy - bss_start_sym sy)) (ram s)"
proof -
  obtain n where n: "unat (bss_end_sym sy - bss_start_sym sy) = 8 * n" using assms by (auto elim: dvdE)
  let ?s = "set_r 2 (bss_end_sym sy) (set_r 1 (bss_start_sym sy) ((set_r 0 (stack_top_sym sy)
    (s\<lparr>daif_reg := daif_reg s OR 0x3c0, spsel := 1\<rparr>))\<lparr>sp_reg := stack_top_sym sy\<rparr>))"
  have d: "push_bit 6 0xf = (0x3c0 :: u64)" by simp
  have "unat (gpr ?s 2 - gpr ?s 1) = 8 * n" using n by simp
  note z = zero_bss_returns [OF this]
  have "start_prefix sy s = Option.bind (zero_bss ?s) (\<lambda>s. Some ((set_r 0 (vectors_sym sy) s)\<lparr>vbar_reg := vectors_sym sy\<rparr>))"
    by (simp add: start_prefix_def Let_def d)
  then show ?thesis unfolding z by (simp add: n)
qed

text \<open>Two ranges that do not meet, rounded up to multiples of eight bytes, and the sizes of the loader.\<close>

definition apart8 :: "u64 \<Rightarrow> nat \<Rightarrow> u64 \<Rightarrow> nat \<Rightarrow> bool" where
  "apart8 a n b m \<longleftrightarrow> (\<forall>i < round8 n. \<forall>j < round8 m. a + of_nat i \<noteq> b + of_nat j)"

lemma apart8D: "apart8 a n b m \<Longrightarrow> i < round8 n \<Longrightarrow> \<not> unat (a + of_nat i - b) < round8 m"
proof
  assume "apart8 a n b m" "i < round8 n" "unat (a + of_nat i - b) < round8 m"
  then have "a + of_nat i \<noteq> b + of_nat (unat (a + of_nat i - b))" unfolding apart8_def by blast
  then show False by simp
qed

definition kernel_bin_size :: "loader_symbols \<Rightarrow> nat" where
  "kernel_bin_size sy = unat (kernel_bin_end sy - kernel_bin_start sy)"

definition loader_bss_size :: "loader_symbols \<Rightarrow> nat" where
  "loader_bss_size sy = unat (loader_bss_end sy - loader_bss_start sy)"

text \<open>
  \<^verbatim>\<open>kernel-simple-mmu\<close> loads a number into \<open>VBAR_EL1\<close>: its exceptions are taken at the physical address
  \<open>0x80002000\<close> wherever the linker has put the vectors.
\<close>

lemma simple_mmu_vector_base:
  assumes "simple_mmu_start sy get_total_ram mmu s = Some t" and "in_image l2mem"
    and "\<And>s. tables (mmu s) = mmu_init_tables l2mem m" and "\<And>s. mmu_state (mmu s) = mmu_init_regs r"
  shows "translate t (vbar_reg t) = Some (vectors_sym sy) \<longleftrightarrow> vectors_sym sy = 0x80002000"
proof -
  have v: "vbar_reg t = 0xFFFF000000000000 OR 0x80002000" "tables t = mmu_init_tables l2mem m"
    "mmu_state t = mmu_init_regs r"
    using assms(1,3,4) by (auto simp: simple_mmu_start_def to_virt_entry_def Let_def bind_eq_Some_conv)
  have "in_text 0x80002000" by (simp add: in_text_def)
  from translate_text(2) [OF assms(2) this v(2,3)] show ?thesis unfolding v(1) by auto
qed

text \<open>
  A compiler that keeps the calling convention may use \<open>x13\<close> in \<open>mmu_init\<close>; then \<open>kmain\<close> gets what it left there.
\<close>

definition use_x13 :: "boot_cpu \<Rightarrow> boot_cpu" where
  "use_x13 s = set_r 13 0x80070000 s"

lemma start_ram_size_lost:
  assumes "8 dvd unat (bss_end_sym sy - bss_start_sym sy)"
  shows "aapcs use_x13 \<and> (\<exists>t. kernel_start sy l2mem get_total_ram use_x13 s = Some t \<and> gpr t 0 = 0x80070000)"
proof -
  obtain p where "start_prefix sy s = Some p" using start_prefix_eq [OF assms, of s] by blast
  then show ?thesis
    by (simp add: aapcs_def use_x13_def kernel_start_def to_virt_entry_def bl_mmu_init_def mmu_init_def Let_def)
qed

text \<open>The state in which \<open>kmain\<close> is called.\<close>

lemma kernel_start_effect:
  assumes "8 dvd unat (bss_end_sym sy - bss_start_sym sy)" and "aapcs get_total_ram" and "aapcs clob"
  shows "\<exists>p t. start_prefix sy s = Some p \<and>
    ram p = zero_range (bss_start_sym sy) (unat (bss_end_sym sy - bss_start_sym sy)) (ram s) \<and>
    kernel_start sy l2mem get_total_ram clob s = Some t \<and>
    tables t = mmu_init_tables l2mem (tables s) \<and> mmu_state t = mmu_init_regs (mmu_state s) \<and>
    sp_reg t = stack_top_sym sy \<and> spsel t = 1 \<and> daif_reg t = daif_reg s OR 0x3c0 \<and>
    vbar_reg t = 0xFFFF000000000000 OR vectors_sym sy \<and> pc_reg t = virt_entry_sym sy + 0xFFFF000000000000 \<and>
    (let q = set_r 13 (gpr (get_total_ram p) 0) (get_total_ram p) in gpr t 0 = gpr (clob q) 13 \<and> ram t = ram (clob q))"
proof -
  obtain p where p: "start_prefix sy s = Some p" "sp_reg p = stack_top_sym sy" "spsel p = 1"
    "daif_reg p = daif_reg s OR 0x3c0" "tables p = tables s" "mmu_state p = mmu_state s"
    "ram p = zero_range (bss_start_sym sy) (unat (bss_end_sym sy - bss_start_sym sy)) (ram s)"
    using start_prefix_eq [OF assms(1), of s] by blast
  define q where "q = set_r 13 (gpr (get_total_ram p) 0) (get_total_ram p)"
  define t where "t = to_virt_entry sy ((set_r 0 (vectors_sym sy OR 0xffff000000000000)
    (set_r 1 0xffff000000000000 (set_r 0 (vectors_sym sy) (bl_mmu_init l2mem clob q))))
      \<lparr>vbar_reg := vectors_sym sy OR 0xffff000000000000\<rparr>)"
  have "kernel_start sy l2mem get_total_ram clob s = Some t"
    by (simp add: kernel_start_def p(1) Let_def t_def q_def)
  moreover have "tables t = mmu_init_tables l2mem (tables s)" "mmu_state t = mmu_init_regs (mmu_state s)"
    "sp_reg t = stack_top_sym sy" "spsel t = 1" "daif_reg t = daif_reg s OR 0x3c0"
    "vbar_reg t = 0xFFFF000000000000 OR vectors_sym sy" "pc_reg t = virt_entry_sym sy + 0xFFFF000000000000"
    "gpr t 0 = gpr (clob q) 13" "ram t = ram (clob q)"
    using assms(2,3) p(2-6)
    by (simp_all add: t_def q_def to_virt_entry_def bl_mmu_init_def mmu_init_def aapcs_def Let_def or.commute)
  ultimately show ?thesis using p(1,7) by (auto simp: q_def Let_def)
qed

section \<open>Properties\<close>

text \<open>
  C34. The loop that zeroes \<^verbatim>\<open>.bss\<close> returns exactly when the two linker symbols differ by a multiple
  of eight; then it has zeroed the bytes between them and nothing else.  Otherwise it misses the
  end and never returns: the linker script aligns neither symbol.
\<close>

theorem zero_bss_returns_iff:
  "zero_bss s =
    (if 8 dvd unat (gpr s 2 - gpr s 1)
     then Some (s\<lparr>gpr := (gpr s)(1 := gpr s 2),
       ram := (\<lambda>b. if unat (b - gpr s 1) < unat (gpr s 2 - gpr s 1) then 0 else ram s b)\<rparr>)
     else None)"
proof (cases "8 dvd unat (gpr s 2 - gpr s 1)")
  case True
  then obtain n where "unat (gpr s 2 - gpr s 1) = 8 * n" by (auto elim: dvdE)
  with zero_bss_returns [OF this] show ?thesis by (simp add: zero_range_def)
next
  case False
  then have "zero_bss s = None" using zero_bss_aligned [of s] by (cases "zero_bss s") auto
  then show ?thesis using False by simp
qed

text \<open>
  C30. From \<open>_start\<close> to \<open>kmain\<close>.  With an image whose \<^verbatim>\<open>.bss\<close> is a multiple of eight bytes, \<open>_start\<close> reaches
  the call of \<open>kmain\<close> at the virtual address of \<open>virt_entry\<close>, with interrupts masked, on the stack of the
  linker script, and with the vectors at their virtual address; the tables of \<open>mmu_init\<close> translate
  both to where the code is, translate the physical addresses of the code to themselves, so that
  the instructions after the MMU is on are found, and the stack too.  The argument of \<open>kmain\<close> is the
  size of RAM, if the compiled \<open>mmu_init\<close> keeps \<open>x13\<close>, which the procedure call standard does not ask.
\<close>

theorem start_reaches_kmain:
  assumes "8 dvd unat (bss_end_sym sy - bss_start_sym sy)" and "in_image l2mem"
    and "in_text (virt_entry_sym sy)" and "in_text (vectors_sym sy)" and "in_text (stack_top_sym sy)"
    and "aapcs get_total_ram" and "\<forall>s. gpr (get_total_ram s) 0 = ram_size" and "aapcs clob"
  shows "\<exists>t. kernel_start sy l2mem get_total_ram clob s = Some t \<and>
    pc_reg t = 0xFFFF000000000000 OR virt_entry_sym sy \<and> translate t (pc_reg t) = Some (virt_entry_sym sy) \<and>
    vbar_reg t = 0xFFFF000000000000 OR vectors_sym sy \<and> translate t (vbar_reg t) = Some (vectors_sym sy) \<and>
    (\<forall>a. in_text a \<longrightarrow> translate t a = Some a) \<and> translate t (sp_reg t) = Some (stack_top_sym sy) \<and>
    daif_reg t = daif_reg s OR 0x3c0 \<and> spsel t = 1 \<and>
    ((\<forall>s. gpr (clob s) 13 = gpr s 13) \<longrightarrow> gpr t 0 = ram_size)"
proof -
  obtain p t where run: "kernel_start sy l2mem get_total_ram clob s = Some t"
    and f: "tables t = mmu_init_tables l2mem (tables s)" "mmu_state t = mmu_init_regs (mmu_state s)"
      "sp_reg t = stack_top_sym sy" "spsel t = 1" "daif_reg t = daif_reg s OR 0x3c0"
      "vbar_reg t = 0xFFFF000000000000 OR vectors_sym sy" "pc_reg t = virt_entry_sym sy + 0xFFFF000000000000"
      "gpr t 0 = gpr (clob (set_r 13 (gpr (get_total_ram p) 0) (get_total_ram p))) 13"
    using kernel_start_effect [OF assms(1,6,8), of s l2mem] by (auto simp: Let_def)
  note tr = translate_text [OF assms(2) _ f(1,2)]
  show ?thesis
    using run f tr assms(3-5,7) in_text_high(6) [OF assms(3)] by simp
qed


section \<open>The properties at concrete states\<close>

text \<open>The symbols of the built \<^verbatim>\<open>kernel.elf\<close>, and a processor out of reset.\<close>

definition elf_symbols :: start_symbols where
  "elf_symbols = \<lparr>stack_top_sym = 0x801F0000, bss_start_sym = 0x80006770, bss_end_sym = 0x800067d8,
     vectors_sym = 0x80002800, virt_entry_sym = 0x80000068\<rparr>"

definition reset_cpu :: boot_cpu where
  "reset_cpu = \<lparr>gpr = (\<lambda>_. 0), sp_reg = 0, spsel = 0, daif_reg = 0, vbar_reg = 0, pc_reg = 0x80000000, ram = (\<lambda>_. 7),
     tables = (\<lambda>_. 7), mmu_state = \<lparr>MAIR_EL1 = 0, TCR_EL1 = 0, TTBR1_EL1 = 0, TTBR0_EL1 = 0, SCTLR_EL1 = 0\<rparr>\<rparr>"

theorem start_reaches_kmain_witness:
  "\<exists>t. kernel_start elf_symbols 0x8008e000 (set_r 0 0x100000000) id reset_cpu = Some t \<and>
     pc_reg t = 0xFFFF000080000068 \<and> translate t (pc_reg t) = Some 0x80000068 \<and> gpr t 0 = 0x100000000"
proof -
  have "8 dvd unat (bss_end_sym elf_symbols - bss_start_sym elf_symbols)" "in_image 0x8008e000"
    "in_text (virt_entry_sym elf_symbols)" "in_text (vectors_sym elf_symbols)" "in_text (stack_top_sym elf_symbols)"
    "aapcs (set_r 0 0x100000000)" "\<forall>s. gpr (set_r 0 0x100000000 s) 0 = 0x100000000" "aapcs id"
    by (simp_all add: elf_symbols_def in_image_def page_aligned_def in_text_def aapcs_def)
  from start_reaches_kmain [OF this, of reset_cpu] show ?thesis by (auto simp: elf_symbols_def)
qed

definition loader_image :: loader_symbols where
  "loader_image = \<lparr>loader_stack = 0x40010000, loader_bss_start = 0x40002000, loader_bss_end = 0x40002000,
     kernel_bin_start = 0x40001000, kernel_bin_end = 0x40001024\<rparr>"


end
