(* ===== verification/PhysUart.thy ===== *)
theory PhysUart
  imports Uart
begin

text \<open>
  The serial port before the MMU: \<^verbatim>\<open>drivers/char/uart.c\<close> of \<^verbatim>\<open>kernel-interrupts\<close> (the same text in
  \<^verbatim>\<open>kernel-simple-scheduler\<close>) and the assembly of \<^verbatim>\<open>kernel-boot-minimal/kernel.s\<close>.  They drive the
  device at its physical address.  \<open>relocate\<close> moves the accesses of a history to the addresses of the
  present kernel; up to that the drivers are the same, so that everything \<open>Uart\<close> shows of the
  output holds here.
\<close>

section \<open>kernel-interrupts\<close>

definition PHYS_UART :: u64 where "PHYS_UART = 0x09000000"
definition PHYS_DR :: u64 where "PHYS_DR = PHYS_UART + 0x00"
definition PHYS_FR :: u64 where "PHYS_FR = PHYS_UART + 0x18"
definition PHYS_IBRD :: u64 where "PHYS_IBRD = PHYS_UART + 0x24"
definition PHYS_FBRD :: u64 where "PHYS_FBRD = PHYS_UART + 0x28"
definition PHYS_LCRH :: u64 where "PHYS_LCRH = PHYS_UART + 0x2C"
definition PHYS_CR :: u64 where "PHYS_CR = PHYS_UART + 0x30"
definition PHYS_IMSC :: u64 where "PHYS_IMSC = PHYS_UART + 0x38"
definition PHYS_ICR :: u64 where "PHYS_ICR = PHYS_UART + 0x44"

definition phys_uart_init :: "device \<Rightarrow> bus \<Rightarrow> bus" where
  "phys_uart_init dev h =
    (let h = mmio_w32 PHYS_CR 0 h;
         h = mmio_w32 PHYS_ICR 0x7FF h;
         h = mmio_w32 PHYS_IBRD 13 h;
         h = mmio_w32 PHYS_FBRD 2 h;
         h = mmio_w32 PHYS_LCRH (push_bit 5 3 OR push_bit 4 1) h;
         h = mmio_w32 PHYS_IMSC 0 h;
         h = mmio_w32 PHYS_CR (push_bit 0 1 OR push_bit 8 1 OR push_bit 9 1) h
     in snd (mmio_r32 dev PHYS_FR h))"

definition phys_write_data :: "u32 \<Rightarrow> bus \<Rightarrow> bus" where
  "phys_write_data v h = bus_write PHYS_DR v h"

definition phys_read_status :: "device \<Rightarrow> bus \<Rightarrow> u32 \<times> bus" where
  "phys_read_status dev h = bus_read dev PHYS_FR h"

partial_function (option) phys_putc :: "device \<Rightarrow> u8 \<Rightarrow> bus \<Rightarrow> bus option" where
  "phys_putc dev c h =
    (case phys_read_status dev h of (status, h) \<Rightarrow>
       if status AND push_bit 5 1 \<noteq> 0 then phys_putc dev c h
       else Some (phys_write_data (ucast c) h))"

partial_function (option) phys_puts :: "device \<Rightarrow> (u64 \<Rightarrow> u8) \<Rightarrow> u64 \<Rightarrow> bus \<Rightarrow> bus option" where
  "phys_puts dev mem s h =
    (if mem s = 0 then Some h
     else Option.bind (phys_putc dev (mem s) h) (phys_puts dev mem (s + 1)))"

section \<open>kernel-boot-minimal\<close>

text \<open>
  \<open>x0\<close> holds the base, \<open>x1\<close> the pointer into the message, \<open>w3\<close> the character; \<open>tbz w2, #5\<close> leaves the
  polling loop when bit 5 of the flags is 0.
\<close>

definition UART0 :: u64 where "UART0 = 0x09000000"

partial_function (option) kernel_s_poll :: "device \<Rightarrow> u8 \<Rightarrow> bus \<Rightarrow> bus option" where
  "kernel_s_poll dev w3 h =
    (case bus_read dev (UART0 + 0x18) h of (w2, h) \<Rightarrow>
       if \<not> bit w2 5 then Some (bus_write (UART0 + 0x00) (ucast w3) h) else kernel_s_poll dev w3 h)"

partial_function (option) kernel_s_print :: "device \<Rightarrow> (u64 \<Rightarrow> u8) \<Rightarrow> u64 \<Rightarrow> bus \<Rightarrow> bus option" where
  "kernel_s_print dev mem x1 h =
    (let w3 = mem x1; x1 = x1 + 1 in
     if w3 = 0 then Some h else Option.bind (kernel_s_poll dev w3 h) (kernel_s_print dev mem x1))"

section \<open>Relocation\<close>

fun relocate_event :: "bus_event \<Rightarrow> bus_event" where
  "relocate_event (BusWrite a v) = BusWrite (a - PHYS_UART + UART) v"
| "relocate_event (BusRead a v) = BusRead (a - PHYS_UART + UART) v"

definition relocate :: "bus \<Rightarrow> bus" where
  "relocate h = map relocate_event h"

text \<open>The same device seen at its physical address.\<close>

definition phys_device :: "device \<Rightarrow> device" where
  "phys_device dev h a = dev (relocate h) (a - PHYS_UART + UART)"

lemma relocate_access:
  "relocate (bus_write a v h) = bus_write (a - PHYS_UART + UART) v (relocate h)"
  "fst (bus_read (phys_device dev) a h) = fst (bus_read dev (a - PHYS_UART + UART) (relocate h))"
  "relocate (snd (bus_read (phys_device dev) a h)) = snd (bus_read dev (a - PHYS_UART + UART) (relocate h))"
  by (simp_all add: relocate_def bus_write_def bus_read_def phys_device_def)

lemma relocate_registers:
  "PHYS_DR - PHYS_UART + UART = DR" "PHYS_FR - PHYS_UART + UART = FR" "PHYS_IBRD - PHYS_UART + UART = IBRD"
  "PHYS_FBRD - PHYS_UART + UART = FBRD" "PHYS_LCRH - PHYS_UART + UART = LCRH" "PHYS_CR - PHYS_UART + UART = CR"
  "PHYS_IMSC - PHYS_UART + UART = IMSC" "PHYS_ICR - PHYS_UART + UART = ICR"
  by (simp_all add: PHYS_DR_def PHYS_FR_def PHYS_IBRD_def PHYS_FBRD_def PHYS_LCRH_def PHYS_CR_def PHYS_IMSC_def
      PHYS_ICR_def DR_def FR_def IBRD_def FBRD_def LCRH_def CR_def IMSC_def ICR_def PHYS_UART_def UART_def)

text \<open>
  A run of one side is a run of the other.  Both directions are by induction on the run, as it is
  the existence of the run that has to be carried over.
\<close>

lemma phys_putc_some:
  assumes "phys_putc (phys_device dev) c h = Some h'"
  shows "uart_putc dev c (relocate h) = Some (relocate h')"
proof (rule phys_putc.raw_induct [where P = "\<lambda>d c h h'. d = phys_device dev \<longrightarrow> uart_putc dev c (relocate h) = Some (relocate h')",
      OF _ assms, THEN mp, OF _ refl])
  fix putc d c h h'
  assume IH: "\<And>d c h h'. putc d c h = Some h' \<Longrightarrow> d = phys_device dev \<longrightarrow> uart_putc dev c (relocate h) = Some (relocate h')"
    and run: "(case phys_read_status d h of (status, h) \<Rightarrow>
       if status AND push_bit 5 1 \<noteq> 0 then putc d c h else Some (phys_write_data (ucast c) h)) = Some h'"
  show "d = phys_device dev \<longrightarrow> uart_putc dev c (relocate h) = Some (relocate h')"
    using run IH [of d c "snd (bus_read d PHYS_FR h)" h']
    by (subst uart_putc.simps)
      (auto simp: phys_read_status_def read_status_def split_beta relocate_registers phys_write_data_def write_data_def
        relocate_access split: if_splits)
qed

lemma uart_putc_some:
  assumes "uart_putc dev c (relocate h) = Some z"
  shows "\<exists>h'. phys_putc (phys_device dev) c h = Some h'"
proof (rule uart_putc.raw_induct [where P = "\<lambda>d c g z. \<forall>h. d = dev \<longrightarrow> g = relocate h \<longrightarrow> (\<exists>h'. phys_putc (phys_device dev) c h = Some h')",
      OF _ assms, THEN spec, THEN mp, THEN mp, OF _ refl refl])
  fix putc d c g z
  assume IH: "\<And>d c g z. putc d c g = Some z \<Longrightarrow> \<forall>h. d = dev \<longrightarrow> g = relocate h \<longrightarrow> (\<exists>h'. phys_putc (phys_device dev) c h = Some h')"
    and run: "(case read_status d g of (status, h) \<Rightarrow>
       if status AND push_bit 5 1 \<noteq> 0 then putc d c h else Some (write_data (ucast c) h)) = Some z"
  show "\<forall>h. d = dev \<longrightarrow> g = relocate h \<longrightarrow> (\<exists>h'. phys_putc (phys_device dev) c h = Some h')"
  proof (intro allI impI)
    fix h
    assume d: "d = dev" "g = relocate h"
    show "\<exists>h'. phys_putc (phys_device dev) c h = Some h'"
      using run IH [of d c "snd (bus_read d FR g)" z, THEN spec, of "snd (bus_read (phys_device dev) PHYS_FR h)"] d
      by (subst phys_putc.simps)
        (auto simp: phys_read_status_def read_status_def split_beta relocate_registers relocate_access split: if_splits)
  qed
qed

lemma phys_putc_relocated: "map_option relocate (phys_putc (phys_device dev) c h) = uart_putc dev c (relocate h)"
  using phys_putc_some [of dev c h] uart_putc_some [of dev c h]
  by (cases "phys_putc (phys_device dev) c h"; cases "uart_putc dev c (relocate h)") auto

lemma phys_puts_some:
  assumes "phys_puts (phys_device dev) mem p h = Some h'"
  shows "uart_puts dev mem p (relocate h) = Some (relocate h')"
proof (rule phys_puts.raw_induct [where P = "\<lambda>d mem p h h'. d = phys_device dev \<longrightarrow> uart_puts dev mem p (relocate h) = Some (relocate h')",
      OF _ assms, THEN mp, OF _ refl])
  fix puts d mem p h h'
  assume IH: "\<And>d mem p h h'. puts d mem p h = Some h' \<Longrightarrow> d = phys_device dev \<longrightarrow> uart_puts dev mem p (relocate h) = Some (relocate h')"
    and run: "(if mem p = 0 then Some h else Option.bind (phys_putc d (mem p) h) (puts d mem (p + 1))) = Some h'"
  show "d = phys_device dev \<longrightarrow> uart_puts dev mem p (relocate h) = Some (relocate h')"
    using run IH phys_putc_some by (subst uart_puts.simps) (auto simp: bind_eq_Some_conv split: if_splits)
qed

lemma uart_puts_some:
  assumes "uart_puts dev mem p (relocate h) = Some z"
  shows "\<exists>h'. phys_puts (phys_device dev) mem p h = Some h'"
proof (rule uart_puts.raw_induct [where P = "\<lambda>d mem p g z. \<forall>h. d = dev \<longrightarrow> g = relocate h \<longrightarrow> (\<exists>h'. phys_puts (phys_device dev) mem p h = Some h')",
      OF _ assms, THEN spec, THEN mp, THEN mp, OF _ refl refl])
  fix puts d mem p g z
  assume IH: "\<And>d mem p g z. puts d mem p g = Some z \<Longrightarrow> \<forall>h. d = dev \<longrightarrow> g = relocate h \<longrightarrow> (\<exists>h'. phys_puts (phys_device dev) mem p h = Some h')"
    and run: "(if mem p = 0 then Some g else Option.bind (uart_putc d (mem p) g) (puts d mem (p + 1))) = Some z"
  show "\<forall>h. d = dev \<longrightarrow> g = relocate h \<longrightarrow> (\<exists>h'. phys_puts (phys_device dev) mem p h = Some h')"
  proof (intro allI impI)
    fix h
    assume d: "d = dev" "g = relocate h"
    show "\<exists>h'. phys_puts (phys_device dev) mem p h = Some h'"
    proof (cases "mem p = 0")
      case False
      then obtain g1 where g1: "uart_putc dev (mem p) (relocate h) = Some g1" "puts dev mem (p + 1) g1 = Some z"
        using run d by (auto simp: bind_eq_Some_conv)
      obtain h1 where "phys_putc (phys_device dev) (mem p) h = Some h1" "g1 = relocate h1"
        using uart_putc_some [OF g1(1)] phys_putc_some g1(1) by fastforce
      then show ?thesis using IH [OF g1(2)] False by (subst phys_puts.simps) auto
    qed (subst phys_puts.simps, simp)
  qed
qed

text \<open>The assembly is the same driver once more.\<close>

lemma bit_5_test: "bit (w :: u32) 5 \<longleftrightarrow> w AND push_bit 5 1 \<noteq> 0"
  by (rule bit_iff_and_push_bit_not_eq_0)

lemma kernel_s_poll_eq: "kernel_s_poll dev c h = phys_putc dev c h"
proof -
  have "phys_putc dev c h = Some z" if "kernel_s_poll dev c h = Some z" for z
    using that
  proof (rule kernel_s_poll.raw_induct [where P = "\<lambda>d c h z. phys_putc d c h = Some z", rotated])
    fix poll d c h z
    assume "\<And>d c h z. poll d c h = Some z \<Longrightarrow> phys_putc d c h = Some z"
      and "(case bus_read d (UART0 + 0x18) h of (w2, h) \<Rightarrow>
         if \<not> bit w2 5 then Some (bus_write (UART0 + 0x00) (ucast c) h) else poll d c h) = Some z"
    then show "phys_putc d c h = Some z"
      by (subst phys_putc.simps)
        (auto simp: phys_read_status_def phys_write_data_def split_beta bit_5_test PHYS_FR_def PHYS_DR_def PHYS_UART_def UART0_def
          split: if_splits)
  qed
  moreover have "kernel_s_poll dev c h = Some z" if "phys_putc dev c h = Some z" for z
    using that
  proof (rule phys_putc.raw_induct [where P = "\<lambda>d c h z. kernel_s_poll d c h = Some z", rotated])
    fix putc d c h z
    assume "\<And>d c h z. putc d c h = Some z \<Longrightarrow> kernel_s_poll d c h = Some z"
      and "(case phys_read_status d h of (status, h) \<Rightarrow>
         if status AND push_bit 5 1 \<noteq> 0 then putc d c h else Some (phys_write_data (ucast c) h)) = Some z"
    then show "kernel_s_poll d c h = Some z"
      by (subst kernel_s_poll.simps)
        (auto simp: phys_read_status_def phys_write_data_def split_beta bit_5_test PHYS_FR_def PHYS_DR_def PHYS_UART_def UART0_def
          split: if_splits)
  qed
  ultimately show ?thesis by (cases "phys_putc dev c h"; cases "kernel_s_poll dev c h") auto
qed

lemma kernel_s_print_eq: "kernel_s_print dev mem p h = phys_puts dev mem p h"
proof -
  have "phys_puts dev mem p h = Some z" if "kernel_s_print dev mem p h = Some z" for z
    using that
  proof (rule kernel_s_print.raw_induct [where P = "\<lambda>d mem p h z. phys_puts d mem p h = Some z", rotated])
    fix print d mem p h z
    assume "\<And>d mem p h z. print d mem p h = Some z \<Longrightarrow> phys_puts d mem p h = Some z"
      and "(let w3 = mem p; x1 = p + 1 in
         if w3 = 0 then Some h else Option.bind (kernel_s_poll d w3 h) (print d mem x1)) = Some z"
    then show "phys_puts d mem p h = Some z"
      by (subst phys_puts.simps) (auto simp: kernel_s_poll_eq Let_def bind_eq_Some_conv split: if_splits)
  qed
  moreover have "kernel_s_print dev mem p h = Some z" if "phys_puts dev mem p h = Some z" for z
    using that
  proof (rule phys_puts.raw_induct [where P = "\<lambda>d mem p h z. kernel_s_print d mem p h = Some z", rotated])
    fix puts d mem p h z
    assume "\<And>d mem p h z. puts d mem p h = Some z \<Longrightarrow> kernel_s_print d mem p h = Some z"
      and "(if mem p = 0 then Some h else Option.bind (phys_putc d (mem p) h) (puts d mem (p + 1))) = Some z"
    then show "kernel_s_print d mem p h = Some z"
      by (subst kernel_s_print.simps) (auto simp: kernel_s_poll_eq Let_def bind_eq_Some_conv split: if_splits)
  qed
  ultimately show ?thesis by (cases "phys_puts dev mem p h"; cases "kernel_s_print dev mem p h") auto
qed

text \<open>On a device that becomes ready, the minimal kernel prints its message.\<close>

lemma minimal_kernel_prints:
  assumes "uart_live dev" and "cstring mem msg cs"
  shows "\<exists>h'. kernel_s_print (phys_device dev) mem msg h = Some h' \<and>
    data_out (relocate h') = data_out (relocate h) @ cs"
proof -
  obtain z where z: "uart_puts dev mem msg (relocate h) = Some z" "data_out z = data_out (relocate h) @ cs"
    using uart_puts_live [OF assms, of "relocate h"] by blast
  then obtain h' where "phys_puts (phys_device dev) mem msg h = Some h'" using uart_puts_some by blast
  moreover from phys_puts_some [OF this] z have "data_out (relocate h') = data_out (relocate h) @ cs" by simp
  ultimately show ?thesis by (simp add: kernel_s_print_eq)
qed

section \<open>Properties\<close>

text \<open>
  The drivers of the earlier kernels are the driver of the present one at another address: a
  string is printed, or polled for ever, alike, with the same accesses up to their addresses;
  the initialisation makes the same accesses; and the loop of the minimal kernel, in assembly,
  is the C function.
\<close>

lemma phys_uart_equivalent:
  "map_option relocate (phys_puts (phys_device dev) mem p h) = uart_puts dev mem p (relocate h) \<and>
   relocate (phys_uart_init (phys_device dev) h) = uart_init dev (relocate h) \<and>
   kernel_s_print dev' mem p h = phys_puts dev' mem p h"
proof -
  have "map_option relocate (phys_puts (phys_device dev) mem p h) = uart_puts dev mem p (relocate h)"
    using phys_puts_some [of dev mem p h] uart_puts_some [of dev mem p h]
    by (cases "phys_puts (phys_device dev) mem p h"; cases "uart_puts dev mem p (relocate h)") auto
  moreover have "relocate (phys_uart_init (phys_device dev) h) = uart_init dev (relocate h)"
    by (simp add: phys_uart_init_def uart_init_def Let_def mmio_w32_def mmio_r32_def relocate_access relocate_registers)
  ultimately show ?thesis by (simp add: kernel_s_print_eq)
qed

end
