(* ===== verification/Exceptions.thy ===== *)
theory Exceptions
  imports SimpleSched
begin

text \<open>
  The vector tables.  \<^verbatim>\<open>kernel/arch/aarch64/vectors.s\<close> and the one of \<^verbatim>\<open>kernel-simple-scheduler\<close> fill
  a table of sixteen entries, 128 bytes apart; the processor chooses one by where the exception
  comes from and by its kind.  Here the tables, that choice, and what each of the sixteen
  exceptions does to the interrupted program, by the entries of \<open>Vectors\<close> and \<open>SimpleSched\<close>.
\<close>

section \<open>The processor\<close>

datatype exception_kind = SYNC | IRQ | FIQ | SERROR

primrec kind_index :: "exception_kind \<Rightarrow> nat" where
  "kind_index SYNC = 0"
| "kind_index IRQ = 1"
| "kind_index FIQ = 2"
| "kind_index SERROR = 3"

text \<open>The kinds in the order of their entries.\<close>

lemma kind_index_eq [simp]: "kind_index k = kind_index k' \<longleftrightarrow> k = k'"
  by (cases k; cases k') simp_all

instantiation exception_kind :: linorder
begin

definition less_eq_exception_kind :: "exception_kind \<Rightarrow> exception_kind \<Rightarrow> bool" where
  "k \<le> k' \<longleftrightarrow> kind_index k \<le> kind_index k'"

definition less_exception_kind :: "exception_kind \<Rightarrow> exception_kind \<Rightarrow> bool" where
  "k < k' \<longleftrightarrow> kind_index k < kind_index k'"

instance
  by intro_classes (auto simp: less_eq_exception_kind_def less_exception_kind_def simp flip: kind_index_eq)

end

text \<open>
  The group of the table, by the status at the exception: EL1 on \<open>SP_EL0\<close>, EL1 on its own stack,
  EL0 in 64 bit state, EL0 in 32 bit state (bit 4).
\<close>

definition exception_group :: "u64 \<Rightarrow> nat" where
  "exception_group status =
    (if bit status 4 then 3 else if status AND 0xC = 0 then 2 else if bit status 0 then 1 else 0)"

definition from_program :: "u64 \<Rightarrow> bool" where
  "from_program status \<longleftrightarrow> bit status 4 \<or> status AND 0xC = 0"

text \<open>The low 11 bits of the base register are not used.\<close>

definition vector_of :: "u64 \<Rightarrow> exception_kind \<Rightarrow> u64 \<Rightarrow> u64" where
  "vector_of vbar k status = (vbar AND NOT 0x7FF) + of_nat (128 * (4 * exception_group status + kind_index k))"

section \<open>The tables\<close>

datatype handler = To_el1_sync | To_el1_irq | To_el0_sync | To_default

definition VEC_SIZE :: nat where "VEC_SIZE = 4 + (128 - 4)"

definition vectors :: "handler list" where
  "vectors =
    [To_el1_sync, To_el1_irq, To_default, To_default,
     To_el1_sync, To_el1_irq, To_default, To_default,
     To_el0_sync, To_el1_irq, To_default, To_default,
     To_el0_sync, To_el1_irq, To_default, To_default]"

definition sched_vectors :: "handler list" where
  "sched_vectors =
    [To_el1_sync, To_el1_irq, To_default, To_default,
     To_el1_sync, To_el1_irq, To_default, To_default,
     To_el0_sync, To_el1_irq, To_default, To_default,
     To_el0_sync, To_el1_irq, To_default, To_default]"

text \<open>The branch at an address, if there is one: only the first word of an entry is code.\<close>

definition branch_at :: "'h list \<Rightarrow> u64 \<Rightarrow> u64 \<Rightarrow> 'h option" where
  "branch_at table base a =
    (let d = unat (a - base)
     in if d mod VEC_SIZE = 0 \<and> d div VEC_SIZE < length table then Some (table ! (d div VEC_SIZE)) else None)"

section \<open>The present kernel\<close>

definition default_entry :: "machine \<Rightarrow> machine" where
  "default_entry s = eret s"

definition kernel_handler :: "(machine \<Rightarrow> machine) \<Rightarrow> (machine \<Rightarrow> machine) \<Rightarrow> handler \<Rightarrow> machine \<Rightarrow> machine" where
  "kernel_handler irq_dispatcher syscall_dispatcher h s =
    (case h of To_el1_sync \<Rightarrow> el1_sync_entry syscall_dispatcher s
     | To_el1_irq \<Rightarrow> el1_irq_entry irq_dispatcher s
     | To_el0_sync \<Rightarrow> el0_sync_entry syscall_dispatcher s
     | To_default \<Rightarrow> default_entry s)"

text \<open>An exception with the base register at \<open>vbar\<close>; \<open>None\<close> when no code is where the processor goes.\<close>

definition exception :: "(machine \<Rightarrow> machine) \<Rightarrow> (machine \<Rightarrow> machine) \<Rightarrow> u64 \<Rightarrow> exception_kind \<Rightarrow> machine \<Rightarrow> machine option" where
  "exception irq_dispatcher syscall_dispatcher vbar k s =
    (let v = vector_of vbar k (PSTATE s); s = take_exception v s
     in case branch_at vectors vbar (PC s) of
          None \<Rightarrow> None
        | Some h \<Rightarrow> Some (kernel_handler irq_dispatcher syscall_dispatcher h s))"

section \<open>kernel-simple-scheduler\<close>

definition el0_sync_handler :: "u64 \<Rightarrow> u64" where "el0_sync_handler tf = tf"
definition el1_sync_handler :: "u64 \<Rightarrow> u64" where "el1_sync_handler tf = tf"

definition sched_el0_sync_entry :: "machine \<Rightarrow> machine" where
  "sched_el0_sync_entry s =
    (let s = simple_SAVE_CONTEXT s;
         s = mov_x 0 (SP s) s;
         s = mov_x 0 (el0_sync_handler (X s 0)) s;
         s = s\<lparr>SP := X s 0\<rparr>
     in simple_RESTORE_AND_ERET s)"

definition sched_el1_sync_entry :: "machine \<Rightarrow> machine" where
  "sched_el1_sync_entry s =
    (let s = simple_SAVE_CONTEXT s;
         s = mov_x 0 (SP s) s;
         s = mov_x 0 (el1_sync_handler (X s 0)) s;
         s = s\<lparr>SP := X s 0\<rparr>
     in simple_RESTORE_AND_ERET s)"

partial_function (option) sched_default_entry :: "machine \<Rightarrow> machine option" where
  "sched_default_entry s = sched_default_entry s"

definition sched_handler :: "(machine \<Rightarrow> machine) \<Rightarrow> handler \<Rightarrow> machine \<Rightarrow> machine option" where
  "sched_handler tick h s =
    (case h of To_el1_sync \<Rightarrow> Some (sched_el1_sync_entry s)
     | To_el1_irq \<Rightarrow> Some (simple_el1_irq_entry tick s)
     | To_el0_sync \<Rightarrow> Some (sched_el0_sync_entry s)
     | To_default \<Rightarrow> sched_default_entry s)"

definition sched_exception :: "(machine \<Rightarrow> machine) \<Rightarrow> u64 \<Rightarrow> exception_kind \<Rightarrow> machine \<Rightarrow> machine option" where
  "sched_exception tick vbar k s =
    (let v = vector_of vbar k (PSTATE s); s = take_exception v s
     in case branch_at sched_vectors vbar (PC s) of None \<Rightarrow> None | Some h \<Rightarrow> sched_handler tick h s)"

section \<open>The choice of the entry\<close>

lemma exception_group_less: "exception_group status < 4"
  by (simp add: exception_group_def)

lemma kind_index_less: "kind_index k < 4"
  by (cases k) simp_all

lemma aligned_base: "(vbar :: u64) AND 0x7FF = 0 \<Longrightarrow> vbar AND NOT 0x7FF = vbar"
proof -
  assume a: "vbar AND 0x7FF = 0"
  have "vbar = (vbar AND 0x7FF) OR (vbar AND NOT 0x7FF)" by (rule bit_word_eqI) (auto simp: bit_simps)
  then show ?thesis using a by simp
qed

lemma vector_offset:
  assumes "vbar AND 0x7FF = 0"
  shows "unat (vector_of vbar k status - vbar) = 128 * (4 * exception_group status + kind_index k)"
proof -
  let ?i = "4 * exception_group status + kind_index k"
  have i: "?i < 16" using exception_group_less [of status] kind_index_less [of k] by simp
  have "unat (of_nat n :: u64) = n" if "n < 2048" for n
    using that by (simp add: unsigned_of_nat take_bit_nat_eq_self)
  note small = this
  have "unat (of_nat (128 * ?i) :: u64) = 128 * ?i"
    by (rule small) (use i in simp)
  then show ?thesis
    by (simp only: vector_of_def aligned_base [OF assms] add_diff_cancel_left')
qed

text \<open>The entries of a group lie in the order of their kinds.\<close>

lemma vectors_ordered:
  assumes "vbar AND 0x7FF = 0"
  shows "unat (vector_of vbar k status - vbar) < unat (vector_of vbar k' status - vbar) \<longleftrightarrow> k < k'"
  by (simp add: vector_offset [OF assms] less_exception_kind_def)

lemma branch_taken:
  assumes "vbar AND 0x7FF = 0" and "length table = 16"
  shows "branch_at table vbar (vector_of vbar k status) = Some (table ! (4 * exception_group status + kind_index k))"
  using exception_group_less [of status] kind_index_less [of k] assms(2)
  by (simp add: branch_at_def VEC_SIZE_def vector_offset [OF assms(1)])

text \<open>The entry an exception reaches: the two groups of EL0 are alike, as are the two of EL1.\<close>

definition handler_for :: "exception_kind \<Rightarrow> bool \<Rightarrow> handler" where
  "handler_for k user =
    (case k of SYNC \<Rightarrow> if user then To_el0_sync else To_el1_sync | IRQ \<Rightarrow> To_el1_irq | _ \<Rightarrow> To_default)"

lemma vectors_entry:
  "vectors ! (4 * exception_group status + kind_index k) = handler_for k (from_program status)"
  by (cases k) (simp_all add: vectors_def exception_group_def handler_for_def from_program_def)

lemma sched_vectors_entry:
  "sched_vectors ! (4 * exception_group status + kind_index k) = handler_for k (from_program status)"
  by (cases k) (simp_all add: sched_vectors_def exception_group_def handler_for_def from_program_def)

lemma exception_reaches:
  assumes "vbar AND 0x7FF = 0"
  shows "exception irqd sysd vbar k s =
      Some (kernel_handler irqd sysd (handler_for k (from_program (PSTATE s)))
        (take_exception (vector_of vbar k (PSTATE s)) s))"
    "sched_exception tick vbar k s =
      sched_handler tick (handler_for k (from_program (PSTATE s))) (take_exception (vector_of vbar k (PSTATE s)) s)"
  using branch_taken [OF assms, of vectors k "PSTATE s"] branch_taken [OF assms, of sched_vectors k "PSTATE s"]
  by (simp_all add: exception_def sched_exception_def Let_def take_exception_def vectors_entry sched_vectors_entry vectors_def [THEN arg_cong, of length]
      sched_vectors_def [THEN arg_cong, of length])


section \<open>What the entries do\<close>

lemma SAVE_CONTEXT_X: "X (SAVE_CONTEXT s) i = (if i = 0 then TTBR0 s else X s i)"
  by (simp add: SAVE_CONTEXT_def Let_def upt_15 vector_defs)

lemma SAVE_CONTEXT_system:
  "SP_EL0 (SAVE_CONTEXT s) = SP_EL0 s" "TTBR0 (SAVE_CONTEXT s) = TTBR0 s" "PSTATE (SAVE_CONTEXT s) = PSTATE s"
  by (simp_all add: SAVE_CONTEXT_def Let_def upt_15 vector_defs)

lemma mov_x_system:
  "SP_EL0 (mov_x a v s) = SP_EL0 s" "TTBR0 (mov_x a v s) = TTBR0 s"
  by (simp_all add: mov_x_def)

lemma default_entry_resumes:
  "running (default_entry (take_exception v s)) = running s" "SP (default_entry (take_exception v s)) = SP s"
  "words (default_entry (take_exception v s)) = words s"
  by (simp_all add: default_entry_def running_def eret_def)

text \<open>What a program that faulted finds in its registers.\<close>

definition fault_registers :: "machine \<Rightarrow> u64 list" where
  "fault_registers s = (map (X s) [0..<31])[0 := TTBR0 s, 10 := ESR s, 11 := drop_bit 26 (ESR s)]"

lemma el0_fault:
  assumes "drop_bit 26 (ESR s) \<noteq> 0x15"
  shows "running (el0_sync_entry disp (take_exception v s)) = (running s)\<lparr>x_regs := fault_registers s\<rparr>"
    "SP (el0_sync_entry disp (take_exception v s)) = SP s - CTX_SIZE"
  using assms by (simp_all add: el0_sync_entry_def Let_def SAVE_CONTEXT_X SAVE_CONTEXT_rest SAVE_CONTEXT_system
      mov_x_system eret_def running_def fault_registers_def upt_31)

lemma el0_system_call:
  assumes "drop_bit 26 (ESR s) = 0x15" and "\<forall>t. SP (disp t) = SP t"
    and "\<forall>t. \<forall>a \<in> frame (SP s - CTX_SIZE). words (disp t) a = words t a"
  shows "running (el0_sync_entry disp (take_exception v s)) = running s"
    "SP (el0_sync_entry disp (take_exception v s)) = SP s"
proof -
  let ?t = "mov_x 7 (X s 8) (mov_x 11 (drop_bit 26 (ESR s)) (mov_x 10 (ESR s) (SAVE_CONTEXT (take_exception v s))))"
  have e: "el0_sync_entry disp (take_exception v s) = RESTORE_AND_ERET (disp ?t)"
    using assms(1) by (simp add: el0_sync_entry_def Let_def SAVE_CONTEXT_rest)
  have sp: "SP (disp ?t) = SP s - CTX_SIZE" using assms(2) by (simp add: SAVE_CONTEXT_rest)
  have "context_at (words (disp ?t)) (SP s - CTX_SIZE) = context_at (words ?t) (SP s - CTX_SIZE)"
    by (rule context_at_cong) (use assms(3) in blast)
  then show "running (el0_sync_entry disp (take_exception v s)) = running s"
    by (simp add: e RESTORE_running sp frame_running)
  show "SP (el0_sync_entry disp (take_exception v s)) = SP s" by (simp add: e RESTORE_rest sp)
qed

lemma sched_sync_resumes:
  "simple_running (sched_el0_sync_entry (take_exception v s)) = simple_running s"
  "SP (sched_el0_sync_entry (take_exception v s)) = SP s"
  "b \<notin> simple_frame (SP s - CTX_SIZE) \<Longrightarrow> words (sched_el0_sync_entry (take_exception v s)) b = words s b"
  using simple_SAVE_outside [of b "take_exception v s"]
  by (simp_all add: sched_el0_sync_entry_def el0_sync_handler_def Let_def simple_RESTORE_running simple_SAVE_frame)

lemma sched_sync_entries: "sched_el1_sync_entry = sched_el0_sync_entry"
  by (simp add: fun_eq_iff sched_el0_sync_entry_def sched_el1_sync_entry_def el0_sync_handler_def el1_sync_handler_def)

lemma sched_default_never_returns: "sched_default_entry s = None"
proof -
  have "\<not> sched_default_entry s = Some y" for y
  proof
    assume "sched_default_entry s = Some y"
    then show False by (rule sched_default_entry.raw_induct [where P = "\<lambda>_ _. False", rotated])
  qed
  then show ?thesis by (cases "sched_default_entry s") blast+
qed

section \<open>Properties\<close>

text \<open>
  C9. Only an interrupt takes the processor from a program.  Every other exception of a program
  resumes it where it was, with its status, its stack pointer and its table base.  A fast
  interrupt and a system error change nothing at all, and neither does a system call whose
  dispatcher keeps the frame.  A fault is not handled: the faulting instruction runs again, but
  with the table base of the program in \<open>x0\<close> and the syndrome in \<open>x10\<close> and \<open>x11\<close>, and with the frame
  left on the kernel stack.
\<close>

theorem exceptions_resume_program:
  assumes "vbar AND 0x7FF = 0" and "from_program (PSTATE s)" and "k \<noteq> IRQ"
    and "\<forall>t. SP (sysd t) = SP t" and "\<forall>t. \<forall>a \<in> frame (SP s - CTX_SIZE). words (sysd t) a = words t a"
  shows "\<exists>s'. exception irqd sysd vbar k s = Some s' \<and>
    (if k = SYNC \<and> drop_bit 26 (ESR s) \<noteq> 0x15
     then running s' = (running s)\<lparr>x_regs := (map (X s) [0..<31])[0 := TTBR0 s, 10 := ESR s, 11 := drop_bit 26 (ESR s)]\<rparr> \<and>
       SP s' = SP s - 272
     else running s' = running s \<and> SP s' = SP s)"
  using assms(2,3) default_entry_resumes el0_fault [of s sysd] el0_system_call [OF _ assms(4,5)]
  by (cases k) (simp_all add: exception_reaches(1) [OF assms(1)] handler_for_def kernel_handler_def fault_registers_def
      CTX_SIZE_def)

text \<open>
  C35. The exceptions of \<^verbatim>\<open>kernel-simple-scheduler\<close>.  A synchronous exception, system call or fault, of
  a program or of the kernel, resumes the interrupted code with every register as it was and
  writes only the 272 bytes below the stack pointer, so a system call has no effect and a fault
  repeats for ever, on a stack that does not shrink.  After a fast interrupt or a system error
  the processor never leaves the entry.
\<close>

theorem sched_exceptions_outcome:
  assumes "vbar AND 0x7FF = 0"
  shows "case k of
      SYNC \<Rightarrow> \<exists>s'. sched_exception tick vbar k s = Some s' \<and> simple_running s' = simple_running s \<and> SP s' = SP s \<and>
        (\<forall>a. a \<notin> simple_frame (SP s - CTX_SIZE) \<longrightarrow> words s' a = words s a)
    | IRQ \<Rightarrow> sched_exception tick vbar k s = Some (simple_el1_irq_entry tick (take_exception (vector_of vbar IRQ (PSTATE s)) s))
    | _ \<Rightarrow> sched_exception tick vbar k s = None"
  by (cases k) (simp_all add: exception_reaches(2) [OF assms] handler_for_def sched_handler_def sched_sync_entries
      sched_sync_resumes sched_default_never_returns)

section \<open>The properties at concrete states\<close>

theorem exceptions_resume_program_witness:
  "\<exists>s'. exception id id 0xFFFF000080002800 SYNC (user_machine\<lparr>ESR := 0x92000007\<rparr>) = Some s' \<and>
     PC s' = 0x80001000 \<and> x_regs (running s') ! 0 = 0x80084000 \<and> x_regs (running s') ! 10 = 0x92000007"
proof -
  let ?s = "user_machine\<lparr>ESR := 0x92000007\<rparr>"
  obtain s' where e: "exception id id 0xFFFF000080002800 SYNC ?s = Some s'" and
    r: "running s' = (running ?s)\<lparr>x_regs := (map (X ?s) [0..<31])[0 := TTBR0 ?s, 10 := ESR ?s, 11 := drop_bit 26 (ESR ?s)]\<rparr>"
    using exceptions_resume_program [of "0xFFFF000080002800" ?s SYNC id id]
    by (auto simp: user_machine_def from_program_def)
  have "PC s' = elr_el1 (running s')" by (simp add: running_def)
  then have "PC s' = 0x80001000" "x_regs (running s') ! 0 = 0x80084000" "x_regs (running s') ! 10 = 0x92000007"
    unfolding r by (simp_all add: user_machine_def running_def)
  then show ?thesis using e by blast
qed

theorem sched_exceptions_outcome_witness:
  "\<exists>s'. sched_exception id 0x40002800 SYNC user_machine = Some s' \<and> PC s' = 0x80001000 \<and>
     words s' (SP user_machine) = 7"
proof -
  obtain s' where e: "sched_exception id 0x40002800 SYNC user_machine = Some s'"
    and "simple_running s' = simple_running user_machine" "words s' (SP user_machine) = words user_machine (SP user_machine)"
    using sched_exceptions_outcome [where vbar = "0x40002800" and tick = id and s = user_machine and k = SYNC] stack_pointer_not_in_frame [of "SP user_machine"]
    by auto
  then have "PC s' = 0x80001000" "words s' (SP user_machine) = 7"
    by (simp_all add: simple_running_def user_machine_def)
  then show ?thesis using e by blast
qed

end
