(* ===== verification/Interrupts.thy ===== *)
theory Interrupts
  imports Exceptions PhysUart
begin

text \<open>
  The kernel \<^verbatim>\<open>kernel-interrupts\<close> as a whole: \<^verbatim>\<open>core/kmain.c\<close>, the handlers of \<^verbatim>\<open>core/timer.c\<close> and
  \<^verbatim>\<open>core/handlers.c\<close> with their output, the vector table, and the one program \<^verbatim>\<open>user/busy.s\<close>.  Its
  vectors branch straight to C functions: nothing is saved and no \<open>eret\<close> is executed, so a handler
  returns to the link register of the interrupted program, on EL1.  That this works rests on one
  instruction: the program is entered by an \<open>eret\<close> right behind a call, and never writes its link
  register, so every handler returns to that \<open>eret\<close>.  The functions are in C and their
  registers are fixed by the procedure call standard only: \<open>c_return\<close>.
\<close>

section \<open>The image\<close>

text \<open>
  Addresses the linker chooses.  \<open>behind_puts\<close> is where the last call of \<open>enter_el0\<close> returns to, the
  address of its \<open>eret\<close>.
\<close>

record irq_image =
  loop_address :: u64
  behind_puts :: u64
  vectors_address :: u64
  rodata :: "u64 \<Rightarrow> u8"
  msg_starting :: u64
  msg_enable :: u64
  msg_jump :: u64
  msg_set :: u64
  msg_tick :: u64
  msg_el1_sync :: u64
  msg_el0_sync :: u64

record board =
  core :: machine
  kern :: irq_kernel
  console :: bus

section \<open>The C functions\<close>

text \<open>
  What a function leaves of the registers: \<open>x19\<close> to \<open>x30\<close>, the stack pointers and the system
  registers it does not write.  \<open>clob\<close> and \<open>scratch\<close> are what it leaves in the others and in memory.
\<close>

definition c_return :: "(machine \<Rightarrow> nat \<Rightarrow> u64) \<Rightarrow> (machine \<Rightarrow> u64 \<Rightarrow> u64) \<Rightarrow> machine \<Rightarrow> machine" where
  "c_return clob scratch m = m\<lparr>X := (\<lambda>i. if i \<le> 18 then clob m i else X m i), words := scratch m, PC := X m 30\<rparr>"

definition announced_timer_irq_handler :: "device \<Rightarrow> irq_image \<Rightarrow> irq_kernel \<Rightarrow> bus \<Rightarrow> (irq_kernel \<times> bus) option" where
  "announced_timer_irq_handler udev im s c =
    (let s = s\<lparr>jiffies := jiffies s + 1\<rparr> in
     Option.bind (if jiffies s mod 1000 = 0 then phys_puts udev (rodata im) (msg_tick im) c else Some c)
       (\<lambda>c. Some (simple_set_cntv s, c)))"

definition announced_el1_irq :: "device \<Rightarrow> device \<Rightarrow> irq_image \<Rightarrow> irq_kernel \<Rightarrow> bus \<Rightarrow> (irq_kernel \<times> bus) option" where
  "announced_el1_irq dev udev im s c =
    (let (iar, s) = simple_gic_ack dev s; irq = iar AND 0x3FF in
     Option.bind (if irq = 27 then announced_timer_irq_handler udev im s c else Some (s, c))
       (\<lambda>(s, c). Some (simple_gic_eoi iar s, c)))"

definition c_el1_sync :: "device \<Rightarrow> irq_image \<Rightarrow> bus \<Rightarrow> bus option" where
  "c_el1_sync udev im c = phys_puts udev (rodata im) (msg_el1_sync im) c"

definition c_el0_sync :: "device \<Rightarrow> irq_image \<Rightarrow> bus \<Rightarrow> bus option" where
  "c_el0_sync udev im c = phys_puts udev (rodata im) (msg_el0_sync im) c"

definition bl :: "u64 \<Rightarrow> machine \<Rightarrow> machine" where
  "bl link m = mov_x 30 link m"

definition enter_el0 :: "device \<Rightarrow> irq_image \<Rightarrow> (machine \<Rightarrow> nat \<Rightarrow> u64) \<Rightarrow> (machine \<Rightarrow> u64 \<Rightarrow> u64) \<Rightarrow> u64 \<Rightarrow> board \<Rightarrow> board option" where
  "enter_el0 udev im clob scratch fn b =
    (let m = (core b)\<lparr>SP_EL0 := 0x40020000\<rparr>;
         spsr = 0;
         m = m\<lparr>SPSR := spsr\<rparr>;
         m = m\<lparr>ELR := fn\<rparr>;
         m = bl (behind_puts im) m
     in Option.bind (phys_puts udev (rodata im) (msg_set im) (console b))
       (\<lambda>c. Some (b\<lparr>core := eret (c_return clob scratch m), console := c\<rparr>)))"

definition irq_kmain :: "device \<Rightarrow> irq_image \<Rightarrow> (machine \<Rightarrow> nat \<Rightarrow> u64) \<Rightarrow> (machine \<Rightarrow> u64 \<Rightarrow> u64) \<Rightarrow> board \<Rightarrow> board option" where
  "irq_kmain udev im clob scratch b =
    Option.bind (phys_puts udev (rodata im) (msg_starting im) (phys_uart_init udev (console b))) (\<lambda>c.
    let k = simple_timer_init_1khz (simple_gic_init (kern b)) in
    Option.bind (phys_puts udev (rodata im) (msg_enable im) c) (\<lambda>c.
    let m = (core b)\<lparr>PSTATE := PSTATE (core b) AND NOT 0x80\<rparr> in
    Option.bind (phys_puts udev (rodata im) (msg_jump im) c) (\<lambda>c.
    enter_el0 udev im clob scratch (loop_address im) (b\<lparr>core := m, kern := k, console := c\<rparr>))))"

section \<open>The vector table\<close>

datatype irq_entry = Call_el1_sync | Call_el1_irq | Call_el0_sync | Spin

definition irq_vectors :: "irq_entry list" where
  "irq_vectors =
    [Call_el1_sync, Call_el1_irq, Spin, Spin,
     Call_el1_sync, Call_el1_irq, Spin, Spin,
     Call_el0_sync, Call_el1_irq, Spin, Spin,
     Call_el0_sync, Call_el1_irq, Spin, Spin]"

partial_function (option) spin :: "board \<Rightarrow> board option" where
  "spin b = spin b"

definition irq_branch :: "device \<Rightarrow> device \<Rightarrow> irq_image \<Rightarrow> (machine \<Rightarrow> nat \<Rightarrow> u64) \<Rightarrow> (machine \<Rightarrow> u64 \<Rightarrow> u64) \<Rightarrow> irq_entry \<Rightarrow> board \<Rightarrow> board option" where
  "irq_branch dev udev im clob scratch e b =
    (case e of
       Call_el1_irq \<Rightarrow> Option.bind (announced_el1_irq dev udev im (kern b) (console b))
         (\<lambda>(k, c). Some (b\<lparr>core := c_return clob scratch (core b), kern := k, console := c\<rparr>))
     | Call_el1_sync \<Rightarrow> Option.bind (c_el1_sync udev im (console b))
         (\<lambda>c. Some (b\<lparr>core := c_return clob scratch (core b), console := c\<rparr>))
     | Call_el0_sync \<Rightarrow> Option.bind (c_el0_sync udev im (console b))
         (\<lambda>c. Some (b\<lparr>core := c_return clob scratch (core b), console := c\<rparr>))
     | Spin \<Rightarrow> spin b)"

definition board_exception :: "device \<Rightarrow> device \<Rightarrow> irq_image \<Rightarrow> (machine \<Rightarrow> nat \<Rightarrow> u64) \<Rightarrow> (machine \<Rightarrow> u64 \<Rightarrow> u64) \<Rightarrow> exception_kind \<Rightarrow> board \<Rightarrow> board option" where
  "board_exception dev udev im clob scratch k b =
    (let v = vector_of (vectors_address im) k (PSTATE (core b));
         b = b\<lparr>core := take_exception v (core b)\<rparr>
     in case branch_at irq_vectors (vectors_address im) (PC (core b)) of None \<Rightarrow> None
        | Some e \<Rightarrow> irq_branch dev udev im clob scratch e b)"

section \<open>Runs\<close>

text \<open>The program \<^verbatim>\<open>busy.s\<close>, with its three instructions, and the \<open>eret\<close> of \<open>enter_el0\<close>.\<close>

definition busy_loop :: "u64 \<Rightarrow> machine \<Rightarrow> machine option" where
  "busy_loop L m =
    (if PC m = L then Some ((mov_x 0 1 m)\<lparr>PC := L + 4\<rparr>)
     else if PC m = L + 4 then Some ((mov_x 0 2 m)\<lparr>PC := L + 8\<rparr>)
     else if PC m = L + 8 then Some (m\<lparr>PC := L\<rparr>)
     else None)"

definition instruction :: "irq_image \<Rightarrow> machine \<Rightarrow> machine option" where
  "instruction im m =
    (if PC m = behind_puts im \<and> \<not> from_program (PSTATE m) then Some (eret m) else busy_loop (loop_address im) m)"

text \<open>An instruction, or an interrupt when the status does not mask it (bit 7).\<close>

inductive board_step :: "device \<Rightarrow> device \<Rightarrow> irq_image \<Rightarrow> (machine \<Rightarrow> nat \<Rightarrow> u64) \<Rightarrow> (machine \<Rightarrow> u64 \<Rightarrow> u64) \<Rightarrow> board \<Rightarrow> board \<Rightarrow> bool"
  for dev udev im clob scratch where
  executes: "instruction im (core b) = Some m \<Longrightarrow> board_step dev udev im clob scratch b (b\<lparr>core := m\<rparr>)"
| interrupted: "\<not> bit (PSTATE (core b)) 7 \<Longrightarrow> board_exception dev udev im clob scratch IRQ b = Some b' \<Longrightarrow>
    board_step dev udev im clob scratch b b'"

inductive board_run :: "device \<Rightarrow> device \<Rightarrow> irq_image \<Rightarrow> (machine \<Rightarrow> nat \<Rightarrow> u64) \<Rightarrow> (machine \<Rightarrow> u64 \<Rightarrow> u64) \<Rightarrow> board \<Rightarrow> board \<Rightarrow> bool"
  for dev udev im clob scratch where
  run_refl: "board_run dev udev im clob scratch b b"
| run_step: "board_run dev udev im clob scratch b b' \<Longrightarrow> board_step dev udev im clob scratch b' b'' \<Longrightarrow>
    board_run dev udev im clob scratch b b''"

inductive_cases board_step_cases: "board_step dev udev im clob scratch b b'"

section \<open>What is observed\<close>

text \<open>The timer interrupts acknowledged so far, and how many of them were announced.\<close>

fun is_timer_ack :: "bus_event \<Rightarrow> bool" where
  "is_timer_ack (BusRead a v) \<longleftrightarrow> a = 0x0801000C \<and> v AND 0x3FF = 27"
| "is_timer_ack (BusWrite a v) \<longleftrightarrow> False"

definition timer_ticks :: "board \<Rightarrow> nat" where
  "timer_ticks b = length (filter is_timer_ack (gic_bus (kern b)))"

definition announcements :: "nat \<Rightarrow> nat" where
  "announcements n = length (filter (\<lambda>i. (of_nat i :: u64) mod 1000 = 0) [1..<Suc n])"

definition printed :: "board \<Rightarrow> u8 list" where
  "printed b = data_out (relocate (console b))"

text \<open>What the image must satisfy: strings that end, an aligned table, the \<open>eret\<close> outside the program.\<close>

definition image_ok :: "irq_image \<Rightarrow> u8 list \<Rightarrow> bool" where
  "image_ok im tick \<longleftrightarrow> vectors_address im AND 0x7FF = 0 \<and>
     behind_puts im \<notin> {loop_address im, loop_address im + 4, loop_address im + 8} \<and>
     cstring (rodata im) (msg_tick im) tick \<and>
     (\<forall>p \<in> {msg_starting im, msg_enable im, msg_jump im, msg_set im}. \<exists>cs. cstring (rodata im) p cs)"

definition in_loop :: "irq_image \<Rightarrow> u64 \<Rightarrow> bool" where
  "in_loop im a \<longleftrightarrow> a \<in> {loop_address im, loop_address im + 4, loop_address im + 8}"

text \<open>The program runs in its loop, or the handler has returned to the \<open>eret\<close> that resumes it there.\<close>

definition board_inv :: "irq_image \<Rightarrow> u8 list \<Rightarrow> u8 list \<Rightarrow> u64 \<Rightarrow> board \<Rightarrow> bool" where
  "board_inv im tick out sp b \<longleftrightarrow>
     X (core b) 30 = behind_puts im \<and> SP (core b) = sp \<and> SP_EL0 (core b) = 0x40020000 \<and>
     (PSTATE (core b) = 0 \<and> in_loop im (PC (core b)) \<or>
      PSTATE (core b) = 0x3c5 \<and> PC (core b) = behind_puts im \<and> SPSR (core b) = 0 \<and> in_loop im (ELR (core b))) \<and>
     jiffies (kern b) = of_nat (timer_ticks b) \<and>
     printed b = out @ concat (replicate (announcements (timer_ticks b)) tick)"


section \<open>One interrupt\<close>

lemma phys_puts_live:
  assumes "uart_live udev" and "cstring mem p cs"
  shows "\<exists>h'. phys_puts (phys_device udev) mem p h = Some h' \<and> data_out (relocate h') = data_out (relocate h) @ cs"
  using minimal_kernel_prints [OF assms] by (simp add: kernel_s_print_eq)

lemma el1_irq_reads_once: "el1_irq dev s = el1_irq (\<lambda>_ _. dev (gic_bus s) 0x0801000C) s"
  by (simp add: el1_irq_def simple_ack_eq)

lemma el1_irq_effects:
  "jiffies (el1_irq dev s) = jiffies s + (if dev (gic_bus s) 0x0801000C AND 0x3FF = 27 then 1 else 0)"
  "gic_bus (el1_irq dev s) = gic_bus s @
     [BusRead 0x0801000C (dev (gic_bus s) 0x0801000C), BusWrite 0x08010010 (dev (gic_bus s) 0x0801000C)]"
  by (subst el1_irq_reads_once, rule el1_irq_effect)+

text \<open>The handler with its output is the handler of \<open>SimpleSched\<close>, as long as the serial port works.\<close>

lemma announced_el1_irq_eq:
  assumes "uart_live udev" and "cstring (rodata im) (msg_tick im) tick"
  shows "\<exists>c'. announced_el1_irq dev (phys_device udev) im s c = Some (el1_irq dev s, c') \<and>
    data_out (relocate c') = data_out (relocate c) @
      (if dev (gic_bus s) 0x0801000C AND 0x3FF = 27 \<and> (jiffies s + 1) mod 1000 = 0 then tick else [])"
  using phys_puts_live [OF assms, of c]
  by (auto simp: announced_el1_irq_def announced_timer_irq_handler_def el1_irq_def timer_tick_def simple_ack_eq Let_def)

lemma irq_entry_table: "irq_vectors ! (4 * exception_group status + 1) = Call_el1_irq"
  by (simp add: irq_vectors_def exception_group_def)

lemma board_interrupt:
  assumes "uart_live udev" and "image_ok im tick"
  shows "\<exists>c'. board_exception dev (phys_device udev) im clob scratch IRQ b =
      Some (b\<lparr>core := c_return clob scratch (take_exception (vector_of (vectors_address im) IRQ (PSTATE (core b))) (core b)),
        kern := el1_irq dev (kern b), console := c'\<rparr>) \<and>
    data_out (relocate c') = printed b @
      (if dev (gic_bus (kern b)) 0x0801000C AND 0x3FF = 27 \<and> (jiffies (kern b) + 1) mod 1000 = 0 then tick else [])"
proof -
  have i: "vectors_address im AND 0x7FF = 0" "cstring (rodata im) (msg_tick im) tick"
    using assms(2) by (simp_all add: image_ok_def)
  have "branch_at irq_vectors (vectors_address im) (vector_of (vectors_address im) IRQ (PSTATE (core b))) = Some Call_el1_irq"
    using branch_taken [OF i(1), of irq_vectors IRQ] irq_entry_table by (simp add: irq_vectors_def [THEN arg_cong, of length])
  moreover obtain c' where "announced_el1_irq dev (phys_device udev) im (kern b) (console b) = Some (el1_irq dev (kern b), c')"
    and "data_out (relocate c') = printed b @
      (if dev (gic_bus (kern b)) 0x0801000C AND 0x3FF = 27 \<and> (jiffies (kern b) + 1) mod 1000 = 0 then tick else [])"
    using announced_el1_irq_eq [OF assms(1) i(2), of dev "kern b" "console b"] by (auto simp: printed_def)
  ultimately show ?thesis
    by (intro exI [of _ c']) (simp add: board_exception_def irq_branch_def Let_def take_exception_def)
qed

lemma c_return_simps [simp]:
  "PC (c_return clob scratch m) = X m 30" "SP (c_return clob scratch m) = SP m" "SP_EL0 (c_return clob scratch m) = SP_EL0 m"
  "PSTATE (c_return clob scratch m) = PSTATE m" "ELR (c_return clob scratch m) = ELR m"
  "SPSR (c_return clob scratch m) = SPSR m" "18 < i \<Longrightarrow> X (c_return clob scratch m) i = X m i"
  by (simp_all add: c_return_def)

lemma take_exception_masked [simp]: "PSTATE (take_exception v s) = 0x3c5"
  by (simp add: take_exception_def)

section \<open>The invariant\<close>

lemma announcements_Suc:
  "announcements (Suc n) = announcements n + (if (of_nat (Suc n) :: u64) mod 1000 = 0 then 1 else 0)"
  by (simp add: announcements_def)

lemma announcements_0 [simp]: "announcements 0 = 0"
  by (simp add: announcements_def)

lemma ticks_irq:
  "length (filter is_timer_ack (gic_bus (el1_irq dev s))) = length (filter is_timer_ack (gic_bus s)) +
    (if dev (gic_bus s) 0x0801000C AND 0x3FF = 27 then 1 else 0)"
  by (simp add: el1_irq_effects)

lemma board_inv_interrupt:
  assumes "uart_live udev" and "image_ok im tick" and "board_inv im tick out sp b" and "\<not> bit (PSTATE (core b)) 7"
    and "board_exception dev (phys_device udev) im clob scratch IRQ b = Some b'"
  shows "board_inv im tick out sp b'"
proof -
  have p: "PSTATE (core b) = 0" using assms(3,4) by (auto simp: board_inv_def bit_simps)
  obtain c' where e: "b' = b\<lparr>core := c_return clob scratch (take_exception (vector_of (vectors_address im) IRQ (PSTATE (core b))) (core b)),
        kern := el1_irq dev (kern b), console := c'\<rparr>"
    and c: "data_out (relocate c') = printed b @
      (if dev (gic_bus (kern b)) 0x0801000C AND 0x3FF = 27 \<and> (jiffies (kern b) + 1) mod 1000 = 0 then tick else [])"
    using board_interrupt [OF assms(1,2), of dev clob scratch b] assms(5) by auto
  have t: "timer_ticks b' = timer_ticks b + (if dev (gic_bus (kern b)) 0x0801000C AND 0x3FF = 27 then 1 else 0)"
    by (simp add: e timer_ticks_def ticks_irq)
  have j: "jiffies (kern b) = of_nat (timer_ticks b)" using assms(3) by (simp add: board_inv_def)
  have "printed b' = data_out (relocate c')" by (simp add: e printed_def)
  also have "\<dots> = out @ concat (replicate (announcements (timer_ticks b')) tick)"
  proof -
    have "concat (replicate n tick) @ tick = concat (replicate (Suc n) tick)" for n
      by (induction n) simp_all
    then show ?thesis
      using assms(3) by (simp add: c board_inv_def t announcements_Suc j add.commute)
  qed
  finally have "printed b' = out @ concat (replicate (announcements (timer_ticks b')) tick)" .
  moreover have "jiffies (kern b') = of_nat (timer_ticks b')"
  proof -
    have "jiffies (kern b') = jiffies (kern b) + (if dev (gic_bus (kern b)) 0x0801000C AND 0x3FF = 27 then 1 else 0)"
      by (simp add: e el1_irq_effects)
    then show ?thesis by (simp add: t j)
  qed
  moreover have "X (core b) 30 = behind_puts im" "SP (core b) = sp" "SP_EL0 (core b) = 0x40020000" "in_loop im (PC (core b))"
    using assms(3) p by (auto simp: board_inv_def)
  moreover have "core b' = c_return clob scratch (take_exception (vector_of (vectors_address im) IRQ (PSTATE (core b))) (core b))"
    by (simp add: e)
  ultimately show ?thesis using p by (simp add: board_inv_def)
qed

lemma board_inv_instruction:
  assumes "board_inv im tick out sp b" and "image_ok im tick" and "instruction im (core b) = Some m"
  shows "board_inv im tick out sp (b\<lparr>core := m\<rparr>)"
proof -
  have "from_program 0" "\<not> from_program 0x3c5" by (simp_all add: from_program_def)
  then show ?thesis
    using assms by (auto simp: board_inv_def instruction_def busy_loop_def in_loop_def image_ok_def eret_def timer_ticks_def
        printed_def mov_x_def split: if_splits)
qed

lemma board_inv_run:
  assumes "board_run dev (phys_device udev) im clob scratch b b'" and "uart_live udev" and "image_ok im tick"
    and "board_inv im tick out sp b"
  shows "board_inv im tick out sp b'"
  using assms(1,4)
proof induction
  case (run_step b b' b'')
  then have i: "board_inv im tick out sp b'" by blast
  from run_step.hyps(2) show ?case
  proof (cases rule: board_step.cases)
    case (executes m)
    then show ?thesis using board_inv_instruction [OF i assms(3)] by blast
  next
    case interrupted
    then show ?thesis using board_inv_interrupt [OF assms(2,3) i] by blast
  qed
qed

text \<open>In every state of the invariant the next instruction exists, and an interrupt is served when it is not masked.\<close>

lemma board_inv_progress:
  assumes "board_inv im tick out sp b" and "image_ok im tick"
  shows "\<exists>m. instruction im (core b) = Some m"
proof -
  have "\<not> from_program 0x3c5" by (simp add: from_program_def)
  then show ?thesis
    using assms by (auto simp: board_inv_def instruction_def busy_loop_def in_loop_def image_ok_def)
qed


text \<open>Booting establishes the invariant.\<close>

lemma irq_devices:
  "gic_bus (simple_timer_init_1khz (simple_gic_init s)) = gic_bus s @
     [BusWrite 0x08000000 1, BusWrite 0x08000100 0x08000000, BusWrite 0x08010000 1, BusWrite 0x08010004 0xf0]"
  "jiffies (simple_timer_init_1khz (simple_gic_init s)) = jiffies s"
  by (simp_all add: simple_timer_init_1khz_def enable_cntv_def simple_set_cntv_def msr_cntv_tval_def read_cntfrq_def
      simple_gic_init_def w32_def bus_write_def GICD_BASE_def GICC_BASE_def IRQ_VTIMER_def Let_def)

lemma irq_kmain_boots:
  assumes "uart_live udev" and "image_ok im tick" and "jiffies (kern b0) = 0" and "timer_ticks b0 = 0"
  shows "\<exists>b. irq_kmain (phys_device udev) im clob scratch b0 = Some b \<and> PC (core b) = loop_address im \<and>
    board_inv im tick (printed b) (SP (core b0)) b"
proof -
  have puts: "\<exists>c'. phys_puts (phys_device udev) (rodata im) p c = Some c'"
    if "p \<in> {msg_starting im, msg_enable im, msg_jump im, msg_set im}" for p c
    using phys_puts_live [OF assms(1)] that assms(2) unfolding image_ok_def by meson
  obtain c1 where c1: "phys_puts (phys_device udev) (rodata im) (msg_starting im) (phys_uart_init (phys_device udev) (console b0)) = Some c1"
    using puts [of "msg_starting im"] by blast
  obtain c2 where c2: "phys_puts (phys_device udev) (rodata im) (msg_enable im) c1 = Some c2"
    using puts [of "msg_enable im"] by blast
  obtain c3 where c3: "phys_puts (phys_device udev) (rodata im) (msg_jump im) c2 = Some c3"
    using puts [of "msg_jump im"] by blast
  obtain c4 where c4: "phys_puts (phys_device udev) (rodata im) (msg_set im) c3 = Some c4"
    using puts [of "msg_set im"] by blast
  obtain b where b: "irq_kmain (phys_device udev) im clob scratch b0 = Some b"
    "kern b = simple_timer_init_1khz (simple_gic_init (kern b0))"
    "PC (core b) = loop_address im" "PSTATE (core b) = 0" "SP (core b) = SP (core b0)" "SP_EL0 (core b) = 0x40020000"
    "X (core b) 30 = behind_puts im"
    by (simp add: irq_kmain_def enter_el0_def c1 c2 c3 c4 Let_def eret_def bl_def) (simp add: mov_x_def)
  have "timer_ticks b = 0" using assms(4) by (simp add: timer_ticks_def b(2) irq_devices)
  moreover have "jiffies (kern b) = 0" using assms(3) by (simp add: b(2) irq_devices)
  ultimately have "board_inv im tick (printed b) (SP (core b0)) b"
    using b by (simp add: board_inv_def in_loop_def)
  then show ?thesis using b(1,3) by blast
qed

lemma masked_loop:
  assumes "board_run dev udev im clob scratch b b'" and "PSTATE (core b) = 0x3c5" and "in_loop im (PC (core b))"
    and "image_ok im tick"
  shows "PSTATE (core b') = 0x3c5 \<and> in_loop im (PC (core b')) \<and> timer_ticks b' = timer_ticks b"
  using assms(1-3)
proof induction
  case (run_step b b' b'')
  then have i: "PSTATE (core b') = 0x3c5" "in_loop im (PC (core b'))" "timer_ticks b' = timer_ticks b" by blast+
  from run_step.hyps(2) show ?case
  proof (cases rule: board_step.cases)
    case (executes m)
    then show ?thesis
      using i assms(4) by (auto simp: instruction_def busy_loop_def in_loop_def image_ok_def timer_ticks_def mov_x_def split: if_splits)
  next
    case interrupted
    then show ?thesis using i(1) by simp
  qed
qed blast

section \<open>Properties\<close>

text \<open>
  C10. The kernel runs its program for ever.  On a working serial port \<open>kmain\<close> enters the program,
  and in every state that instructions and interrupts can reach, in any order, the program runs
  in its loop on EL0 or the processor is at the \<open>eret\<close> that resumes it there; the stack pointers are
  as they were; \<open>jiffies\<close> counts the timer interrupts that were acknowledged, in 64 bits; and
  the serial port has printed one line for each thousand.  The next instruction always exists,
  and an interrupt that is not masked is always served.
\<close>

theorem busy_program_survives:
  assumes "uart_live udev" and "image_ok im tick" and "jiffies (kern b0) = 0" and "timer_ticks b0 = 0"
  shows "\<exists>b. irq_kmain (phys_device udev) im clob scratch b0 = Some b \<and> PC (core b) = loop_address im \<and>
    (\<forall>b'. board_run dev (phys_device udev) im clob scratch b b' \<longrightarrow>
      board_inv im tick (printed b) (SP (core b0)) b' \<and>
      (\<exists>m. instruction im (core b') = Some m) \<and>
      (\<exists>b''. board_exception dev (phys_device udev) im clob scratch IRQ b' = Some b''))"
proof -
  obtain b where b: "irq_kmain (phys_device udev) im clob scratch b0 = Some b" "PC (core b) = loop_address im"
    "board_inv im tick (printed b) (SP (core b0)) b"
    using irq_kmain_boots [OF assms] by blast
  show ?thesis
  proof (rule exI [of _ b], intro conjI b(1,2) allI impI)
    fix b'
    assume "board_run dev (phys_device udev) im clob scratch b b'"
    then show i: "board_inv im tick (printed b) (SP (core b0)) b'" by (rule board_inv_run [OF _ assms(1,2) b(3)])
    show "\<exists>m. instruction im (core b') = Some m" by (rule board_inv_progress [OF i assms(2)])
    show "\<exists>b''. board_exception dev (phys_device udev) im clob scratch IRQ b' = Some b''"
      using board_interrupt [OF assms(1,2)] by blast
  qed
qed

text \<open>
  C29. An interrupt hands EL1 to the program.  The handler returns to the link register of the
  interrupted program, whatever it holds, still on EL1 and with interrupts masked.  A program
  whose link register points into its own loop, as after a call, goes on there with the rights
  of the kernel, and no timer interrupt is ever taken again.
\<close>

theorem interrupt_returns_to_link_register:
  assumes "uart_live udev" and "image_ok im tick" and "PSTATE (core b) = 0"
  shows "\<exists>b'. board_step dev (phys_device udev) im clob scratch b b' \<and>
    PC (core b') = X (core b) 30 \<and> PSTATE (core b') = 0x3c5 \<and> ELR (core b') = PC (core b) \<and>
    (in_loop im (X (core b) 30) \<longrightarrow> (\<forall>b''. board_run dev (phys_device udev) im clob scratch b' b'' \<longrightarrow>
       PSTATE (core b'') = 0x3c5 \<and> in_loop im (PC (core b'')) \<and> timer_ticks b'' = timer_ticks b'))"
proof -
  obtain b' where e: "board_exception dev (phys_device udev) im clob scratch IRQ b = Some b'"
    and m: "core b' = c_return clob scratch (take_exception (vector_of (vectors_address im) IRQ 0) (core b))"
    using board_interrupt [OF assms(1,2), of dev clob scratch b] assms(3) by auto
  have "board_step dev (phys_device udev) im clob scratch b b'"
    by (rule interrupted [OF _ e]) (simp add: assms(3))
  moreover have "PC (core b') = X (core b) 30" "PSTATE (core b') = 0x3c5" "ELR (core b') = PC (core b)"
    by (simp_all add: m)
  ultimately show ?thesis using masked_loop [OF _ _ _ assms(2)] by metis
qed

section \<open>The properties at concrete states\<close>

text \<open>The addresses of \<^verbatim>\<open>kernel-interrupts/kernel.elf\<close>; all its messages are the empty string here.\<close>

definition interrupts_elf :: irq_image where
  "interrupts_elf = \<lparr>loop_address = 0x400012d4, behind_puts = 0x400012c8, vectors_address = 0x40000800, rodata = (\<lambda>_. 0),
     msg_starting = 1, msg_enable = 2, msg_jump = 3, msg_set = 4, msg_tick = 5, msg_el1_sync = 6, msg_el0_sync = 7\<rparr>"

definition interrupts_reset :: board where
  "interrupts_reset = \<lparr>core = user_machine\<lparr>SP := 0x40010000, PSTATE := 0x3c5\<rparr>,
     kern = \<lparr>gic_bus = [], CNTV_TVAL_EL0 = 0, CNTV_CTL_EL0 = 0, CNTFRQ_EL0 = 62500000, cntfrq = 0, SPSR_EL1 = 0, jiffies = 0\<rparr>,
     console = []\<rparr>"

lemma interrupts_elf_ok: "image_ok interrupts_elf []"
  by (auto simp: image_ok_def interrupts_elf_def intro: exI [of _ "[]"])

lemma interrupts_reset_zero: "jiffies (kern interrupts_reset) = 0" "timer_ticks interrupts_reset = 0"
  by (simp_all add: interrupts_reset_def timer_ticks_def)

theorem busy_program_survives_witness:
  "\<exists>b. irq_kmain (phys_device ready_uart) interrupts_elf (\<lambda>_ _. 0) words interrupts_reset = Some b \<and>
     PC (core b) = 0x400012d4 \<and> SP_EL0 (core b) = 0x40020000"
proof -
  obtain b where b: "irq_kmain (phys_device ready_uart) interrupts_elf (\<lambda>_ _. 0) words interrupts_reset = Some b"
    "PC (core b) = loop_address interrupts_elf"
    and r: "\<And>b'. board_run (\<lambda>_ _. 27) (phys_device ready_uart) interrupts_elf (\<lambda>_ _. 0) words b b' \<Longrightarrow>
      board_inv interrupts_elf [] (printed b) (SP (core interrupts_reset)) b'"
    using busy_program_survives [OF ready_uart_live interrupts_elf_ok interrupts_reset_zero,
        where clob = "\<lambda>_ _. 0" and scratch = words and dev = "\<lambda>_ _. 27"] by blast
  show ?thesis
    using b r [OF run_refl] by (intro exI [of _ b]) (simp add: board_inv_def, simp add: interrupts_elf_def)
qed

theorem interrupt_returns_to_link_register_witness:
  "\<exists>b'. board_step (\<lambda>_ _. 27) (phys_device ready_uart) interrupts_elf (\<lambda>_ _. 0) words
      (interrupts_reset\<lparr>core := user_machine\<rparr>) b' \<and> PC (core b') = 30 \<and> PSTATE (core b') = 0x3c5"
proof -
  have "PSTATE (core (interrupts_reset\<lparr>core := user_machine\<rparr>)) = 0" by (simp add: user_machine_def)
  from interrupt_returns_to_link_register [OF ready_uart_live interrupts_elf_ok this, where clob = "\<lambda>_ _. 0"
      and scratch = words and dev = "\<lambda>_ _. 27"]
  obtain b' where "board_step (\<lambda>_ _. 27) (phys_device ready_uart) interrupts_elf (\<lambda>_ _. 0) words
      (interrupts_reset\<lparr>core := user_machine\<rparr>) b'" "PC (core b') = X user_machine 30" "PSTATE (core b') = 0x3c5"
    by auto
  then show ?thesis by (intro exI [of _ b']) (simp, simp add: user_machine_def)
qed

end
