(* ===== verification/SerialLog.thy ===== *)
theory SerialLog
  imports Uart
begin

text \<open>
  Code that prints while it computes: a function of the bus of the serial port whose result is \<open>None\<close> when
  it polls for ever.  \<open>yields\<close> says which value such code can return, \<open>writes\<close> that it returns it and what it
  has printed then.  The locale \<open>serial_log\<close> is what the logging code relies on: a way of printing the
  string at an address; \<open>message_log\<close> extends it with messages at fixed addresses.
\<close>

section \<open>Printing computations\<close>

type_synonym 'a printing = "bus \<Rightarrow> ('a \<times> bus) option"

definition ret :: "'a \<Rightarrow> 'a printing" where
  "ret x = (\<lambda>c. Some (x, c))"

definition and_then :: "'a printing \<Rightarrow> ('a \<Rightarrow> 'b printing) \<Rightarrow> 'b printing" where
  "and_then f g = (\<lambda>c. Option.bind (f c) (\<lambda>(x, c). g x c))"

text \<open>A driver call, which returns nothing.\<close>

definition print :: "(bus \<Rightarrow> bus option) \<Rightarrow> unit printing" where
  "print f = (\<lambda>c. map_option (Pair ()) (f c))"

section \<open>What they return and print\<close>

definition yields :: "'a printing \<Rightarrow> 'a \<Rightarrow> bool" where
  "yields f x \<longleftrightarrow> (\<forall>c y c'. f c = Some (y, c') \<longrightarrow> y = x)"

definition writes :: "(bus \<Rightarrow> u8 list) \<Rightarrow> 'a printing \<Rightarrow> 'a \<Rightarrow> u8 list \<Rightarrow> bool" where
  "writes out f x n \<longleftrightarrow> (\<forall>c. \<exists>c'. f c = Some (x, c') \<and> out c' = out c @ n)"

named_theorems yields_rules \<open>the values a printing computation returns\<close>

lemma yields_ret [yields_rules]: "x = y \<Longrightarrow> yields (ret x) y"
  by (simp add: yields_def ret_def)

lemma yields_and_then: "yields f x \<Longrightarrow> yields (g x) y \<Longrightarrow> yields (and_then f g) y"
  unfolding yields_def and_then_def
proof (intro allI impI)
  fix c z c'
  assume f: "\<forall>c y c'. f c = Some (y, c') \<longrightarrow> y = x" and g: "\<forall>c z c'. g x c = Some (z, c') \<longrightarrow> z = y"
    and run: "Option.bind (f c) (\<lambda>(x, c). g x c) = Some (z, c')"
  from run obtain x' c1 where "f c = Some (x', c1)" "g x' c1 = Some (z, c')"
    by (cases "f c") auto
  with f g show "z = y" by blast
qed

lemma yields_print [yields_rules]: "yields (print f) ()"
  by (simp add: yields_def)

lemma yields_after_print [yields_rules]: "yields (g ()) y \<Longrightarrow> yields (and_then (print f) g) y"
  by (rule yields_and_then [OF yields_print])

lemma writes_ret: "writes out (ret x) x []"
  by (simp add: writes_def ret_def)

lemma writes_and_then: "writes out f x m \<Longrightarrow> writes out (g x) y n \<Longrightarrow> writes out (and_then f g) y (m @ n)"
  unfolding writes_def and_then_def
proof
  fix c
  assume f: "\<forall>c. \<exists>c'. f c = Some (x, c') \<and> out c' = out c @ m" and g: "\<forall>c. \<exists>c'. g x c = Some (y, c') \<and> out c' = out c @ n"
  from f obtain c1 where c1: "f c = Some (x, c1)" "out c1 = out c @ m" by blast
  from g obtain c2 where "g x c1 = Some (y, c2)" "out c2 = out c1 @ n" by blast
  with c1 show "\<exists>c'. Option.bind (f c) (\<lambda>(x, c). g x c) = Some (y, c') \<and> out c' = out c @ m @ n" by simp
qed

lemma writes_then_ret: "writes out f x n \<Longrightarrow> writes out (and_then f (\<lambda>_. ret y)) y n"
  using writes_and_then [of out f x n "\<lambda>_. ret y" y "[]"] writes_ret [of out y] by simp

lemma writes_yields: "writes out f x n \<Longrightarrow> yields f x"
  by (simp add: writes_def yields_def) (metis option.inject prod.inject)

section \<open>The interface of the log\<close>

text \<open>
  \<open>put p a\<close> prints the string at \<open>a\<close>; \<open>holds p a n\<close> says that the port works and the bytes at \<open>a\<close> are \<open>n\<close>.
\<close>

locale serial_log =
  fixes put :: "'p \<Rightarrow> u64 \<Rightarrow> bus \<Rightarrow> bus option"
    and out :: "bus \<Rightarrow> u8 list"
    and holds :: "'p \<Rightarrow> u64 \<Rightarrow> u8 list \<Rightarrow> bool"
  assumes put_out: "holds p a n \<Longrightarrow> \<exists>c'. put p a c = Some c' \<and> out c' = out c @ n"
begin

lemma writes_put: "holds p a n \<Longrightarrow> writes out (print (put p a)) () n"
  unfolding writes_def print_def
proof
  fix c
  assume "holds p a n"
  from put_out [OF this, of c] obtain c' where "put p a c = Some c'" "out c' = out c @ n" by blast
  then show "\<exists>c'. map_option (Pair ()) (put p a c) = Some ((), c') \<and> out c' = out c @ n" by simp
qed

text \<open>Three strings in a row, the middle one mostly a name.\<close>

lemma put_three:
  assumes "holds p a1 n1" and "holds p a2 n2" and "holds p a3 n3"
  shows "\<exists>c'. Option.bind (put p a1 c) (\<lambda>c. Option.bind (put p a2 c) (put p a3)) = Some c' \<and> out c' = out c @ n1 @ n2 @ n3"
proof -
  obtain c1 where c1: "put p a1 c = Some c1" "out c1 = out c @ n1" using put_out [OF assms(1)] by blast
  obtain c2 where c2: "put p a2 c1 = Some c2" "out c2 = out c1 @ n2" using put_out [OF assms(2)] by blast
  obtain c3 where "put p a3 c2 = Some c3" "out c3 = out c2 @ n3" using put_out [OF assms(3)] by blast
  with c1 c2 show ?thesis by simp
qed

lemma writes_three:
  assumes "holds p a1 n1" and "holds p a2 n2" and "holds p a3 n3"
  shows "writes out (and_then (print (put p a1)) (\<lambda>_. and_then (print (put p a2)) (\<lambda>_. print (put p a3)))) () (n1 @ n2 @ n3)"
  by (rule writes_and_then [OF writes_put [OF assms(1)] writes_and_then [OF writes_put [OF assms(2)] writes_put [OF assms(3)]]])

end

text \<open>
  A log with fixed messages: \<open>addr p m\<close> is where the linker put the text of the message \<open>m\<close>, and \<open>ready p\<close> says
  that the port works and all of them are there.
\<close>

locale message_log = serial_log put out holds
  for put :: "'p \<Rightarrow> u64 \<Rightarrow> bus \<Rightarrow> bus option" and out :: "bus \<Rightarrow> u8 list" and holds :: "'p \<Rightarrow> u64 \<Rightarrow> u8 list \<Rightarrow> bool" +
  fixes addr :: "'p \<Rightarrow> 'm \<Rightarrow> u64"
    and msg :: "'m \<Rightarrow> u8 list"
    and ready :: "'p \<Rightarrow> bool"
  assumes message_text: "ready p \<Longrightarrow> holds p (addr p m) (msg m)"
begin

lemma writes_message: "ready p \<Longrightarrow> writes out (print (put p (addr p m))) () (msg m)"
  by (rule writes_put [OF message_text])

text \<open>A line: a string between two messages.\<close>

lemma put_line:
  "ready p \<Longrightarrow> holds p a n \<Longrightarrow>
   \<exists>c'. Option.bind (put p (addr p m) c) (\<lambda>c. Option.bind (put p a c) (put p (addr p m'))) = Some c' \<and>
     out c' = out c @ msg m @ n @ msg m'"
  by (rule put_three [OF message_text _ message_text])

lemma writes_line:
  "ready p \<Longrightarrow> holds p a n \<Longrightarrow>
   writes out (and_then (print (put p (addr p m))) (\<lambda>_. and_then (print (put p a)) (\<lambda>_. print (put p (addr p m'))))) () (msg m @ n @ msg m')"
  by (rule writes_three [OF message_text _ message_text])

end

end
