(* ===== verification/LogSched.thy ===== *)
theory LogSched
  imports Handlers SerialLog
begin

text \<open>
  The scheduler of \<^verbatim>\<open>kernel-simple-mmu\<close> with its output.  \<^verbatim>\<open>core/scheduler/sched.c\<close>, \<^verbatim>\<open>timer.c\<close> and the
  interrupt half of \<^verbatim>\<open>core/handlers.c\<close> have the statements of the present kernel, which are modelled
  in \<open>Sched\<close>, \<open>Irq\<close> and \<open>Handlers\<close>, and print between them, inside the interrupt.  Here every operation
  is a function of the scheduler's state and of the bus of the serial port; \<open>None\<close> is a run that
  polls for ever.
\<close>

section \<open>The messages\<close>

abbreviation nl :: string where "nl \<equiv> [CHR 0x0A]"

datatype message = Push_empty | Push_empty_end | Push_tail | Push_tail_end | Pop_next | Pop_next_end
  | Enqueue | Enqueue_end | Tick_after | Tick_done | Tick_done_end | Tick_switch | Set_running | Set_running_end
  | Read_back | Setting_back | Irq_fired

primrec literal :: "message \<Rightarrow> string" where
  "literal Push_empty = nl @ ''push to head/tail--''"
| "literal Push_empty_end = ''--push to head/tail'' @ nl"
| "literal Push_tail = nl @ ''push to tail--''"
| "literal Push_tail_end = ''--push to tail'' @ nl"
| "literal Pop_next = nl @ ''PNEXT--''"
| "literal Pop_next_end = ''--NEXT'' @ nl"
| "literal Enqueue = nl @ ''sched_ready_enqueue--''"
| "literal Enqueue_end = ''--sched_ready_enqueue'' @ nl"
| "literal Tick_after = ''Done one Tick after, we are in EL1'' @ nl"
| "literal Tick_done = nl @ ''current-tick-done--''"
| "literal Tick_done_end = ''--current-tick-done'' @ nl"
| "literal Tick_switch = ''Done one Tick, we are in EL1'' @ nl"
| "literal Set_running = nl @ ''set-running--''"
| "literal Set_running_end = ''--set-running'' @ nl"
| "literal Read_back = ''read back: %l'' @ nl"
| "literal Setting_back = ''setting back: %l'' @ nl"
| "literal Irq_fired = ''Timer IRQ handler fired for return address %l , EL: %l'' @ nl"

definition bytes_of :: "string \<Rightarrow> u8 list" where
  "bytes_of s = map of_char s"

text \<open>The serial port, the memory that holds the strings, and where the linker put each of them.\<close>

record printer =
  port :: device
  strings :: "u64 \<Rightarrow> u8"
  address_of :: "message \<Rightarrow> u64"

definition puts :: "printer \<Rightarrow> u64 \<Rightarrow> bus \<Rightarrow> bus option" where
  "puts p a c = uart_puts (port p) (strings p) a c"

text \<open>A task name between two literals.\<close>

definition puts_name :: "printer \<Rightarrow> message \<Rightarrow> u64 \<Rightarrow> message \<Rightarrow> bus \<Rightarrow> bus option" where
  "puts_name p before name after c =
    Option.bind (puts p (address_of p before) c) (\<lambda>c.
    Option.bind (puts p name c) (\<lambda>c. puts p (address_of p after) c))"

definition printf_l :: "printer \<Rightarrow> message \<Rightarrow> u64 list \<Rightarrow> bus \<Rightarrow> bus option" where
  "printf_l p fmt vs c = uart_printf (port p) (strings p) (address_of p fmt) (\<lambda>i. vs ! i) c"

section \<open>timer.c\<close>

definition log_set_cntv :: "printer \<Rightarrow> 'a irq_state_scheme \<Rightarrow> bus \<Rightarrow> ('a irq_state_scheme \<times> bus) option" where
  "log_set_cntv p s c =
    (let s = read_cntfrq s in
     Option.bind (printf_l p Read_back [cntfrq s] c) (\<lambda>c.
     let our_freq = cntfrq s div 10 in
     Option.bind (printf_l p Setting_back [our_freq] c) (\<lambda>c.
     Some (msr_cntv_tval our_freq s, c))))"

definition log_timer_init_1khz :: "printer \<Rightarrow> 'a irq_state_scheme \<Rightarrow> bus \<Rightarrow> ('a irq_state_scheme \<times> bus) option" where
  "log_timer_init_1khz p s c =
    (let s = read_cntfrq s in
     Option.bind (log_set_cntv p s c) (\<lambda>(s, c). Some (enable_cntv s, c)))"

section \<open>sched.c\<close>

definition log_rq_push :: "printer \<Rightarrow> u64 \<Rightarrow> 'a sched_state_scheme \<Rightarrow> bus \<Rightarrow> ('a sched_state_scheme \<times> bus) option" where
  "log_rq_push p t s c =
    (if rq_tail s = 0 then
       let s = s\<lparr>rq_head := t, rq_tail := t\<rparr> in
       Option.bind (puts_name p Push_empty (task_name (tasks s t)) Push_empty_end c) (\<lambda>c. Some (s, c))
     else
       Option.bind (puts_name p Push_tail (task_name (tasks s t)) Push_tail_end c) (\<lambda>c.
       let s = upd_task (rq_tail s) (next_task_update (\<lambda>_. t)) s in
       Some (s\<lparr>rq_tail := t\<rparr>, c)))"

definition log_rq_pop :: "printer \<Rightarrow> 'a sched_state_scheme \<Rightarrow> bus \<Rightarrow> (u64 \<times> 'a sched_state_scheme \<times> bus) option" where
  "log_rq_pop p s c =
    (let t = rq_head s in
     if t = 0 then Some (0, s, c)
     else
       let s = s\<lparr>rq_head := next_task (tasks s t)\<rparr> in
       Option.bind (if rq_head s \<noteq> 0 then puts_name p Pop_next (task_name (tasks s (rq_head s))) Pop_next_end c else Some c) (\<lambda>c.
       let s = (if rq_head s = 0 then s\<lparr>rq_tail := 0\<rparr> else s);
           s = upd_task t (next_task_update (\<lambda>_. 0)) s;
           b = rq_head s
       in Some (b, s, c)))"

definition log_sched_ready_enqueue :: "printer \<Rightarrow> u64 \<Rightarrow> 'a sched_state_scheme \<Rightarrow> bus \<Rightarrow> ('a sched_state_scheme \<times> bus) option" where
  "log_sched_ready_enqueue p t s c =
    (let s = upd_task t (task_state_update (\<lambda>_. READY)) s;
         s = upd_task t (slice_left_update (\<lambda>_. RR_SLICE_TICKS)) s
     in Option.bind (puts_name p Enqueue (task_name (tasks s t)) Enqueue_end c) (log_rq_push p t s))"

text \<open>\<open>schedule_on_tick\<close> from the call of \<open>rq_pop\<close> on, and as a whole.\<close>

definition log_schedule_next :: "printer \<Rightarrow> u64 \<Rightarrow> 'a sched_state_scheme \<Rightarrow> bus \<Rightarrow> (u64 \<times> 'a sched_state_scheme \<times> bus) option" where
  "log_schedule_next p tf s c =
    Option.bind (log_rq_pop p s c) (\<lambda>(next, s, c).
     if next = 0 then
       (if current s \<noteq> 0 then Some (task_context (tasks s (current s)), s, c) else Some (tf, s, c))
     else
       let s = upd_task next (task_state_update (\<lambda>_. RUNNING)) s;
           s = s\<lparr>current := next\<rparr>
       in Option.bind (puts p (address_of p Tick_switch) c) (\<lambda>c.
          Option.bind (puts_name p Set_running (task_name (tasks s (current s))) Set_running_end c) (\<lambda>c.
          Option.bind (log_set_cntv p s c) (\<lambda>(s, c). Some (task_context (tasks s (current s)), s, c)))))"

definition log_schedule_on_tick :: "printer \<Rightarrow> u64 \<Rightarrow> 'a sched_state_scheme \<Rightarrow> bus \<Rightarrow> (u64 \<times> 'a sched_state_scheme \<times> bus) option" where
  "log_schedule_on_tick p tf s c =
    (if current s \<noteq> 0 \<and> task_state (tasks s (current s)) = RUNNING then
       let s = upd_task (current s) (task_context_update (\<lambda>_. tf)) s;
           s = upd_task (current s) (slice_left_update (\<lambda>n. n - 1)) s
       in if slice_left (tasks s (current s)) > 0 then Some (task_context (tasks s (current s)), s, c)
       else
         Option.bind (puts p (address_of p Tick_after) c) (\<lambda>c.
         let s = upd_task (current s) (slice_left_update (\<lambda>_. RR_SLICE_TICKS)) s;
             s = upd_task (current s) (task_state_update (\<lambda>_. READY)) s
         in Option.bind (puts_name p Tick_done (task_name (tasks s (current s))) Tick_done_end c) (\<lambda>c.
            Option.bind (log_rq_push p (current s) s c) (\<lambda>(s, c). log_schedule_next p tf s c)))
     else log_schedule_next p tf s c)"

section \<open>handlers.c\<close>

text \<open>\<open>elr\<close> is the field \<open>elr_el1\<close> of the context at an address, which the message shows.\<close>

definition log_irq_dispatcher :: "device \<Rightarrow> printer \<Rightarrow> (u64 \<Rightarrow> u64) \<Rightarrow> u64 \<Rightarrow> 'a sched_state_scheme \<Rightarrow> bus \<Rightarrow> (u64 \<times> 'a sched_state_scheme \<times> bus) option" where
  "log_irq_dispatcher dev p elr ctx s c =
    (let (iar, s) = gic_ack dev s; irq = iar AND 0x3FF in
     Option.bind
       (if irq = 27 then
          Option.bind (log_set_cntv p s c) (\<lambda>(s, c).
          let el = check_current_el s in
          Option.bind (printf_l p Irq_fired [elr ctx, el] c) (\<lambda>c.
          if el = 0 then log_schedule_on_tick p ctx s c else Some (ctx, s, c)))
        else Some (ctx, s, c))
       (\<lambda>(ctx, s, c). Some (ctx, gic_eoi iar s, c)))"

section \<open>The output does not disturb the scheduler\<close>

text \<open>
  An operation with output \<open>extends\<close> the one without when, on every serial port, it leaves what that
  one leaves whenever it returns.
\<close>

named_theorems silent \<open>what an operation that printed has done to the state\<close>

lemma log_set_cntv_silent [silent]: "log_set_cntv p s c = Some (s', c') \<Longrightarrow> s' = set_cntv s"
  by (auto simp: log_set_cntv_def set_cntv_def Let_def bind_eq_Some_conv)

lemma log_rq_push_silent [silent]: "log_rq_push p t s c = Some (s', c') \<Longrightarrow> s' = rq_push t s"
  by (auto simp: log_rq_push_def rq_push_def Let_def bind_eq_Some_conv split: if_splits)

lemma log_rq_pop_silent [silent]: "log_rq_pop p s c = Some (b, s', c') \<Longrightarrow> rq_pop s = (b, s')"
  by (auto simp: log_rq_pop_def rq_pop_def Let_def bind_eq_Some_conv split: if_splits)

lemma log_schedule_next_silent [silent]:
  "log_schedule_next p tf s c = Some (x, s', c') \<Longrightarrow> schedule_next tf s = (x, s')"
  by (auto simp: log_schedule_next_def schedule_next_def Let_def bind_eq_Some_conv
      dest!: log_rq_pop_silent log_set_cntv_silent split: if_splits)

lemma log_schedule_on_tick_silent [silent]:
  "log_schedule_on_tick p tf s c = Some (x, s', c') \<Longrightarrow> schedule_on_tick tf s = (x, s')"
  by (auto simp: log_schedule_on_tick_def schedule_on_tick_def Let_def bind_eq_Some_conv
      dest!: log_rq_push_silent log_schedule_next_silent split: if_splits)

lemma log_irq_dispatcher_silent:
  "log_irq_dispatcher dev p elr ctx s c = Some (x, s', c') \<Longrightarrow> irq_dispatcher dev ctx s = (x, s')"
  by (auto simp: log_irq_dispatcher_def irq_dispatcher_def timer_irq_handler_def Let_def bind_eq_Some_conv split_beta
      dest!: log_set_cntv_silent log_schedule_on_tick_silent split: if_splits)


section \<open>The output on a working serial port\<close>

definition printer_ok :: "printer \<Rightarrow> bool" where
  "printer_ok p \<longleftrightarrow> uart_live (port p) \<and> (\<forall>m. cstring (strings p) (address_of p m) (bytes_of (literal m)))"

definition name_line :: "message \<Rightarrow> u8 list \<Rightarrow> message \<Rightarrow> u8 list" where
  "name_line before n after = bytes_of (literal before) @ n @ bytes_of (literal after)"

text \<open>What a write of the timer prints for the frequency \<open>f\<close>, and what the dispatcher prints.\<close>

definition timer_log :: "u64 \<Rightarrow> u8 list" where
  "timer_log f = bytes_of ''read back: '' @ decimal (unat f) @ bytes_of nl @ bytes_of ''setting back: '' @
     decimal (unat (f div 10)) @ bytes_of nl"

definition fired_log :: "u64 \<Rightarrow> u64 \<Rightarrow> u8 list" where
  "fired_log a el = bytes_of ''Timer IRQ handler fired for return address '' @ decimal (unat a) @ bytes_of '' , EL: '' @
     decimal (unat el) @ bytes_of nl"

text \<open>What a switch from the task named \<open>a\<close> to the task named \<open>b\<close> prints.\<close>

definition switch_log :: "u8 list \<Rightarrow> u8 list \<Rightarrow> u64 \<Rightarrow> u8 list" where
  "switch_log a b f = bytes_of (literal Tick_after) @ name_line Tick_done a Tick_done_end @
     name_line Push_tail a Push_tail_end @ name_line Pop_next b Pop_next_end @ bytes_of (literal Tick_switch) @
     name_line Set_running b Set_running_end @ timer_log f"

lemma bytes_of_append: "bytes_of (xs @ ys) = bytes_of xs @ bytes_of ys"
  by (simp add: bytes_of_def)

lemma puts_live:
  "printer_ok p \<Longrightarrow> cstring (strings p) a n \<Longrightarrow> \<exists>c'. puts p a c = Some c' \<and> data_out c' = data_out c @ n"
  unfolding printer_ok_def puts_def using uart_puts_live by blast

lemma literal_live:
  "printer_ok p \<Longrightarrow> \<exists>c'. puts p (address_of p m) c = Some c' \<and> data_out c' = data_out c @ bytes_of (literal m)"
  by (rule puts_live) (simp_all add: printer_ok_def)

interpretation smmu_log: message_log puts data_out "\<lambda>p a n. printer_ok p \<and> cstring (strings p) a n"
    address_of "\<lambda>m. bytes_of (literal m)" printer_ok
  by unfold_locales (auto intro: puts_live simp: printer_ok_def simp del: literal.simps)

lemma puts_name_live:
  assumes "printer_ok p" and "cstring (strings p) a n"
  shows "\<exists>c'. puts_name p before a after c = Some c' \<and> data_out c' = data_out c @ name_line before n after"
  using smmu_log.put_line [of p a n before c after] assms by (simp add: puts_name_def name_line_def)

lemma printf_l_live:
  assumes "printer_ok p" and "args_ok (strings p) (\<lambda>_. []) (bytes_of (literal m)) (\<lambda>i. vs ! i) 0"
  shows "\<exists>c'. printf_l p m vs c = Some c' \<and> data_out c' = data_out c @ printf_bytes (\<lambda>_. []) (bytes_of (literal m)) (\<lambda>i. vs ! i) 0"
proof -
  have live: "uart_live (port p)" and s: "cstring (strings p) (address_of p m) (bytes_of (literal m))"
    using assms(1) by (simp_all add: printer_ok_def)
  have "args_ok (strings p) (\<lambda>_. []) (drop 0 (bytes_of (literal m))) (\<lambda>i. vs ! i) 0" using assms(2) by simp
  from printf_loop_live [OF live s this, of c] show ?thesis
    by (simp add: printf_l_def uart_printf_def strulen_cstring [OF s])
qed

lemma formats:
  "args_ok m str (bytes_of (literal Read_back)) vs 0" "args_ok m str (bytes_of (literal Setting_back)) vs 0"
  "args_ok m str (bytes_of (literal Irq_fired)) vs 0"
  "printf_bytes str (bytes_of (literal Read_back)) vs 0 = bytes_of ''read back: '' @ decimal (unat (vs 0)) @ bytes_of nl"
  "printf_bytes str (bytes_of (literal Setting_back)) vs 0 = bytes_of ''setting back: '' @ decimal (unat (vs 0)) @ bytes_of nl"
  "printf_bytes str (bytes_of (literal Irq_fired)) vs 0 = fired_log (vs 0) (vs 1)"
  by (simp_all add: bytes_of_def fired_log_def arg_bytes_def)

lemma log_set_cntv_live:
  assumes "printer_ok p"
  shows "\<exists>c'. log_set_cntv p s c = Some (set_cntv s, c') \<and> data_out c' = data_out c @ timer_log (CNTFRQ_EL0 s)"
proof -
  obtain c1 where c1: "printf_l p Read_back [CNTFRQ_EL0 s] c = Some c1"
    "data_out c1 = data_out c @ bytes_of ''read back: '' @ decimal (unat (CNTFRQ_EL0 s)) @ bytes_of nl"
    using printf_l_live [OF assms formats(1), of "[CNTFRQ_EL0 s]" c, unfolded formats(4)] by auto
  obtain c2 where c2: "printf_l p Setting_back [CNTFRQ_EL0 s div 10] c1 = Some c2"
    "data_out c2 = data_out c1 @ bytes_of ''setting back: '' @ decimal (unat (CNTFRQ_EL0 s div 10)) @ bytes_of nl"
    using printf_l_live [OF assms formats(2), of "[CNTFRQ_EL0 s div 10]" c1, unfolded formats(5)] by auto
  show ?thesis
    using c1 c2 by (simp add: log_set_cntv_def set_cntv_def read_cntfrq_def timer_log_def bytes_of_append)
qed

lemma log_rq_push_live:
  assumes "printer_ok p" and "rq_tail s \<noteq> 0" and "cstring (strings p) (task_name (tasks s t)) n"
  shows "\<exists>c'. log_rq_push p t s c = Some (rq_push t s, c') \<and> data_out c' = data_out c @ name_line Push_tail n Push_tail_end"
  using puts_name_live [OF assms(1,3), of Push_tail Push_tail_end c] assms(2)
  by (auto simp: log_rq_push_def rq_push_def Let_def)

lemma log_rq_pop_live:
  assumes "printer_ok p" and "fst (rq_pop s) \<noteq> 0" and "cstring (strings p) (task_name (tasks s (fst (rq_pop s)))) n"
  shows "\<exists>c'. log_rq_pop p s c = Some (fst (rq_pop s), snd (rq_pop s), c') \<and> data_out c' = data_out c @ name_line Pop_next n Pop_next_end"
proof -
  have h: "rq_head s \<noteq> 0" "fst (rq_pop s) = next_task (tasks s (rq_head s))"
    using assms(2) by (auto simp: rq_pop_def Let_def split: if_splits)
  then show ?thesis
    using puts_name_live [OF assms(1,3), of Pop_next Pop_next_end c] assms(2)
    by (auto simp: log_rq_pop_def rq_pop_def Let_def)
qed

lemma task_names [simp]:
  "task_name (tasks (rq_push t s) a) = task_name (tasks s a)" "task_name (tasks (snd (rq_pop s)) a) = task_name (tasks s a)"
  by (simp_all add: rq_push_def rq_pop_def upd_task_def Let_def)

lemma queue_frequency [simp]:
  "CNTFRQ_EL0 (rq_push t s) = CNTFRQ_EL0 s" "CNTFRQ_EL0 (snd (rq_pop s)) = CNTFRQ_EL0 s" "CNTFRQ_EL0 (upd_task t f s) = CNTFRQ_EL0 s"
  by (simp_all add: rq_push_def rq_pop_def upd_task_def Let_def)

lemma log_schedule_next_live:
  assumes "printer_ok p" and "fst (rq_pop s) \<noteq> 0" and "cstring (strings p) (task_name (tasks s (fst (rq_pop s)))) n"
  shows "\<exists>c'. log_schedule_next p tf s c = Some (fst (schedule_next tf s), snd (schedule_next tf s), c') \<and>
    data_out c' = data_out c @ name_line Pop_next n Pop_next_end @ bytes_of (literal Tick_switch) @
      name_line Set_running n Set_running_end @ timer_log (CNTFRQ_EL0 s)"
proof -
  let ?b = "fst (rq_pop s)"
  let ?s = "(upd_task ?b (task_state_update (\<lambda>_. RUNNING)) (snd (rq_pop s)))\<lparr>current := ?b\<rparr>"
  have n: "cstring (strings p) (task_name (tasks ?s ?b)) n" using assms(3) by simp
  obtain c1 where c1: "log_rq_pop p s c = Some (?b, snd (rq_pop s), c1)" "data_out c1 = data_out c @ name_line Pop_next n Pop_next_end"
    using log_rq_pop_live [OF assms] by blast
  obtain c2 where c2: "puts p (address_of p Tick_switch) c1 = Some c2" "data_out c2 = data_out c1 @ bytes_of (literal Tick_switch)"
    using literal_live [OF assms(1)] by blast
  obtain c3 where c3: "puts_name p Set_running (task_name (tasks ?s ?b)) Set_running_end c2 = Some c3"
    "data_out c3 = data_out c2 @ name_line Set_running n Set_running_end"
    using puts_name_live [OF assms(1) n] by blast
  obtain c4 where c4: "log_set_cntv p ?s c3 = Some (set_cntv ?s, c4)" "data_out c4 = data_out c3 @ timer_log (CNTFRQ_EL0 ?s)"
    using log_set_cntv_live [OF assms(1)] by blast
  show ?thesis
    using c1 c2 c3 c4 assms(2) by (simp add: log_schedule_next_def schedule_next_def split_beta Let_def)
qed

lemma log_schedule_on_tick_live:
  assumes "printer_ok p" and "sched_inv s xs k" and "\<forall>t \<in> set xs. cstring (strings p) (task_name (tasks s t)) (name t)"
  shows "\<exists>c'. log_schedule_on_tick p tf s c = Some (fst (schedule_on_tick tf s), snd (schedule_on_tick tf s), c') \<and>
    data_out c' = data_out c @ (if 1 < k then [] else switch_log (name (hd xs)) (name (hd (rotate1 xs))) (CNTFRQ_EL0 s))"
proof -
  note inv = assms(2) [unfolded sched_inv_def]
  have cur: "current s = hd xs" "hd xs \<noteq> 0" "task_state (tasks s (hd xs)) = RUNNING" "slice_left (tasks s (hd xs)) = int k"
    using inv sched_inv_hd [OF assms(2)] by auto
  show ?thesis
  proof (cases "1 < k")
    case True
    then show ?thesis using cur by (simp add: log_schedule_on_tick_def schedule_on_tick_def Let_def)
  next
    case False
    let ?t = "hd xs"
    define r where "r = upd_task ?t (task_state_update (\<lambda>_. READY)) (upd_task ?t (slice_left_update (\<lambda>_. RR_SLICE_TICKS))
      (upd_task ?t (slice_left_update (\<lambda>n. n - 1)) (upd_task ?t (task_context_update (\<lambda>_. tf)) s)))"
    obtain x ys where xs: "xs = x # ys" using inv by (cases xs) auto
    have rep: "rq_rep r (x # ys)" using inv xs by (simp add: r_def rq_rep_upd_task)
    have tail: "rq_tail r \<noteq> 0"
    proof -
      have "rq_tail r = last (x # ys)" using rep by (simp add: rq_rep_def)
      then show ?thesis using rq_rep_nonnull [OF rep] last_in_set [of "x # ys"] by force
    qed
    have nx: "fst (rq_pop (rq_push x r)) = hd (rotate1 xs)" using rq_rotate_rep(1) [OF rep] xs by simp
    have in_ring: "hd (rotate1 xs) \<in> set xs" "x \<in> set xs" using xs by (cases ys; simp)+
    then have nz: "fst (rq_pop (rq_push x r)) \<noteq> 0" using rq_rep_nonnull [OF rep] xs nx by force
    have names: "cstring (strings p) (task_name (tasks r t)) (name t)" if "t \<in> set xs" for t
      using assms(3) that by (auto simp: r_def)
    obtain c1 where c1: "puts p (address_of p Tick_after) c = Some c1" "data_out c1 = data_out c @ bytes_of (literal Tick_after)"
      using literal_live [OF assms(1)] by blast
    obtain c2 where c2: "puts_name p Tick_done (task_name (tasks r x)) Tick_done_end c1 = Some c2"
      "data_out c2 = data_out c1 @ name_line Tick_done (name x) Tick_done_end"
      using puts_name_live [OF assms(1) names [OF in_ring(2)]] by blast
    obtain c3 where c3: "log_rq_push p x r c2 = Some (rq_push x r, c3)"
      "data_out c3 = data_out c2 @ name_line Push_tail (name x) Push_tail_end"
      using log_rq_push_live [OF assms(1) tail names [OF in_ring(2)]] by blast
    have "cstring (strings p) (task_name (tasks (rq_push x r) (fst (rq_pop (rq_push x r))))) (name (hd (rotate1 xs)))"
      using names [OF in_ring(1)] nx by simp
    from log_schedule_next_live [OF assms(1) nz this, of tf c3]
    obtain c4 where c4: "log_schedule_next p tf (rq_push x r) c3 =
        Some (fst (schedule_next tf (rq_push x r)), snd (schedule_next tf (rq_push x r)), c4)"
      "data_out c4 = data_out c3 @ name_line Pop_next (name (hd (rotate1 xs))) Pop_next_end @ bytes_of (literal Tick_switch) @
        name_line Set_running (name (hd (rotate1 xs))) Set_running_end @ timer_log (CNTFRQ_EL0 (rq_push x r))"
      by blast
    have f: "CNTFRQ_EL0 (rq_push x r) = CNTFRQ_EL0 s" "current r = x" "hd xs = x" using cur xs by (simp_all add: r_def)
    have k: "\<not> 0 < int k - 1" using False by simp
    have "log_schedule_on_tick p tf s c = log_schedule_next p tf (rq_push x r) c3"
      using cur k c1(1) c2(1) c3(1) f by (simp add: log_schedule_on_tick_def Let_def) (simp add: r_def)
    moreover have "schedule_on_tick tf s = schedule_next tf (rq_push x r)"
      using cur k f by (simp add: schedule_on_tick_def Let_def) (simp add: r_def)
    moreover have "data_out c4 = data_out c @ switch_log (name x) (name (hd (rotate1 xs))) (CNTFRQ_EL0 s)"
      using c1(2) c2(2) c3(2) c4(2) f by (simp add: switch_log_def)
    ultimately show ?thesis using c4(1) False f by simp
  qed
qed


lemma acknowledge:
  "gic_ack dev s = (dev (gic_bus s) 0xffff00008141000C, acknowledged dev s)"
  by (simp add: prod_eq_iff VIRTUAL_GICC_def acknowledged_def)

lemma acknowledged_fields [simp]:
  "CNTFRQ_EL0 (acknowledged dev s) = CNTFRQ_EL0 s" "check_current_el (set_cntv (acknowledged dev s)) = check_current_el s"
  "CNTFRQ_EL0 (set_cntv s) = CNTFRQ_EL0 s" "sched_inv (set_cntv (acknowledged dev s)) xs k \<longleftrightarrow> sched_inv s xs k"
  "tasks (acknowledged dev s) = tasks s"
  by (simp_all add: acknowledged_def set_cntv_eq check_current_el_def)

section \<open>A serial port that is never ready\<close>

lemma putc_never: "(\<And>h. tx_full dev h) \<Longrightarrow> uart_putc dev c h = None"
proof -
  assume full: "\<And>h. tx_full dev h"
  have "uart_putc dev c h \<noteq> Some z" for z
  proof
    assume "uart_putc dev c h = Some z"
    then have "dev \<noteq> dev"
    proof (rule uart_putc.raw_induct [where P = "\<lambda>d _ _ _. d \<noteq> dev", rotated])
      fix putc d c h z
      assume IH: "\<And>d c h z. putc d c h = Some z \<Longrightarrow> d \<noteq> dev"
        and run: "(case read_status d h of (status, h) \<Rightarrow>
          if status AND push_bit 5 1 \<noteq> 0 then putc d c h else Some (write_data (ucast c) h)) = Some z"
      show "d \<noteq> dev"
        using run IH [of d c "snd (read_status d h)" z] full [of h, unfolded tx_full_def]
        by (auto simp: split_beta split: if_splits)
    qed
    then show False by simp
  qed
  then show ?thesis by (cases "uart_putc dev c h") blast+
qed

lemma log_set_cntv_never:
  assumes "\<And>h. tx_full (port p) h" and "cstring (strings p) (address_of p Read_back) (bytes_of (literal Read_back))"
  shows "log_set_cntv p s c = None"
proof -
  have l: "bytes_of (literal Read_back) = 114 # bytes_of (tl (literal Read_back))" by (simp add: bytes_of_def)
  have f: "strings p (address_of p Read_back) = 114" using assms(2) unfolding l by simp
  have "printf_loop (port p) (strings p) (address_of p Read_back) (length (bytes_of (literal Read_back))) args 0 0 c = None" for args
    by (subst printf_loop.simps) (simp add: l f putc_never [OF assms(1)] del: literal.simps)
  then show ?thesis
    by (simp add: log_set_cntv_def printf_l_def uart_printf_def strulen_cstring [OF assms(2)] Let_def del: literal.simps)
qed

section \<open>Properties\<close>

text \<open>
  C31. The output does not disturb the scheduler.  Whatever the serial port does, a timer interrupt
  of \<^verbatim>\<open>kernel-simple-mmu\<close> that returns has done what the dispatcher of the present kernel does
  and returns the same context.  On a working port it returns, and prints the interval it
  programs, the address and level it interrupts and, when it ends a slice, the name of the
  task that leaves and of the next of the ring.
\<close>

theorem log_irq_dispatcher_equivalent:
  assumes "sched_inv s xs k" and "\<forall>t \<in> set xs. cstring (strings p) (task_name (tasks s t)) (name t)"
  shows "(\<forall>x s' c'. log_irq_dispatcher dev p elr ctx s c = Some (x, s', c') \<longrightarrow> irq_dispatcher dev ctx s = (x, s')) \<and>
    (printer_ok p \<longrightarrow> (\<exists>c'. log_irq_dispatcher dev p elr ctx s c = Some (fst (irq_dispatcher dev ctx s), snd (irq_dispatcher dev ctx s), c') \<and>
      data_out c' = data_out c @
        (if dev (gic_bus s) 0xffff00008141000C AND 0x3FF \<noteq> 27 then []
         else timer_log (CNTFRQ_EL0 s) @ fired_log (elr ctx) (check_current_el s) @
           (if check_current_el s = 1 \<or> 1 < k then [] else switch_log (name (hd xs)) (name (hd (rotate1 xs))) (CNTFRQ_EL0 s)))))"
proof (intro conjI allI impI)
  fix x s' c'
  assume "log_irq_dispatcher dev p elr ctx s c = Some (x, s', c')"
  then show "irq_dispatcher dev ctx s = (x, s')" by (rule log_irq_dispatcher_silent)
next
  assume ok: "printer_ok p"
  let ?iar = "dev (gic_bus s) 0xffff00008141000C" and ?a = "set_cntv (acknowledged dev s)"
  obtain c1 where c1: "log_set_cntv p (acknowledged dev s) c = Some (?a, c1)" "data_out c1 = data_out c @ timer_log (CNTFRQ_EL0 s)"
    using log_set_cntv_live [OF ok, of "acknowledged dev s" c] by auto
  obtain c2 where c2: "printf_l p Irq_fired [elr ctx, check_current_el s] c1 = Some c2"
    "data_out c2 = data_out c1 @ fired_log (elr ctx) (check_current_el s)"
    using printf_l_live [OF ok formats(3), of "[elr ctx, check_current_el s]" c1, unfolded formats(6)] by auto
  have "\<forall>t \<in> set xs. cstring (strings p) (task_name (tasks ?a t)) (name t)" using assms(2) by simp
  from log_schedule_on_tick_live [OF ok _ this, of k ctx c2] assms(1)
  obtain c3 where c3: "log_schedule_on_tick p ctx ?a c2 = Some (fst (schedule_on_tick ctx ?a), snd (schedule_on_tick ctx ?a), c3)"
    "data_out c3 = data_out c2 @ (if 1 < k then [] else switch_log (name (hd xs)) (name (hd (rotate1 xs))) (CNTFRQ_EL0 s))"
    by auto
  let ?c' = "if ?iar AND 0x3FF \<noteq> 27 then c else if check_current_el s = 1 then c2 else c3"
  have el: "check_current_el s = 0 \<or> check_current_el s = 1" by (rule check_current_el_cases)
  show "\<exists>c'. log_irq_dispatcher dev p elr ctx s c = Some (fst (irq_dispatcher dev ctx s), snd (irq_dispatcher dev ctx s), c') \<and>
      data_out c' = data_out c @
        (if ?iar AND 0x3FF \<noteq> 27 then []
         else timer_log (CNTFRQ_EL0 s) @ fired_log (elr ctx) (check_current_el s) @
           (if check_current_el s = 1 \<or> 1 < k then [] else switch_log (name (hd xs)) (name (hd (rotate1 xs))) (CNTFRQ_EL0 s)))"
  proof (intro exI [of _ ?c'] conjI)
    show "log_irq_dispatcher dev p elr ctx s c = Some (fst (irq_dispatcher dev ctx s), snd (irq_dispatcher dev ctx s), ?c')"
      using c1(1) c2(1) c3(1) el
      by (auto simp: log_irq_dispatcher_def irq_dispatcher_def acknowledge timer_irq_handler_def Let_def split_beta)
    show "data_out ?c' = data_out c @
        (if ?iar AND 0x3FF \<noteq> 27 then []
         else timer_log (CNTFRQ_EL0 s) @ fired_log (elr ctx) (check_current_el s) @
           (if check_current_el s = 1 \<or> 1 < k then [] else switch_log (name (hd xs)) (name (hd (rotate1 xs))) (CNTFRQ_EL0 s)))"
      using c1(2) c2(2) c3(2) by simp
  qed
qed

text \<open>
  The output is in the path of the interrupt: on a serial port that is never ready to send, a
  timer interrupt never returns, and the interrupt is never ended.  Any other interrupt still is.
\<close>

lemma log_interrupt_hangs:
  assumes "\<forall>h. tx_full (port p) h" and "cstring (strings p) (address_of p Read_back) (bytes_of (literal Read_back))"
  shows "log_irq_dispatcher dev p elr ctx s c =
    (if dev (gic_bus s) 0xffff00008141000C AND 0x3FF = 27 then None
     else Some (fst (irq_dispatcher dev ctx s), snd (irq_dispatcher dev ctx s), c))"
  using assms(1)
  by (simp add: log_irq_dispatcher_def irq_dispatcher_def acknowledge Let_def split_beta log_set_cntv_never [OF _ assms(2)])


section \<open>The properties at concrete states\<close>

text \<open>
  The messages one after another in memory, each in 128 bytes, behind two task names; a port that
  is ready at once and one that never is.
\<close>

primrec slot :: "message \<Rightarrow> nat" where
  "slot Push_empty = 0" | "slot Push_empty_end = 1" | "slot Push_tail = 2" | "slot Push_tail_end = 3"
| "slot Pop_next = 4" | "slot Pop_next_end = 5" | "slot Enqueue = 6" | "slot Enqueue_end = 7" | "slot Tick_after = 8"
| "slot Tick_done = 9" | "slot Tick_done_end = 10" | "slot Tick_switch = 11" | "slot Set_running = 12"
| "slot Set_running_end = 13" | "slot Read_back = 14" | "slot Setting_back = 15" | "slot Irq_fired = 16"


definition rom_text :: "nat \<Rightarrow> u8 list" where
  "rom_text n = bytes_of (literal ([Push_empty, Push_empty_end, Push_tail, Push_tail_end, Pop_next, Pop_next_end, Enqueue,
     Enqueue_end, Tick_after, Tick_done, Tick_done_end, Tick_switch, Set_running, Set_running_end, Read_back, Setting_back,
     Irq_fired] ! n))"

definition rom :: "u64 \<Rightarrow> u8" where
  "rom a = (let n = unat a div 128; i = unat a mod 128
     in if a = 0x10000 then 65 else if n < 17 \<and> i < length (rom_text n) then rom_text n ! i else 0)"

definition rom_printer :: "device \<Rightarrow> printer" where
  "rom_printer dev = \<lparr>port = dev, strings = rom, address_of = (\<lambda>m. of_nat (128 * slot m))\<rparr>"

lemma cstringI:
  "(\<And>i. i < length cs \<Longrightarrow> mem (a + of_nat i) = cs ! i) \<Longrightarrow> mem (a + of_nat (length cs)) = 0 \<Longrightarrow> 0 \<notin> set cs \<Longrightarrow> cstring mem a cs"
proof (induction cs arbitrary: a)
  case (Cons c cs)
  have "mem (a + 1 + of_nat i) = cs ! i" if "i < length cs" for i
    using Cons.prems(1) [of "Suc i"] that by (simp add: add.assoc)
  moreover have "mem (a + 1 + of_nat (length cs)) = 0" using Cons.prems(2) by (simp add: add.assoc)
  ultimately have "cstring mem (a + 1) cs" using Cons.prems(3) by (intro Cons.IH) simp_all
  then show ?case using Cons.prems(1) [of 0] Cons.prems(3) by simp
qed simp

lemma rom_texts: "rom_text (slot m) = bytes_of (literal m)" "slot m < 17"
  by (cases m; simp add: rom_text_def)+

lemma rom_text_ok: "length (bytes_of (literal m)) < 128" "0 \<notin> set (bytes_of (literal m))"
  by (cases m; simp add: bytes_of_def)+

lemma rom_printer_strings: "cstring (strings (rom_printer dev)) (address_of (rom_printer dev) m) (bytes_of (literal m))"
proof -
  have a: "unat (of_nat (128 * slot m) + of_nat i :: u64) = 128 * slot m + i" if "i < 128" for i
  proof -
    have "of_nat (128 * slot m) + of_nat i = (of_nat (128 * slot m + i) :: u64)" by simp
    moreover have "unat (of_nat n :: u64) = n" if "n < 4096" for n
      using that by (simp add: unsigned_of_nat take_bit_nat_eq_self)
    ultimately show ?thesis using that rom_texts(2) [of m] by (simp del: of_nat_add of_nat_mult)
  qed
  have n: "of_nat (128 * slot m) + of_nat i \<noteq> (0x10000 :: u64)" if "i < 128" for i
    using arg_cong [where f = unat, of "of_nat (128 * slot m) + of_nat i" "0x10000 :: u64"] a [OF that] that rom_texts(2) [of m]
    by auto
  have r: "rom (of_nat (128 * slot m) + of_nat i) =
      (if i < length (bytes_of (literal m)) then bytes_of (literal m) ! i else 0)" if "i < 128" for i
    using that n [OF that] rom_texts [of m] by (simp add: rom_def Let_def a del: of_nat_mult literal.simps)
  show ?thesis
    unfolding rom_printer_def printer.simps
  proof (rule cstringI)
    show "rom (of_nat (128 * slot m) + of_nat i) = bytes_of (literal m) ! i" if "i < length (bytes_of (literal m))" for i
      using r [of i] that rom_text_ok(1) [of m] by simp
    show "rom (of_nat (128 * slot m) + of_nat (length (bytes_of (literal m)))) = 0"
      using r [OF rom_text_ok(1) [of m]] by simp
  qed (rule rom_text_ok)
qed

lemma rom_printer_ok: "printer_ok (rom_printer ready_uart)"
  using rom_printer_strings [of ready_uart] ready_uart_live by (simp add: printer_ok_def) (simp add: rom_printer_def)

lemma rom_name: "cstring rom 0x10000 [65]"
  by (simp add: rom_def)

definition named_sched :: sched_state where
  "named_sched = sched_set_current 0x1000 (fold sched_ready_enqueue [0x1000, 0x2000]
     (idle_sched\<lparr>tasks := (\<lambda>t. (tasks idle_sched t)\<lparr>task_name := 0x10000\<rparr>)\<rparr>))"

lemma named_sched_facts:
  "sched_inv named_sched [0x1000, 0x2000] 10" "task_name (tasks named_sched t) = 0x10000"
  "check_current_el named_sched = 0" "CNTFRQ_EL0 named_sched = 62500000"
  by (use boot_sched_inv [of "idle_sched\<lparr>tasks := (\<lambda>t. (tasks idle_sched t)\<lparr>task_name := 0x10000\<rparr>)\<rparr>" "[0x1000, 0x2000]"] in
      \<open>simp add: named_sched_def idle_sched_def next_of_def no_task_def\<close>)
    (simp_all add: named_sched_def idle_sched_def sched_set_current_def sched_ready_enqueue_def rq_push_def upd_task_def
      check_current_el_def)

theorem log_irq_dispatcher_equivalent_witness:
  "\<exists>s' c'. log_irq_dispatcher timer_fires (rom_printer ready_uart) (\<lambda>_. 0x8000) 0x9000 named_sched [] = Some (0x9000, s', c') \<and>
     data_out c' = timer_log 62500000 @ fired_log 0x8000 0"
proof -
  have n: "\<forall>t \<in> set [0x1000, 0x2000]. cstring (strings (rom_printer ready_uart)) (task_name (tasks named_sched t)) [65]"
    using rom_name by (simp add: rom_printer_def named_sched_facts)
  obtain c' where c': "log_irq_dispatcher timer_fires (rom_printer ready_uart) (\<lambda>_. 0x8000) 0x9000 named_sched [] =
      Some (fst (irq_dispatcher timer_fires 0x9000 named_sched), snd (irq_dispatcher timer_fires 0x9000 named_sched), c')"
    "data_out c' = data_out [] @ timer_log 62500000 @ fired_log 0x8000 0"
    using log_irq_dispatcher_equivalent [OF named_sched_facts(1) n, of timer_fires "\<lambda>_. 0x8000" "0x9000" "[]"]
      rom_printer_ok by (auto simp: named_sched_facts timer_fires_def)
  moreover have "fst (irq_dispatcher timer_fires 0x9000 named_sched) = 0x9000"
    using tick_effect [of "retimed (acknowledged timer_fires named_sched)" "[0x1000, 0x2000]" 10 "0x9000"] named_sched_facts(1)
    by (simp add: irq_dispatcher_eq timer_fires_def named_sched_facts Let_def split_beta retimed_fields(1))
  ultimately show ?thesis by (auto simp: data_out_def)
qed

lemma log_interrupt_hangs_witness:
  "log_irq_dispatcher timer_fires (rom_printer (\<lambda>_ _. 0x20)) (\<lambda>_. 0x8000) 0x9000 named_sched [] = None"
proof -
  have "\<forall>h. tx_full (port (rom_printer (\<lambda>_ _. 0x20))) h"
    by (simp add: tx_full_def rom_printer_def read_status_def bus_read_def)
  from log_interrupt_hangs [OF this rom_printer_strings, of timer_fires "\<lambda>_. 0x8000" "0x9000" named_sched "[]"]
  show ?thesis by (simp add: timer_fires_def)
qed

end
