(* ===== verification/Typing.thy ===== *)
theory Typing
  imports Kmalloc UserMap
begin

text \<open>
  A type discipline for the translation tables of \<^verbatim>\<open>kernel/core/mmu.c\<close>.  Every table has a level, by
  its address, and an entry is well typed when it is invalid, a block where blocks are allowed, or
  the descriptor of a table of the next level.  \<open>mmu_init\<close> establishes the typing over any RAM, and
  every operation that writes tables preserves it, so that the translation never takes anything
  but a table of the right level for a table, and no operation writes outside the tables.  What
  the entries of the last level hold is not restricted: nothing follows them.
\<close>

section \<open>Levels\<close>

definition kernel_levels :: "(u64 \<times> nat) list" where
  "kernel_levels = [(L0_BASE_PHYS, 0), (L1_BASE_PHYS, 1), (L2_BASE_PHYS, 2), (L2_INDEX3_BASE_PHYS, 2)]"

definition user_levels :: "(u64 \<times> nat) list" where
  "user_levels = [(0x80A00000, 0), (0x80A10000, 1), (0x80A20000, 2), (0x80A60000, 0), (0x80A70000, 1), (0x80A80000, 2)]"

abbreviation table_levels :: "(u64 \<times> nat) list" where "table_levels \<equiv> kernel_levels @ user_levels"

text \<open>
  Tables of the last level: the pages that \<open>map_pagetable_entry\<close> carves out of the pool at \<open>l2mem\<close>,
  512 bytes apart but entered by the page they begin in, and one for each process.
\<close>

definition l3_table :: "u64 \<Rightarrow> u64 \<Rightarrow> bool" where
  "l3_table l2mem t \<longleftrightarrow> page_aligned t \<and> (l2mem \<le> t \<and> t < l2mem + 0x40000 \<or> t = 0x80A30000 \<or> t = 0x80A90000)"

definition entry_typed :: "u64 \<Rightarrow> nat \<Rightarrow> u64 \<Rightarrow> bool" where
  "entry_typed l2mem n d \<longleftrightarrow> d = 0 \<or> (n = 2 \<and> d AND 3 = 1) \<or>
     (d AND 3 = 3 \<and> (if n = 2 then l3_table l2mem (table_address d) else (table_address d, Suc n) \<in> set table_levels))"

definition typed :: "u64 \<Rightarrow> (u64 \<times> nat) list \<Rightarrow> cells \<Rightarrow> bool" where
  "typed l2mem ts m \<longleftrightarrow> (\<forall>(t, n) \<in> set ts. \<forall>i < 0x200. entry_typed l2mem n (m (cell t i)))"

text \<open>The pool of the image lies between the tables of the kernel and those of the processes.\<close>

definition pool_layout :: "u64 \<Rightarrow> bool" where
  "pool_layout l2mem \<longleftrightarrow> page_aligned l2mem \<and> 0x80081000 \<le> l2mem \<and> l2mem \<le> 0x80800000"

text \<open>The memory an operation may write: the tables, and the clearing of \<open>L3_INDEX0_BASE_PHYS\<close>.\<close>

definition table_memory :: "u64 \<Rightarrow> u64 \<Rightarrow> bool" where
  "table_memory l2mem a \<longleftrightarrow> (l2mem \<le> a \<and> a < l2mem + 0x41000) \<or>
     list_ex (\<lambda>t. t \<le> a \<and> a < t + 0x1000) (map fst table_levels @ [L3_INDEX0_BASE_PHYS, 0x80A30000, 0x80A90000])"

section \<open>The tables a translation visits\<close>

definition visited :: "cells \<Rightarrow> u64 \<Rightarrow> u64 \<Rightarrow> u64 list" where
  "visited m ttbr va =
    (let d0 = m (cell ttbr (calc_index_l0 va)) in
     if d0 AND 3 \<noteq> 3 then [ttbr]
     else let t1 = table_address d0; d1 = m (cell t1 (calc_index_l1 va)) in
     if d1 AND 3 \<noteq> 3 then [ttbr, t1]
     else let t2 = table_address d1; d2 = m (cell t2 (calc_index_l2 va)) in
     if d2 AND 3 \<noteq> 3 then [ttbr, t1, t2]
     else [ttbr, t1, t2, table_address d2])"

text \<open>Level by level.\<close>

definition visits_typed :: "u64 \<Rightarrow> u64 list \<Rightarrow> bool" where
  "visits_typed l2mem ts \<longleftrightarrow> length ts \<le> 4 \<and>
     (\<forall>k < length ts. if k = 3 then l3_table l2mem (ts ! k) else (ts ! k, k) \<in> set table_levels)"

lemma entry_tableD:
  "entry_typed l2mem n d \<Longrightarrow> d AND 3 = 3 \<Longrightarrow>
     (if n = 2 then l3_table l2mem (table_address d) else (table_address d, Suc n) \<in> set table_levels)"
  by (auto simp: entry_typed_def)

lemma typedD: "typed l2mem ts m \<Longrightarrow> (t, n) \<in> set ts \<Longrightarrow> i < 0x200 \<Longrightarrow> entry_typed l2mem n (m (cell t i))"
  by (auto simp: typed_def)

lemma typed_visits:
  assumes "typed l2mem table_levels m" and "(ttbr, 0) \<in> set table_levels"
  shows "visits_typed l2mem (visited m ttbr va)"
proof -
  define d0 where "d0 = m (cell ttbr (calc_index_l0 va))"
  define t1 where "t1 = table_address d0"
  define d1 where "d1 = m (cell t1 (calc_index_l1 va))"
  define t2 where "t2 = table_address d1"
  define d2 where "d2 = m (cell t2 (calc_index_l2 va))"
  define t3 where "t3 = table_address d2"
  have v: "visited m ttbr va = (if d0 AND 3 \<noteq> 3 then [ttbr] else if d1 AND 3 \<noteq> 3 then [ttbr, t1]
      else if d2 AND 3 \<noteq> 3 then [ttbr, t1, t2] else [ttbr, t1, t2, t3])"
    by (simp add: visited_def Let_def d0_def t1_def d1_def t2_def d2_def t3_def)
  have e0: "(t1, 1) \<in> set table_levels" if "d0 AND 3 = 3"
    using entry_tableD [OF typedD [OF assms, of "calc_index_l0 va"]] that by (simp add: d0_def t1_def)
  have e1: "(t2, 2) \<in> set table_levels" if "d0 AND 3 = 3" "d1 AND 3 = 3"
    using entry_tableD [OF typedD [OF assms(1) e0 [OF that(1)], of "calc_index_l1 va"]] that(2)
    by (simp add: d1_def t2_def numeral_2_eq_2)
  have e2: "l3_table l2mem t3" if "d0 AND 3 = 3" "d1 AND 3 = 3" "d2 AND 3 = 3"
    using entry_tableD [OF typedD [OF assms(1) e1 [OF that(1,2)], of "calc_index_l2 va"]] that(3)
    by (simp add: d2_def t3_def)
  show ?thesis
    using assms(2) e0 e1 e2 by (auto simp: v visits_typed_def less_Suc_eq numeral_2_eq_2 numeral_3_eq_3 simp del: set_append)
qed

section \<open>Writes\<close>

lemma table_levels_facts:
  assumes "(t, n) \<in> set table_levels"
  shows "page_aligned t" "convert_to_physical t = t" "0x80020000 \<le> unat t" "n < 3"
    "unat t + 0x1000 \<le> 0x80081000 \<or> 0x80A00000 \<le> unat t" "unat t \<le> 0x80A80000"
  using assms by (auto simp: kernel_levels_def user_levels_def page_aligned_def convert_to_physical_def)

lemma table_levels_unique: "(t, n) \<in> set table_levels \<Longrightarrow> (t, n') \<in> set table_levels \<Longrightarrow> n = n'"
  by (auto simp: kernel_levels_def user_levels_def)

lemma unat_cell:
  assumes "page_aligned t" and "i < 0x200"
  shows "unat (cell t i) = unat (convert_to_physical t) + 8 * unat i"
proof -
  have i: "unat i < 512" using assms(2) by (simp add: word_less_nat_alt)
  have x: "8 * i < 0x1000" "unat (8 * i) = 8 * unat i"
    using i by (simp_all add: word_less_nat_alt unat_word_ariths)
  have "unat (convert_to_physical t) < 2 ^ 48" by (simp add: unat_convert_to_physical)
  then show ?thesis
    using i x by (simp add: cell_def page_part_plus(1) [OF assms(1) x(1)] unat_word_ariths)
qed

lemma typed_upper_write:
  assumes "typed l2mem ts m" and "set ts \<subseteq> set table_levels" and "page_aligned t"
    and "(convert_to_physical t, n) \<in> set table_levels" and "i < 0x200" and "entry_typed l2mem n d"
  shows "typed l2mem ts (set_table_entry t i d m)"
  unfolding typed_def
proof (intro ballI, clarify)
  fix t' n' j
  assume t': "(t', n') \<in> set ts" and j: "j < (0x200 :: u64)"
  then have l: "(t', n') \<in> set table_levels" using assms(2) by blast
  show "entry_typed l2mem n' (set_table_entry t i d m (cell t' j))"
  proof (cases "cell t' j = cell t i")
    case True
    then have "t' = convert_to_physical t"
      using cell_eq_iff [OF table_levels_facts(1) [OF l] assms(3) j assms(5)] table_levels_facts(2) [OF l] by simp
    then have "n' = n" using table_levels_unique l assms(4) by blast
    then show ?thesis using True assms(6) by (simp add: set_table_entry_def)
  next
    case False
    then show ?thesis using typedD [OF assms(1) t' j] by (simp add: set_table_entry_def)
  qed
qed

lemma typed_other:
  assumes "typed l2mem ts m" and "set ts \<subseteq> set table_levels"
    and "\<And>t n i. (t, n) \<in> set table_levels \<Longrightarrow> i < 0x200 \<Longrightarrow> m' (cell t i) = m (cell t i)"
  shows "typed l2mem ts m'"
  using assms unfolding typed_def by fastforce

lemma clear_typed:
  assumes "typed l2mem ts m" and "set ts \<subseteq> set table_levels" and "(t, n) \<in> set table_levels"
  shows "typed l2mem ((t, n) # ts) (clear_table t m)"
  unfolding typed_def
proof (intro ballI, clarify)
  fix t' n' j
  assume t': "(t', n') \<in> set ((t, n) # ts)" and j: "j < (0x200 :: u64)"
  then have l: "(t', n') \<in> set table_levels" using assms(2,3) by auto
  note f = table_levels_facts [OF l] table_levels_facts [OF assms(3)]
  have "entry_typed l2mem n' 0" by (simp add: entry_typed_def)
  then show "entry_typed l2mem n' (clear_table t m (cell t' j))"
    using t' typedD [OF assms(1) _ j, of t' n'] f(2) f(8) by (auto simp: clear_table_cell [OF f(1) f(7) j])
qed


section \<open>mmu_init\<close>

text \<open>Memory outside the upper tables, and cells there.\<close>

lemma cell_not_upper:
  assumes "(t, n) \<in> set table_levels" and "i < 0x200" and "0x80081000 \<le> unat a" and "unat a < 0x80A00000 \<or> 0x80A90000 \<le> unat a"
  shows "cell t i \<noteq> a"
proof
  assume "cell t i = a"
  then have "unat a = unat t + 8 * unat i"
    using unat_cell [OF table_levels_facts(1) [OF assms(1)] assms(2)] table_levels_facts(2) [OF assms(1)] by simp
  moreover have "unat i < 512" using assms(2) by (simp add: word_less_nat_alt)
  ultimately show False using table_levels_facts(5,6) [OF assms(1)] assms(3,4) by linarith
qed

lemma L3_INDEX0_cleared:
  assumes "(t, n) \<in> set table_levels" and "i < 0x200"
  shows "clear_table L3_INDEX0_BASE_PHYS m (cell t i) = m (cell t i)"
proof -
  have "convert_to_physical t \<noteq> L3_INDEX0_BASE_PHYS"
    using table_levels_facts(2,5) [OF assms(1)] by (auto simp: word_unat_eq_iff)
  moreover have "page_aligned L3_INDEX0_BASE_PHYS" "convert_to_physical L3_INDEX0_BASE_PHYS = L3_INDEX0_BASE_PHYS"
    by (simp_all add: page_aligned_def convert_to_physical_def)
  ultimately show ?thesis
    using clear_table_cell [OF table_levels_facts(1) [OF assms(1)] _ assms(2), of L3_INDEX0_BASE_PHYS m] by simp
qed

lemma kernel_tables [simp]:
  "page_aligned L0_BASE_PHYS" "page_aligned L1_BASE_PHYS" "page_aligned L2_BASE_PHYS" "page_aligned L2_INDEX3_BASE_PHYS"
  "convert_to_physical L0_BASE_PHYS = L0_BASE_PHYS" "convert_to_physical L1_BASE_PHYS = L1_BASE_PHYS"
  "convert_to_physical L2_BASE_PHYS = L2_BASE_PHYS" "convert_to_physical L2_INDEX3_BASE_PHYS = L2_INDEX3_BASE_PHYS"
  by (simp_all add: page_aligned_def convert_to_physical_def)

lemma entry_typed_intros:
  "entry_typed l2mem 2 (make_block_desc a)"
  "page_aligned a \<Longrightarrow> (convert_to_physical a, Suc n) \<in> set table_levels \<Longrightarrow> n < 2 \<Longrightarrow> entry_typed l2mem n (make_table_desc a)"
  by (simp_all add: entry_typed_def desc_decode page_aligned_and_page_part)

lemma typed_kernel_write:
  assumes "typed l2mem table_levels m" and "i < 0x200"
  shows "entry_typed l2mem 0 d \<Longrightarrow> typed l2mem table_levels (set_table_entry L0_BASE_PHYS i d m)"
    "entry_typed l2mem 1 d \<Longrightarrow> typed l2mem table_levels (set_table_entry L1_BASE_PHYS i d m)"
    "entry_typed l2mem 2 d \<Longrightarrow> typed l2mem table_levels (set_table_entry L2_BASE_PHYS i d m)"
  by (rule typed_upper_write [OF assms(1) subset_refl _ _ assms(2)]; simp add: kernel_levels_def)+

lemma cleared_typed:
  assumes "typed l2mem user_levels m"
  shows "typed l2mem table_levels (clear_table L3_INDEX0_BASE_PHYS (clear_table L2_INDEX3_BASE_PHYS
    (clear_table L2_BASE_PHYS (clear_table L1_BASE_PHYS (clear_table L0_BASE_PHYS m)))))"
proof -
  have l: "(L0_BASE_PHYS, 0) \<in> set table_levels" "(L1_BASE_PHYS, 1) \<in> set table_levels"
    "(L2_BASE_PHYS, 2) \<in> set table_levels" "(L2_INDEX3_BASE_PHYS, 2) \<in> set table_levels"
    by (simp_all add: kernel_levels_def)
  have "typed l2mem ((L0_BASE_PHYS, 0) # user_levels) (clear_table L0_BASE_PHYS m)"
    by (rule clear_typed [OF assms _ l(1)]) simp
  from clear_typed [OF this _ l(2)]
  have "typed l2mem ((L1_BASE_PHYS, 1) # (L0_BASE_PHYS, 0) # user_levels) (clear_table L1_BASE_PHYS (clear_table L0_BASE_PHYS m))"
    using l by auto
  from clear_typed [OF this _ l(3)]
  have "typed l2mem ((L2_BASE_PHYS, 2) # (L1_BASE_PHYS, 1) # (L0_BASE_PHYS, 0) # user_levels)
      (clear_table L2_BASE_PHYS (clear_table L1_BASE_PHYS (clear_table L0_BASE_PHYS m)))"
    using l by auto
  from clear_typed [OF this _ l(4)]
  have "typed l2mem ((L2_INDEX3_BASE_PHYS, 2) # (L2_BASE_PHYS, 2) # (L1_BASE_PHYS, 1) # (L0_BASE_PHYS, 0) # user_levels)
      (clear_table L2_INDEX3_BASE_PHYS (clear_table L2_BASE_PHYS (clear_table L1_BASE_PHYS (clear_table L0_BASE_PHYS m))))"
    using l by auto
  then have "typed l2mem table_levels (clear_table L2_INDEX3_BASE_PHYS (clear_table L2_BASE_PHYS (clear_table L1_BASE_PHYS (clear_table L0_BASE_PHYS m))))"
    unfolding typed_def by (auto simp: kernel_levels_def)
  then show ?thesis by (rule typed_other [OF _ subset_refl]) (rule L3_INDEX0_cleared)
qed

lemma mmu_init_typed:
  assumes "typed l2mem user_levels m"
  shows "typed l2mem table_levels (mmu_init_tables l2mem m)"
  unfolding mmu_init_tables_def Let_def
  by (intro typed_kernel_write cleared_typed [OF assms] entry_typed_intros calc_index_bound refl)
    (simp_all add: kernel_levels_def)

section \<open>The operations\<close>

lemma add_virtio_page_typed:
  "typed l2mem table_levels m \<Longrightarrow> typed l2mem table_levels (add_virtio_page reg m)"
  unfolding add_virtio_page_def Let_def by (intro typed_kernel_write entry_typed_intros calc_index_bound)

lemma user_level_tables:
  "(user_l0 pid, 0) \<in> set table_levels" "(user_l0 pid + 0x10000, 1) \<in> set table_levels"
  "(user_l0 pid + 0x20000, 2) \<in> set table_levels" "l3_table l2mem (user_l0 pid + 0x30000)"
  by (simp_all add: user_l0_def user_levels_def l3_table_def page_aligned_def)

lemma map_user_tables_typed:
  assumes "typed l2mem table_levels m"
  shows "typed l2mem table_levels (map_user_tables pid a m)"
proof -
  have w: "typed l2mem table_levels (m'(cell t i := d))"
    if "typed l2mem table_levels m'" "(t, n) \<in> set table_levels" "i < 0x200" "entry_typed l2mem n d" for m' t i n d
    using typed_upper_write [OF that(1) subset_refl table_levels_facts(1) [OF that(2)] _ that(3,4)]
      table_levels_facts(2) [OF that(2)] that(2) by (simp add: set_table_entry_def)
  have e: "entry_typed l2mem 0 (make_table_desc (user_l0 pid + 0x10000))" "entry_typed l2mem 1 (make_table_desc (user_l0 pid + 0x20000))"
    "entry_typed l2mem 2 (make_table_desc (user_l0 pid + 0x30000))"
    using user_level_tables(2,3) [of pid] user_level_tables(4) [of l2mem pid]
    by (simp_all add: entry_typed_def desc_decode(1) numeral_2_eq_2)
  show ?thesis
    unfolding map_user_tables_cells
    by (intro w [OF _ user_level_tables(3)] w [OF _ user_level_tables(2)] w [OF _ user_level_tables(1)] assms e calc_index_bound)
qed

lemma map_user_page_typed:
  assumes "typed l2mem table_levels m"
  shows "typed l2mem table_levels (map_user_page pid a m)"
proof (rule typed_other [OF assms subset_refl])
  fix t n i
  assume t: "(t, n) \<in> set table_levels" and i: "i < (0x200 :: u64)"
  have "convert_to_physical t \<noteq> convert_to_physical (user_l0 pid + 0x30000)"
    using t by (auto simp: kernel_levels_def user_levels_def user_l0_def convert_to_physical_def)
  then show "map_user_page pid a m (cell t i) = m (cell t i)"
    using cell_eq_iff [OF table_levels_facts(1) [OF t] user_tables(4) i calc_index_bound(4)] by (simp add: map_user_page_cells)
qed

lemma map_user_typed:
  assumes "typed l2mem table_levels m"
  shows "typed l2mem table_levels (map_user_to_physical pid a m)" "typed l2mem table_levels (map_user_to_physical_test pid a m)"
proof -
  have "typed l2mem table_levels (fold (\<lambda>i. map_user_page pid (f i)) xs m')" if "typed l2mem table_levels m'" for f m' and xs :: "nat list"
    using that by (induction xs arbitrary: m') (simp_all add: map_user_page_typed)
  then show "typed l2mem table_levels (map_user_to_physical pid a m)" "typed l2mem table_levels (map_user_to_physical_test pid a m)"
    using map_user_page_typed map_user_tables_typed [OF assms]
    by (simp_all add: map_user_to_physical_def map_user_to_physical_test_def)
qed


section \<open>The pool\<close>

lemma pool_layoutD:
  assumes "pool_layout l2mem"
  shows "page_aligned l2mem" "unat l2mem mod 4096 = 0" "0x80081000 \<le> unat l2mem" "unat l2mem \<le> 0x80800000"
    "l2mem AND 0xFFFFFFFFFFFF = l2mem"
  using assms by (auto simp: pool_layout_def page_aligned_unat word_le_nat_alt word_unat_eq_iff unat_and_numerals)

text \<open>The l3 table of index \<open>k\<close>: where its entries are written, and where its descriptor leads.\<close>

lemma pool_table:
  assumes "pool_layout l2mem" and "k < 0x200"
  shows "unat (l2mem + 512 * k) = unat l2mem + 512 * unat k"
    "l3_table l2mem (table_address (make_table_desc (l2mem + 512 * k)))"
    "j < 0x200 \<Longrightarrow> unat (cell (0xFFFF000000000000 OR (l2mem + 512 * k)) j) = unat l2mem + 512 * unat k + 8 * unat j"
proof -
  note l = pool_layoutD [OF assms(1)]
  have k: "unat k < 512" using assms(2) by (simp add: word_less_nat_alt)
  show u: "unat (l2mem + 512 * k) = unat l2mem + 512 * unat k" using l k by (simp add: unat_word_ariths)
  let ?t = "table_address (make_table_desc (l2mem + 512 * k))"
  have t: "unat ?t = (unat l2mem + 512 * unat k) div 4096 * 4096"
    using l k by (simp add: desc_decode unat_and_page_part u)
  have hi: "unat (l2mem + 0x40000) = unat l2mem + 0x40000" using l by (simp add: unat_word_ariths)
  have "unat l2mem \<le> unat ?t" unfolding t using l(2) by (metis add.commute div_le_mono div_mult_mod_eq le_add2 mult_le_mono1 add.right_neutral)
  moreover have "unat ?t < unat (l2mem + 0x40000)"
  proof -
    have "unat ?t \<le> unat l2mem + 512 * unat k" unfolding t by (rule div_times_less_eq_dividend)
    then show ?thesis using k hi by linarith
  qed
  moreover have "page_aligned ?t" by (simp add: page_aligned_unat t)
  ultimately show "l3_table l2mem ?t" by (simp add: l3_table_def word_le_nat_alt word_less_nat_alt)
  show "unat (cell (0xFFFF000000000000 OR (l2mem + 512 * k)) j) = unat l2mem + 512 * unat k + 8 * unat j" if "j < 0x200"
  proof -
    have j: "unat j < 512" using that by (simp add: word_less_nat_alt)
    have "(l2mem + 512 * k) AND 0xFFFFFFFFFFFF = l2mem + 512 * k"
      using l k by (simp add: word_unat_eq_iff unat_and_numerals u)
    then have "0xFFFF000000000000 AND (l2mem + 512 * k) = 0xFFFF000000000000 AND ((l2mem + 512 * k) AND 0xFFFFFFFFFFFF)" by simp
    also have "\<dots> = 0" by (simp add: and.left_commute [of _ "l2mem + 512 * k"])
    finally have d: "0xFFFF000000000000 OR (l2mem + 512 * k) = 0xFFFF000000000000 + (l2mem + 512 * k)"
      by (simp add: disjunctive_add_eq_or)
    have v: "unat (l2mem + 512 * k + 8 * j) = unat l2mem + 512 * unat k + 8 * unat j"
      using l k j u by (simp add: unat_word_ariths)
    have "cell (0xFFFF000000000000 OR (l2mem + 512 * k)) j = convert_to_physical (0xFFFF000000000000 + (l2mem + 512 * k + 8 * j))"
      by (simp add: cell_def d add.assoc)
    also have "unat \<dots> = (0xFFFF000000000000 + unat (l2mem + 512 * k + 8 * j)) mod 2 ^ 64 mod 2 ^ 48"
      by (simp add: unat_convert_to_physical unat_word_ariths(1) [of "0xFFFF000000000000"])
    finally have "unat (cell (0xFFFF000000000000 OR (l2mem + 512 * k)) j) =
        (0xFFFF000000000000 + unat (l2mem + 512 * k + 8 * j)) mod 2 ^ 64 mod 2 ^ 48" .
    moreover have "(0xFFFF000000000000 + x) mod 2 ^ 64 mod 2 ^ 48 = x" if "x < 2 ^ 48" for x :: nat
    proof -
      have "(0xFFFF000000000000 + x) mod 2 ^ 64 = x + 65535 * 2 ^ 48" using that by simp
      then show ?thesis using that by (simp only: mod_mult_self1 mod_less)
    qed
    ultimately show ?thesis using l k j v by simp
  qed
qed

lemma map_one_page_typed:
  assumes "pool_layout l2mem" and "typed l2mem table_levels m"
  shows "typed l2mem table_levels (map_one_page l2mem va pa m)"
proof -
  note l = pool_layoutD [OF assms(1)]
  let ?k = "calc_index_l2 va"
  let ?t = "l2mem + 512 * ?k"
  have k: "unat ?k < 512" "\<And>a. unat (calc_index_l3 a) < 512" using calc_index_bound by (simp_all add: word_less_nat_alt)
  let ?m = "set_table_entry (0xFFFF000000000000 OR L2_INDEX3_BASE_PHYS) ?k (make_table_desc ?t) m"
  have m: "map_one_page l2mem va pa m = set_table_entry (0xFFFF000000000000 OR ?t) (calc_index_l3 va) (make_l3_block_desc pa) ?m"
    by (simp add: map_one_page_def Let_def l)
  have e: "entry_typed l2mem 2 (make_table_desc ?t)"
    using pool_table(2) [OF assms(1), of ?k] by (simp add: entry_typed_def desc_decode(1))
  have t: "typed l2mem table_levels ?m"
    by (rule typed_upper_write [OF assms(2) subset_refl _ _ _ e]) (simp_all add: kernel_levels_def convert_to_physical_def page_aligned_def)
  show ?thesis
    unfolding m
  proof (rule typed_other [OF t subset_refl])
    fix t n i
    assume t: "(t, n) \<in> set table_levels" and i: "i < (0x200 :: u64)"
    have "cell t i \<noteq> cell (0xFFFF000000000000 OR ?t) (calc_index_l3 va)"
    proof (rule cell_not_upper [OF t i])
      have "unat (cell (0xFFFF000000000000 OR ?t) (calc_index_l3 va)) = unat l2mem + 512 * unat ?k + 8 * unat (calc_index_l3 va)"
        by (rule pool_table(3) [OF assms(1)]) simp_all
      then show "0x80081000 \<le> unat (cell (0xFFFF000000000000 OR ?t) (calc_index_l3 va))"
        "unat (cell (0xFFFF000000000000 OR ?t) (calc_index_l3 va)) < 0x80A00000 \<or>
         0x80A90000 \<le> unat (cell (0xFFFF000000000000 OR ?t) (calc_index_l3 va))"
        using l(3,4) k(1) k(2) [of va] by linarith+
    qed
    then show "set_table_entry (0xFFFF000000000000 OR ?t) (calc_index_l3 va) (make_l3_block_desc pa) ?m (cell t i) = ?m (cell t i)"
      by (simp add: set_table_entry_def)
  qed
qed

lemma pool_word:
  assumes "pool_layout l2mem" and "i < 640"
  shows "unat (l2mem + 8 * of_nat i) = unat l2mem + 8 * i"
proof -
  have "unat (of_nat i :: u64) = i" using assms(2) by (simp add: unsigned_of_nat take_bit_nat_eq_self)
  then show ?thesis using pool_layoutD [OF assms(1)] assms(2) by (simp add: unat_word_ariths)
qed

lemma pool_cleared:
  assumes "pool_layout l2mem"
  shows "clear_cells l2mem 640 m a = (if \<exists>i < 640. unat a = unat l2mem + 8 * i then 0 else m a)"
proof -
  note l = pool_layoutD [OF assms]
  have "unat (cell l2mem (of_nat i)) = unat l2mem + 8 * i" if "i < 640" for i
  proof -
    show ?thesis using l that pool_word [OF assms that] by (simp add: cell_def unat_convert_to_physical)
  qed
  then have "(\<exists>i < 640. a = cell l2mem (of_nat i)) \<longleftrightarrow> (\<exists>i < 640. unat a = unat l2mem + 8 * i)"
    by (auto simp: word_unat_eq_iff)
  then show ?thesis by (simp only: clear_cells_apply)
qed

lemma map_pagetable_entry_typed:
  assumes "pool_layout l2mem" and "typed l2mem table_levels (tbl s)"
  shows "typed l2mem table_levels (tbl (snd (map_pagetable_entry l2mem va pa tot s)))"
proof -
  note l = pool_layoutD [OF assms(1)]
  have pages: "typed l2mem table_levels (map_pages l2mem va pa n m)" if "typed l2mem table_levels m" for n m
    using that by (induction n) (simp_all add: map_pages_def map_one_page_typed [OF assms(1)])
  have c: "typed l2mem table_levels (clear_cells l2mem 640 (tbl s))"
  proof (rule typed_other [OF assms(2) subset_refl])
    fix t n i
    assume t: "(t, n) \<in> set table_levels" and i: "i < (0x200 :: u64)"
    have "unat (cell t i) \<noteq> unat l2mem + 8 * k" if "k < 640" for k
      using cell_not_upper [OF t i, of "l2mem + 8 * of_nat k"] l that pool_word [OF assms(1) that] by (simp add: word_unat_eq_iff)
    then show "clear_cells l2mem 640 (tbl s) (cell t i) = tbl s (cell t i)" by (auto simp: pool_cleared [OF assms(1)])
  qed
  have "typed l2mem table_levels (set_table_entry L1_BASE_PHYS 3 (make_table_desc L2_INDEX3_BASE_PHYS)
      (clear_table L3_INDEX0_BASE_PHYS (clear_cells l2mem 640 (tbl s))))"
    by (intro typed_kernel_write(2) typed_other [OF c subset_refl] L3_INDEX0_cleared entry_typed_intros) (simp_all add: kernel_levels_def)
  moreover have "calc_index_l1 0xffff0000C0000000 = 3" by (simp add: calc_index_l1_def)
  ultimately show ?thesis using assms(2) by (simp add: map_pagetable_entry_def Let_def pages)
qed

lemma kmalloc_maps:
  "kmalloc l2mem sz s = Inr (va, s') \<Longrightarrow>
     \<exists>a pa tot st. tbl st = tbl s \<and> s' = snd (map_pagetable_entry l2mem a pa tot st)"
proof -
  assume "kmalloc l2mem sz s = Inr (va, s')"
  then obtain a pa tot b where "s' = snd (map_pagetable_entry l2mem a pa tot (s\<lparr>GlobalBitMapArray := b\<rparr>))"
    by (auto simp: kmalloc_def Let_def split: sum.splits option.splits)
  then show ?thesis by (intro exI [of _ a] exI [of _ pa] exI [of _ tot] exI [of _ "s\<lparr>GlobalBitMapArray := b\<rparr>"]) simp
qed

lemma kmalloc_typed:
  "pool_layout l2mem \<Longrightarrow> typed l2mem table_levels (tbl s) \<Longrightarrow> kmalloc l2mem sz s = Inr (va, s') \<Longrightarrow>
     typed l2mem table_levels (tbl s')"
  using kmalloc_maps map_pagetable_entry_typed by metis


section \<open>No write outside the tables\<close>

definition writes_tables :: "u64 \<Rightarrow> cells \<Rightarrow> cells \<Rightarrow> bool" where
  "writes_tables l2mem m m' \<longleftrightarrow> (\<forall>a. \<not> table_memory l2mem a \<longrightarrow> m' a = m a)"

definition plain_tables :: "u64 list" where
  "plain_tables = map fst table_levels @ [L3_INDEX0_BASE_PHYS, 0x80A30000, 0x80A90000]"

lemma plain_tables_facts:
  "t \<in> set plain_tables \<Longrightarrow> page_aligned t \<and> convert_to_physical t = t \<and> unat t < 0x100000000"
  by (auto simp: plain_tables_def kernel_levels_def user_levels_def page_aligned_def convert_to_physical_def)

lemma plain_memory:
  assumes "t \<in> set plain_tables" and "i < 0x200"
  shows "table_memory l2mem (cell t i)"
proof -
  note f = plain_tables_facts [OF assms(1)]
  have i: "unat i < 512" using assms(2) by (simp add: word_less_nat_alt)
  have "unat (cell t i) = unat t + 8 * unat i" using unat_cell [of t i] assms(2) f by simp
  moreover have "unat (t + 0x1000) = unat t + 0x1000" using f by (simp add: unat_word_ariths)
  ultimately have "t \<le> cell t i \<and> cell t i < t + 0x1000" using i by (simp add: word_le_nat_alt word_less_nat_alt)
  then show ?thesis using assms(1) unfolding table_memory_def plain_tables_def list_ex_iff by blast
qed

lemma pool_memory:
  assumes "pool_layout l2mem" and "unat l2mem \<le> unat a" and "unat a < unat l2mem + 0x41000"
  shows "table_memory l2mem a"
proof -
  have "unat (l2mem + 0x41000) = unat l2mem + 0x41000" using pool_layoutD [OF assms(1)] by (simp add: unat_word_ariths)
  then show ?thesis using assms by (simp add: table_memory_def word_le_nat_alt word_less_nat_alt)
qed

named_theorems frame_intros \<open>writes that stay in the tables\<close>

lemma writes_refl [frame_intros]: "writes_tables l2mem m m"
  by (simp add: writes_tables_def)

lemma writes_set [frame_intros]:
  "table_memory l2mem (cell t i) \<Longrightarrow> writes_tables l2mem m0 m \<Longrightarrow> writes_tables l2mem m0 (set_table_entry t i d m)"
  by (auto simp: writes_tables_def set_table_entry_def)

lemma writes_clear [frame_intros]:
  assumes "t \<in> set plain_tables" and "writes_tables l2mem m0 m"
  shows "writes_tables l2mem m0 (clear_table t m)"
proof -
  have "table_memory l2mem (cell t (of_nat i))" if "i < 512" for i
    by (rule plain_memory [OF assms(1)]) (use that in \<open>simp add: word_less_nat_alt unat_of_nat\<close>)
  then show ?thesis using assms(2) by (auto simp: writes_tables_def clear_table_apply)
qed

lemma mmu_init_writes: "writes_tables l2mem m (mmu_init_tables l2mem m)"
  unfolding mmu_init_tables_def Let_def
  by (intro frame_intros plain_memory calc_index_bound) (simp_all add: plain_tables_def kernel_levels_def)

lemma map_user_writes:
  assumes "writes_tables l2mem m0 m"
  shows "writes_tables l2mem m0 (map_user_to_physical pid a m)" "writes_tables l2mem m0 (map_user_to_physical_test pid a m)"
proof -
  have u: "user_l0 pid \<in> set plain_tables" "user_l0 pid + 0x10000 \<in> set plain_tables" "user_l0 pid + 0x20000 \<in> set plain_tables"
    "user_l0 pid + 0x30000 \<in> set plain_tables"
    by (simp_all add: user_l0_def plain_tables_def user_levels_def)
  have page: "writes_tables l2mem m0 (map_user_page pid b m')" if "writes_tables l2mem m0 m'" for b m'
    using writes_set [OF plain_memory [OF u(4) calc_index_bound(4)] that] by (simp add: map_user_page_cells set_table_entry_def)
  have tabs: "writes_tables l2mem m0 (map_user_tables pid a m)"
    using writes_set [OF plain_memory [OF u(3) calc_index_bound(3)] writes_set [OF plain_memory [OF u(2) calc_index_bound(2)]
        writes_set [OF plain_memory [OF u(1) calc_index_bound(1)] assms]]]
    by (simp add: map_user_tables_cells set_table_entry_def)
  have "writes_tables l2mem m0 (fold (\<lambda>i. map_user_page pid (f i)) xs m')" if "writes_tables l2mem m0 m'" for f m' and xs :: "nat list"
    using that by (induction xs arbitrary: m') (simp_all add: page)
  then show "writes_tables l2mem m0 (map_user_to_physical pid a m)" "writes_tables l2mem m0 (map_user_to_physical_test pid a m)"
    using tabs page by (simp_all add: map_user_to_physical_def map_user_to_physical_test_def)
qed

lemma map_pagetable_entry_writes:
  assumes "pool_layout l2mem" and "writes_tables l2mem m0 (tbl s)"
  shows "writes_tables l2mem m0 (tbl (snd (map_pagetable_entry l2mem va pa tot s)))"
proof -
  note l = pool_layoutD [OF assms(1)]
  have one: "writes_tables l2mem m0 (map_one_page l2mem va pa m)" if "writes_tables l2mem m0 m" for va pa m
  proof -
    have k: "unat (calc_index_l2 va) < 512" "unat (calc_index_l3 va) < 512" using calc_index_bound by (simp_all add: word_less_nat_alt)
    have "unat (cell (0xFFFF000000000000 OR (l2mem + 512 * calc_index_l2 va)) (calc_index_l3 va)) =
        unat l2mem + 512 * unat (calc_index_l2 va) + 8 * unat (calc_index_l3 va)"
      by (rule pool_table(3) [OF assms(1)]) simp_all
    then have "table_memory l2mem (cell (0xFFFF000000000000 OR (l2mem + 512 * calc_index_l2 va)) (calc_index_l3 va))"
      using k by (intro pool_memory [OF assms(1)]) linarith+
    moreover have "table_memory l2mem (cell (0xFFFF000000000000 OR L2_INDEX3_BASE_PHYS) (calc_index_l2 va))"
      using plain_memory [of L2_INDEX3_BASE_PHYS "calc_index_l2 va" l2mem] by (simp add: plain_tables_def kernel_levels_def)
    ultimately show ?thesis
      unfolding map_one_page_def Let_def l by (intro writes_set that)
  qed
  have pages: "writes_tables l2mem m0 (map_pages l2mem va pa n m)" if "writes_tables l2mem m0 m" for n m
    using that by (induction n) (simp_all add: map_pages_def one)
  have "writes_tables l2mem m0 (clear_cells l2mem 640 (tbl s))"
  proof -
    have "table_memory l2mem a" if "unat a = unat l2mem + 8 * i" "i < 640" for a i
      using that by (intro pool_memory [OF assms(1)]) linarith+
    then show ?thesis using assms(2) by (auto simp: writes_tables_def pool_cleared [OF assms(1)])
  qed
  then have "writes_tables l2mem m0 (set_table_entry L1_BASE_PHYS 3 (make_table_desc L2_INDEX3_BASE_PHYS)
      (clear_table L3_INDEX0_BASE_PHYS (clear_cells l2mem 640 (tbl s))))"
    by (intro writes_set writes_clear plain_memory) (simp_all add: plain_tables_def kernel_levels_def)
  moreover have "calc_index_l1 0xffff0000C0000000 = 3" by (simp add: calc_index_l1_def)
  ultimately show ?thesis using assms(2) by (simp add: map_pagetable_entry_def Let_def pages)
qed

section \<open>Sequences of operations\<close>

datatype mm_op = Kmalloc u64 | Map_user u64 u64 | Map_user_page u64 u64 | Virtio_page u64

primrec run_op :: "u64 \<Rightarrow> mm_op \<Rightarrow> mm_state \<Rightarrow> mm_error + mm_state" where
  "run_op l2mem (Kmalloc sz) s = (case kmalloc l2mem sz s of Inl e \<Rightarrow> Inl e | Inr (_, s) \<Rightarrow> Inr s)"
| "run_op l2mem (Map_user pid a) s = Inr (s\<lparr>tbl := map_user_to_physical pid a (tbl s)\<rparr>)"
| "run_op l2mem (Map_user_page pid a) s = Inr (s\<lparr>tbl := map_user_to_physical_test pid a (tbl s)\<rparr>)"
| "run_op l2mem (Virtio_page reg) s = Inr (s\<lparr>tbl := add_virtio_page reg (tbl s)\<rparr>)"

fun run_ops :: "u64 \<Rightarrow> mm_op list \<Rightarrow> mm_state \<Rightarrow> mm_error + mm_state" where
  "run_ops l2mem [] s = Inr s"
| "run_ops l2mem (x # xs) s = (case run_op l2mem x s of Inl e \<Rightarrow> Inl e | Inr s \<Rightarrow> run_ops l2mem xs s)"

lemma run_op_typed:
  assumes "pool_layout l2mem" and "typed l2mem table_levels (tbl s)" and "writes_tables l2mem m0 (tbl s)" and "run_op l2mem x s = Inr s'"
  shows "typed l2mem table_levels (tbl s') \<and> writes_tables l2mem m0 (tbl s')"
proof (cases x)
  case (Kmalloc sz)
  then obtain va where k: "kmalloc l2mem sz s = Inr (va, s')" using assms(4) by (auto split: sum.splits)
  obtain a pa tot st where "tbl st = tbl s" "s' = snd (map_pagetable_entry l2mem a pa tot st)" using kmalloc_maps [OF k] by blast
  then show ?thesis using map_pagetable_entry_typed [OF assms(1)] map_pagetable_entry_writes [OF assms(1)] assms(2,3) by metis
next
  case (Virtio_page reg)
  have "table_memory l2mem (cell L2_BASE_PHYS 50)" by (rule plain_memory) (simp_all add: plain_tables_def kernel_levels_def)
  then have "writes_tables l2mem m0 (add_virtio_page reg (tbl s))"
    using assms(3) by (simp add: add_virtio_page_def Let_def writes_set)
  then show ?thesis using assms(2,4) Virtio_page add_virtio_page_typed by auto
qed (use assms map_user_typed map_user_writes in auto)

lemma run_ops_typed:
  assumes "pool_layout l2mem" and "typed l2mem table_levels (tbl s)" and "writes_tables l2mem m0 (tbl s)" and "run_ops l2mem xs s = Inr s'"
  shows "typed l2mem table_levels (tbl s') \<and> writes_tables l2mem m0 (tbl s')"
  using assms(2-4)
  by (induction xs arbitrary: s) (auto split: sum.splits dest: run_op_typed [OF assms(1)])

section \<open>Properties\<close>


section \<open>The property at a concrete state\<close>


end
