(* ===== verification/HostTools.thy ===== *)
theory HostTools
  imports Bitmap PageTable
begin

text \<open>
  The programs that run on the host beside the kernel: \<^verbatim>\<open>kernel/test.c\<close>, which computes a value for
  \<open>TCR_EL1\<close> bit by bit and has a printer for words in binary, and \<^verbatim>\<open>kernel/core/test.c\<close>, which exercises the
  page bitmap; its copies of the bitmap functions compute what those of \<open>Bitmap\<close> do (\<open>EarlierAlloc\<close>), which are used here.
\<close>

section \<open>kernel/test.c\<close>

text \<open>\<open>printf("%llu", (value >> i) & 1)\<close>, with a space after every eighth bit.\<close>

definition print_digit :: "u64 \<Rightarrow> char" where
  "print_digit v = (if v = 0 then CHR ''0'' else CHR ''1'')"

definition print_binary :: "u64 \<Rightarrow> string" where
  "print_binary value =
    concat (map (\<lambda>i. print_digit (drop_bit i value AND 1) # (if i mod 8 = 0 then '' '' else [])) (rev [0..<64])) @ [CHR 0x0A]"

definition flip_bit :: "u64 \<Rightarrow> u32 \<Rightarrow> u64" where
  "flip_bit value index = (if index \<ge> 64 then value else value OR push_bit (unat index) 1)"

definition flip_bit_range :: "u64 \<Rightarrow> u32 \<Rightarrow> u32 \<Rightarrow> u64" where
  "flip_bit_range value start range_end =
    (if start > range_end \<or> range_end \<ge> 64 then value
     else fold (\<lambda>i value. flip_bit value (of_nat i)) [unat start..<Suc (unat range_end)] value)"

definition host_tcr :: u64 where
  "host_tcr =
    (let tcr = 0;
         tcr = tcr OR 16;
         tcr = flip_bit tcr 8;
         tcr = flip_bit tcr 10;
         tcr = flip_bit_range tcr 12 13;
         tcr = flip_bit tcr 32;
         tcr = flip_bit tcr 34;
         tcr = flip_bit tcr 38;
         tcr = flip_bit tcr 39
     in flip_bit tcr 40)"

section \<open>kernel/core/test.c\<close>

text \<open>A line of the output is the index and the bit it shows; entries never written are \<open>None\<close>.\<close>

definition print_bit_index :: "BitIndex option list \<Rightarrow> u64 \<Rightarrow> (u64 \<times> u8) option list" where
  "print_bit_index res n = map (\<lambda>i. map_option (\<lambda>b. (bi_index b, bi_bit b)) (res ! i)) [0..<unat n]"

fun test_allocations :: "u64 list \<Rightarrow> AllocateMem \<Rightarrow> BitIndex option list \<Rightarrow> mm_error + (u64 \<times> u8) option list" where
  "test_allocations [] mem res = Inr []"
| "test_allocations (sz # szs) mem res =
    (case allocate_mem mem sz res of
       Inl e \<Rightarrow> Inl e
     | Inr (allocated1, mem, res) \<Rightarrow>
         (case test_allocations szs mem res of
            Inl e \<Rightarrow> Inl e
          | Inr out \<Rightarrow> Inr (print_bit_index res allocated1 @ out)))"

text \<open>\<open>main\<close>: a static array of zeros as the buffer, one request of 19900 bytes and nine of 200.\<close>

definition test_main :: "mm_error + (u64 \<times> u8) option list" where
  "test_main = test_allocations (19900 # replicate 9 200) \<lparr>buffer = (\<lambda>_. 0)\<rparr> (replicate 64 None)"

section \<open>Reading binary\<close>

definition read_binary :: "string \<Rightarrow> nat" where
  "read_binary s = fold (\<lambda>c n. 2 * n + (if c = CHR ''1'' then 1 else 0)) (filter (\<lambda>c. c \<in> {CHR ''0'', CHR ''1''}) s) 0"

text \<open>The digits of one position, and of a list of positions.\<close>

abbreviation binary_digit :: "char \<Rightarrow> bool" where
  "binary_digit c \<equiv> c \<in> {CHR ''0'', CHR ''1''}"

lemma print_digit_bit: "print_digit (drop_bit i v AND 1) = (if bit v i then CHR ''1'' else CHR ''0'')"
  by (simp add: print_digit_def and_one_eq bit_iff_odd_drop_bit odd_iff_mod_2_eq_one)

lemma digits_of_positions:
  "filter binary_digit (concat (map (\<lambda>i. print_digit (drop_bit i v AND 1) # (if i mod 8 = 0 then '' '' else [])) xs)) =
     map (\<lambda>i. if bit v i then CHR ''1'' else CHR ''0'') xs"
  by (induction xs) (simp_all add: print_digit_bit)

lemma read_positions:
  "fold (\<lambda>c n. 2 * n + (if c = CHR ''1'' then 1 else 0)) (map (\<lambda>i. if bit v i then CHR ''1'' else CHR ''0'') (rev [0..<n])) m =
     m * 2 ^ n + take_bit n (unat (v :: u64))"
proof (induction n arbitrary: m)
  case (Suc n)
  have "take_bit (Suc n) (unat v) = 2 ^ n * (if bit v n then 1 else 0) + take_bit n (unat v)"
    by (simp add: take_bit_Suc_from_most bit_unsigned_iff)
  then show ?case
    using Suc.IH [of "2 * m + (if bit v n then 1 else 0)"] by (cases "bit v n") (simp_all add: algebra_simps)
qed simp

section \<open>Ranges of bits\<close>

lemma bit_flip_bit: "bit (flip_bit v i) n \<longleftrightarrow> bit v n \<or> (n < 64 \<and> n = unat i)"
  by (auto simp: flip_bit_def bit_simps word_le_nat_alt)

lemma bit_flip_fold:
  "\<forall>i \<in> set xs. i < 64 \<Longrightarrow> bit (fold (\<lambda>i value. flip_bit value (of_nat i)) xs v) n \<longleftrightarrow> bit v n \<or> n \<in> set xs"
  by (induction xs arbitrary: v) (auto simp: bit_flip_bit unat_of_nat)

section \<open>The test of the bitmap\<close>

text \<open>The entry of a page as the test prints it.\<close>

definition page_line :: "nat \<Rightarrow> (u64 \<times> u8) option" where
  "page_line p = Some (of_nat (p div 8), of_nat (p mod 8))"

text \<open>Whatever is requested, the lines name the next pages, in order.\<close>

lemma test_allocations_prints:
  assumes "bump mem n" and "n + sum_list (map pages_needed szs) \<le> BITMAP_PAGES" and "\<forall>sz \<in> set szs. pages_needed sz \<le> length res"
  shows "test_allocations szs mem res = Inr (map page_line [n..<n + sum_list (map pages_needed szs)])"
  using assms
proof (induction szs arbitrary: mem n res)
  case (Cons sz szs)
  let ?k = "pages_needed sz"
  obtain mem' where a: "allocate_mem mem sz res = Inr (of_nat ?k, mem', map (Some \<circ> page_entry) [n..<n + ?k] @ drop ?k res)"
    and b: "bump mem' (n + ?k)"
    using allocate_mem_next_pages [OF Cons.prems(1), of sz res] Cons.prems(2,3) by auto
  let ?res = "map (Some \<circ> page_entry) [n..<n + ?k] @ drop ?k res"
  have len: "length ?res = length res" using Cons.prems(3) by simp
  have "unat (of_nat ?k :: u64) = ?k"
  proof -
    have "?k < 2 ^ 64" using pages_needed_bound [of sz] by (rule order.strict_trans1) simp
    then show ?thesis by (simp add: unsigned_of_nat take_bit_nat_eq_self)
  qed
  then have "print_bit_index ?res (of_nat ?k) = map (\<lambda>i. page_line (n + i)) [0..<?k]"
    by (simp add: print_bit_index_def nth_append page_entry_def page_line_def)
  also have "\<dots> = map page_line [n..<n + ?k]" by (rule nth_equalityI) simp_all
  finally have p: "print_bit_index ?res (of_nat ?k) = map page_line [n..<n + ?k]" .
  have "test_allocations szs mem' ?res = Inr (map page_line [n + ?k..<n + ?k + sum_list (map pages_needed szs)])"
    by (rule Cons.IH [OF b]) (use Cons.prems(2,3) len in simp_all)
  moreover have "[n..<n + ?k] @ [n + ?k..<n + ?k + sum_list (map pages_needed szs)] = [n..<n + ?k + sum_list (map pages_needed szs)]"
    by (rule upt_add_eq_append [symmetric]) simp
  ultimately show ?case by (simp add: a p add.assoc flip: map_append)
qed simp

section \<open>Properties\<close>

text \<open>
  What the printer of the host prints in binary can be read back: the digits, most significant
  first, are those of the word.
\<close>

lemma print_binary_roundtrip: "read_binary (print_binary v) = unat v"
proof -
  have "filter binary_digit (print_binary v) = map (\<lambda>i. if bit v i then CHR ''1'' else CHR ''0'') (rev [0..<64])"
    unfolding print_binary_def filter_append digits_of_positions by simp
  then have "read_binary (print_binary v) = 0 * 2 ^ 64 + take_bit 64 (unat v)"
    unfolding read_binary_def by (simp only: read_positions)
  moreover have "unat v < 2 ^ 64" using unsigned_less [of v] by simp
  ultimately show ?thesis by (simp add: take_bit_nat_eq_self)
qed

text \<open>
  The value the host program computes for \<open>TCR_EL1\<close>, bit by bit, agrees with the one \<open>mmu_init\<close>
  writes on the fields of the lower half (size, cacheability, shareability, granule and the
  physical size) and differs from it elsewhere; a range of bits is set exactly when it is valid.
\<close>

lemma host_tcr_lower_half:
  "host_tcr AND 0x70000FFFF = TCR_EL1 (mmu_init_regs r) AND 0x70000FFFF \<and> host_tcr \<noteq> TCR_EL1 (mmu_init_regs r) \<and>
   bit (flip_bit_range v a b) n = (bit v n \<or> (a \<le> b \<and> b < 64 \<and> unat a \<le> n \<and> n \<le> unat b))"
proof -
  have h: "host_tcr = 0x1C500003510"
    by (simp add: host_tcr_def Let_def flip_bit_def flip_bit_range_def)
  have t: "TCR_EL1 (mmu_init_regs r) = 0x5B5103510" by (simp add: mmu_init_regs_def Let_def)
  have "bit (flip_bit_range v a b) n = (bit v n \<or> (a \<le> b \<and> b < 64 \<and> unat a \<le> n \<and> n \<le> unat b))"
  proof (cases "a \<le> b \<and> b < 64")
    case True
    then have "\<forall>i \<in> set [unat a..<Suc (unat b)]. i < 64" by (auto simp: word_less_nat_alt)
    from bit_flip_fold [OF this, of v n] show ?thesis using True by (auto simp: flip_bit_range_def not_less not_le)
  qed (auto simp: flip_bit_range_def not_less not_le)
  then show ?thesis by (simp add: h t)
qed

text \<open>
  The test of the bitmap prints the first fourteen pages, each once and in order: the five of
  its first request and one for each of the other nine.
\<close>

lemma test_main_output: "test_main = Inr (map page_line [0..<14])"
proof -
  have p: "pages_needed 19900 = 5" "pages_needed 200 = 1" by (simp_all add: pages_needed_def)
  have "test_main = test_allocations (19900 # replicate 9 200) empty_bitmap (replicate 64 None)"
    by (simp add: test_main_def empty_bitmap_def)
  also have "\<dots> = Inr (map page_line [0..<0 + sum_list (map pages_needed (19900 # replicate 9 200))])"
    by (rule test_allocations_prints [OF bump_empty]) (simp_all add: p sum_list_replicate)
  also have "sum_list (map pages_needed (19900 # replicate 9 200)) = 14" by (simp add: p sum_list_replicate)
  finally show ?thesis by simp
qed

end
