(* ===== verification/UserPrograms.thy ===== *)
theory UserPrograms
  imports Exceptions PhysUart
begin

text \<open>
  Programs on EL0: the system call stub \<open>sys_write\<close> of \<^verbatim>\<open>kernel/core/kmain.c\<close>, inline assembly whose
  operands the compiler places, run against the vectors of \<open>Exceptions\<close>; and the two counting
  loops of \<^verbatim>\<open>kernel-simple-scheduler/user/user.c\<close>.
\<close>

section \<open>sys_write\<close>

text \<open>
  The registers the compiler chooses for the operands.  The constraints are \<open>"r"\<close> and \<open>"=r"\<close>: the inputs
  are in three different registers, none is the clobbered \<open>x8\<close>, and the output, which the assembly
  never writes, may share the register of an input.
\<close>

record operands =
  fd_reg :: nat
  buff_reg :: nat
  size_reg :: nat
  result_reg :: nat

definition operands_ok :: "operands \<Rightarrow> bool" where
  "operands_ok ops \<longleftrightarrow> distinct [fd_reg ops, buff_reg ops, size_reg ops, 8] \<and> result_reg ops \<noteq> 8 \<and>
     fd_reg ops < 31 \<and> buff_reg ops < 31 \<and> size_reg ops < 31 \<and> result_reg ops < 31"

text \<open>\<open>svc #0\<close>: the syndrome holds the class 0x15, and the exception returns behind the instruction.\<close>

definition svc :: "(machine \<Rightarrow> machine) \<Rightarrow> (machine \<Rightarrow> machine) \<Rightarrow> u64 \<Rightarrow> machine \<Rightarrow> machine option" where
  "svc irq_dispatcher syscall_dispatcher vbar m =
     exception irq_dispatcher syscall_dispatcher vbar SYNC (m\<lparr>PC := PC m + 4, ESR := 0x56000000\<rparr>)"

definition sys_write :: "(machine \<Rightarrow> machine) \<Rightarrow> (machine \<Rightarrow> machine) \<Rightarrow> u64 \<Rightarrow> operands \<Rightarrow> u64 \<Rightarrow> u64 \<Rightarrow> u64 \<Rightarrow> machine \<Rightarrow> (u64 \<times> machine) option" where
  "sys_write irq_dispatcher syscall_dispatcher vbar ops fd buff sz m =
    (let m = mov_x (fd_reg ops) fd m;
         m = mov_x (buff_reg ops) buff m;
         m = mov_x (size_reg ops) sz m;
         m = mov_x 8 64 m
     in Option.bind (svc irq_dispatcher syscall_dispatcher vbar m) (\<lambda>m.
        let result = X m (result_reg ops) in Some (result, m)))"

section \<open>user.c of kernel-simple-scheduler\<close>

text \<open>One round of the loop, with the counter and the bus of the serial port.\<close>

definition user_loop_round :: "device \<Rightarrow> (u64 \<Rightarrow> u8) \<Rightarrow> u64 \<Rightarrow> u64 \<times> bus \<Rightarrow> (u64 \<times> bus) option" where
  "user_loop_round dev mem text s =
    (case s of (counter, c) \<Rightarrow>
       Option.bind (if counter = 10000000000 then map_option (Pair 0) (phys_puts dev mem text c) else Some (counter, c))
         (\<lambda>(counter, c). Some (counter + 1, c)))"

fun user_loop_rounds :: "device \<Rightarrow> (u64 \<Rightarrow> u8) \<Rightarrow> u64 \<Rightarrow> nat \<Rightarrow> u64 \<times> bus \<Rightarrow> (u64 \<times> bus) option" where
  "user_loop_rounds dev mem text 0 s = Some s"
| "user_loop_rounds dev mem text (Suc n) s = Option.bind (user_loop_rounds dev mem text n s) (user_loop_round dev mem text)"

text \<open>The two programs after \<open>n\<close> rounds; they differ in the text.\<close>

definition user_loop_A :: "device \<Rightarrow> (u64 \<Rightarrow> u8) \<Rightarrow> u64 \<Rightarrow> nat \<Rightarrow> bus \<Rightarrow> (u64 \<times> bus) option" where
  "user_loop_A dev mem text_A n c = user_loop_rounds dev mem text_A n (1, c)"

definition user_loop_B :: "device \<Rightarrow> (u64 \<Rightarrow> u8) \<Rightarrow> u64 \<Rightarrow> nat \<Rightarrow> bus \<Rightarrow> (u64 \<times> bus) option" where
  "user_loop_B dev mem text_B n c = user_loop_rounds dev mem text_B n (1, c)"

section \<open>The counting loops\<close>

lemma counter_word:
  "(of_nat (1 + n mod 10000000000) :: u64) = 10000000000 \<longleftrightarrow> Suc n mod 10000000000 = 0"
proof -
  have "(of_nat k :: u64) = of_nat l \<longleftrightarrow> k = l" if "k < 2 ^ 64" "l < 2 ^ 64" for k l
    using that by (simp add: word_unat_eq_iff unsigned_of_nat take_bit_nat_eq_self)
  from this [of "1 + n mod 10000000000" 10000000000]
  have "(of_nat (1 + n mod 10000000000) :: u64) = 10000000000 \<longleftrightarrow> 1 + n mod 10000000000 = 10000000000"
    by simp
  then show ?thesis by (simp add: mod_Suc)
qed

lemma user_loop_counts:
  assumes "uart_live dev" and "cstring mem text line"
  shows "\<exists>c'. user_loop_rounds (phys_device dev) mem text n (1, c) = Some (of_nat (1 + n mod 10000000000), c') \<and>
    data_out (relocate c') = data_out (relocate c) @ concat (replicate (n div 10000000000) line)"
proof (induction n)
  case (Suc n)
  then obtain c1 where c1: "user_loop_rounds (phys_device dev) mem text n (1, c) = Some (of_nat (1 + n mod 10000000000), c1)"
    "data_out (relocate c1) = data_out (relocate c) @ concat (replicate (n div 10000000000) line)"
    by blast
  show ?case
  proof (cases "Suc n mod 10000000000 = 0")
    case True
    obtain c2 where c2: "phys_puts (phys_device dev) mem text c1 = Some c2" "data_out (relocate c2) = data_out (relocate c1) @ line"
      using minimal_kernel_prints [OF assms, of c1] by (auto simp: kernel_s_print_eq)
    have "concat (replicate k line) @ line = concat (replicate (Suc k) line)" for k
      by (induction k) simp_all
    moreover have "Suc n div 10000000000 = Suc (n div 10000000000)" using True by (simp add: div_Suc)
    ultimately show ?thesis
      using True c1 c2 counter_word [of n] by (simp add: user_loop_round_def)
  next
    case False
    then have "Suc n mod 10000000000 = Suc (n mod 10000000000)" "Suc n div 10000000000 = n div 10000000000"
      by (simp_all add: mod_Suc div_Suc split: if_splits)
    then show ?thesis using c1 counter_word [of n] False by (simp add: user_loop_round_def add.commute)
  qed
qed simp

section \<open>Properties\<close>

text \<open>
  The programs of \<^verbatim>\<open>kernel-simple-scheduler\<close>: on a working serial port, after any number of
  rounds the counter is back at what it was every ten thousand million rounds, and the program
  has printed its line once for each of them.
\<close>

lemma user_loops_print:
  assumes "uart_live dev" and "cstring mem text_A line_A" and "cstring mem text_B line_B"
  shows "(\<exists>c'. user_loop_A (phys_device dev) mem text_A n c = Some (of_nat (1 + n mod 10000000000), c') \<and>
      data_out (relocate c') = data_out (relocate c) @ concat (replicate (n div 10000000000) line_A)) \<and>
    (\<exists>c'. user_loop_B (phys_device dev) mem text_B n c = Some (of_nat (1 + n mod 10000000000), c') \<and>
      data_out (relocate c') = data_out (relocate c) @ concat (replicate (n div 10000000000) line_B))"
  unfolding user_loop_A_def user_loop_B_def
  using user_loop_counts [OF assms(1,2)] user_loop_counts [OF assms(1,3)] by blast

text \<open>
  C40. What \<open>sys_write\<close> passes and returns, for every choice of the registers.  The dispatcher is
  called with the number 64, with the table base as its first argument, and with whatever \<open>x1\<close>
  and \<open>x2\<close> hold as the others: the buffer and the size only where the compiler put them there.
  The program goes on behind the call with all its registers as they were, so the result is
  what the result's register held before: an argument when they share it, and never the number of
  bytes written.
\<close>

theorem sys_write_result:
  assumes "vbar AND 0x7FF = 0" and "from_program (PSTATE m)" and "operands_ok ops"
    and "\<forall>t. SP (sysd t) = SP t" and "\<forall>t. \<forall>a \<in> frame (SP m - CTX_SIZE). words (sysd t) a = words t a"
  shows "\<exists>r m'. sys_write irqd sysd vbar ops fd buff sz m = Some (r, m') \<and> PC m' = PC m + 4 \<and> SP m' = SP m \<and>
    r = (if result_reg ops = fd_reg ops then fd else if result_reg ops = buff_reg ops then buff
         else if result_reg ops = size_reg ops then sz else X m (result_reg ops)) \<and>
    (\<exists>t. m' = RESTORE_AND_ERET (sysd t) \<and> X t 0 = TTBR0 m \<and> X t 7 = 64 \<and>
       X t 1 = (if fd_reg ops = 1 then fd else if buff_reg ops = 1 then buff else if size_reg ops = 1 then sz else X m 1) \<and>
       X t 2 = (if fd_reg ops = 2 then fd else if buff_reg ops = 2 then buff else if size_reg ops = 2 then sz else X m 2))"
proof -
  define m1 where "m1 = (mov_x 8 64 (mov_x (size_reg ops) sz (mov_x (buff_reg ops) buff (mov_x (fd_reg ops) fd m))))
    \<lparr>PC := PC m + 4, ESR := 0x56000000\<rparr>"
  have m1: "PSTATE m1 = PSTATE m" "SP m1 = SP m" "ESR m1 = 0x56000000" "PC m1 = PC m + 4" "TTBR0 m1 = TTBR0 m" "X m1 8 = 64"
    by (simp_all add: m1_def mov_x_def)
  have x: "X m1 i = (if i = fd_reg ops then fd else if i = buff_reg ops then buff else if i = size_reg ops then sz else X m i)"
    if "i \<noteq> 8" for i
    using that assms(3) by (auto simp: m1_def operands_ok_def)
  define v where "v = vector_of vbar SYNC (PSTATE m)"
  let ?m' = "el0_sync_entry sysd (take_exception v m1)"
  have pc: "PC (mov_x a w n) = PC n" for a w and n :: machine by (simp add: mov_x_def)
  have s: "sys_write irqd sysd vbar ops fd buff sz m = Some (X ?m' (result_reg ops), ?m')"
    using exception_reaches(1) [OF assms(1), of irqd sysd SYNC m1] assms(2)
    by (simp add: sys_write_def svc_def Let_def m1 handler_for_def kernel_handler_def v_def pc flip: m1_def)
  have svc: "drop_bit 26 (ESR m1) = 0x15" by (simp add: m1)
  have r: "running ?m' = running m1" "SP ?m' = SP m"
    using el0_system_call [OF svc assms(4), where v = v] assms(5) by (simp_all add: m1)
  have "X ?m' i = X m1 i" if "i < 31" for i
  proof -
    have "x_regs (running ?m') ! i = x_regs (running m1) ! i" by (simp add: r)
    then show ?thesis using that by (simp add: running_def)
  qed
  moreover have "PC ?m' = PC m1" using arg_cong [OF r(1), of elr_el1] by (simp add: running_def)
  moreover define t where "t = mov_x 7 (X m1 8) (mov_x 11 (drop_bit 26 (ESR m1)) (mov_x 10 (ESR m1) (SAVE_CONTEXT (take_exception v m1))))"
  have "?m' = RESTORE_AND_ERET (sysd t)"
    using svc by (simp add: el0_sync_entry_def Let_def SAVE_CONTEXT_rest t_def)
  moreover have "X t 0 = TTBR0 m" "X t 7 = 64" "X t 1 = X m1 1" "X t 2 = X m1 2"
    by (simp_all add: t_def SAVE_CONTEXT_X m1)
  ultimately show ?thesis
    using s r(2) m1 x assms(3) by (intro exI [of _ "X ?m' (result_reg ops)"] exI [of _ ?m']) (auto simp: operands_ok_def)
qed

section \<open>The properties at concrete states\<close>

text \<open>The registers of \<^verbatim>\<open>kernel.elf\<close>: the result is in \<open>x9\<close>, where the first argument is.\<close>

definition elf_operands :: operands where
  "elf_operands = \<lparr>fd_reg = 9, buff_reg = 10, size_reg = 11, result_reg = 9\<rparr>"

theorem sys_write_result_witness:
  "\<exists>m'. sys_write id id 0xFFFF000080002800 elf_operands 1 0xC0005FE0 512 user_machine = Some (1, m')"
  using sys_write_result [of "0xFFFF000080002800" user_machine elf_operands id id 1 "0xC0005FE0" 512]
  by (auto simp: user_machine_def elf_operands_def operands_ok_def from_program_def)

lemma user_loops_print_witness:
  "\<exists>c'. user_loop_A (phys_device ready_uart) ((\<lambda>_. 0)(5 := 65)) 5 20000000000 [] = Some (1, c') \<and> data_out (relocate c') = [65, 65]"
proof -
  have s: "cstring ((\<lambda>_. 0)(5 := 65)) 5 [65]" "cstring ((\<lambda>_. 0)(5 := 65)) 6 []" by simp_all
  obtain c' where "user_loop_A (phys_device ready_uart) ((\<lambda>_. 0)(5 := 65)) 5 20000000000 [] = Some (1, c')"
    "data_out (relocate c') = data_out (relocate []) @ [65, 65]"
    using user_loops_print [OF ready_uart_live s, of 20000000000 "[]"] by (auto simp: numeral_2_eq_2)
  then show ?thesis by (auto simp: relocate_def data_out_def)
qed

end
