(* ===== verification/Traps.thy ===== *)
theory Traps
  imports System UserPrograms Simulation
begin

text \<open>
  The kernel under every exception.  \<open>System\<close> interleaves programs with timer interrupts; here system
  calls, faults, fast interrupts and system errors come at any time as well, each through the
  table of \<open>Exceptions\<close>.  A fault leaves a frame on the kernel stack, so the relation to the ring
  counts the faults of every task: the base of its frames moves down with each.
\<close>

section \<open>Events\<close>

datatype trap_event =
    Runs "u64 \<Rightarrow> Context \<Rightarrow> Context"
  | Timer
  | SystemCall
  | Fault u64
  | FastInterrupt
  | SystemError

text \<open>
  \<open>clob\<close> and \<open>sysd\<close> are what the C functions do to registers and memory; the effect of \<open>irq_dispatcher\<close>
  on the scheduler and the frame it returns are those of its model.
\<close>

definition system_timer :: "(machine \<Rightarrow> machine) \<Rightarrow> (machine \<Rightarrow> machine) \<Rightarrow> device \<Rightarrow> u64 \<Rightarrow> system \<Rightarrow> system option" where
  "system_timer clob sysd dev vbar s =
    (let (c, sc) = irq_dispatcher dev (SP (mach s) - CTX_SIZE) ((scd s)\<lparr>SPSR_EL1 := PSTATE (mach s)\<rparr>)
     in map_option (\<lambda>m. \<lparr>mach = m, scd = sc\<rparr>) (exception (\<lambda>t. mov_x 0 c (clob t)) sysd vbar IRQ (mach s)))"

fun system_event :: "(machine \<Rightarrow> machine) \<Rightarrow> (machine \<Rightarrow> machine) \<Rightarrow> device \<Rightarrow> u64 \<Rightarrow> trap_event \<Rightarrow> system \<Rightarrow> system option" where
  "system_event clob sysd dev vbar (Runs u) s = Some (user_run (u (current (scd s))) s)"
| "system_event clob sysd dev vbar Timer s = system_timer clob sysd dev vbar s"
| "system_event clob sysd dev vbar SystemCall s = map_option (\<lambda>m. s\<lparr>mach := m\<rparr>) (svc clob sysd vbar (mach s))"
| "system_event clob sysd dev vbar (Fault esr) s =
     map_option (\<lambda>m. s\<lparr>mach := m\<rparr>) (exception clob sysd vbar SYNC ((mach s)\<lparr>ESR := esr\<rparr>))"
| "system_event clob sysd dev vbar FastInterrupt s = map_option (\<lambda>m. s\<lparr>mach := m\<rparr>) (exception clob sysd vbar FIQ (mach s))"
| "system_event clob sysd dev vbar SystemError s = map_option (\<lambda>m. s\<lparr>mach := m\<rparr>) (exception clob sysd vbar SERROR (mach s))"

primrec system_events :: "(machine \<Rightarrow> machine) \<Rightarrow> (machine \<Rightarrow> machine) \<Rightarrow> device \<Rightarrow> u64 \<Rightarrow> trap_event list \<Rightarrow> system \<Rightarrow> system option" where
  "system_events clob sysd dev vbar [] s = Some s"
| "system_events clob sysd dev vbar (e # es) s =
     Option.bind (system_event clob sysd dev vbar e s) (system_events clob sysd dev vbar es)"

section \<open>The ring under events\<close>

text \<open>What a fault does to the context of the program that makes it.\<close>

definition faulted :: "u64 \<Rightarrow> Context \<Rightarrow> Context" where
  "faulted esr c = c\<lparr>x_regs := (x_regs c)[0 := ttbr0_el1 c, 10 := esr, 11 := drop_bit 26 esr]\<rparr>"

definition called :: "Context \<Rightarrow> Context" where
  "called c = c\<lparr>elr_el1 := elr_el1 c + 4\<rparr>"

text \<open>The ring with the number of faults of every task.\<close>

fun ring_event :: "trap_event \<Rightarrow> ring \<times> (u64 \<Rightarrow> nat) \<Rightarrow> ring \<times> (u64 \<Rightarrow> nat)" where
  "ring_event (Runs u) (r, D) = (ring_run u r, D)"
| "ring_event Timer (r, D) = (ring_tick r, D)"
| "ring_event SystemCall (r, D) = (ring_run (\<lambda>_. called) r, D)"
| "ring_event (Fault esr) (r, D) = (ring_run (\<lambda>_. faulted esr) r, D(hd (fst r) := Suc (D (hd (fst r)))))"
| "ring_event FastInterrupt (r, D) = (r, D)"
| "ring_event SystemError (r, D) = (r, D)"

fun is_fault :: "trap_event \<Rightarrow> bool" where
  "is_fault (Fault esr) = True"
| "is_fault _ = False"

text \<open>Events that can happen: programs stay at EL0, and the syndrome of a fault is not that of a call.\<close>

definition program_context :: "Context \<Rightarrow> bool" where
  "program_context c \<longleftrightarrow> user_context c \<and> from_program (spsr_el1 c)"

fun event_ok :: "trap_event \<Rightarrow> bool" where
  "event_ok (Runs u) = (\<forall>t c. program_context c \<longrightarrow> program_context (u t c))"
| "event_ok (Fault esr) = (drop_bit 26 esr \<noteq> 0x15)"
| "event_ok _ = True"

section \<open>The relation\<close>

definition frame_after :: "(u64 \<Rightarrow> u64) \<Rightarrow> u64 \<Rightarrow> nat \<Rightarrow> u64" where
  "frame_after B t n = B t - of_nat n * CTX_SIZE"

definition stacks_apart :: "(u64 \<Rightarrow> u64) \<Rightarrow> nat \<Rightarrow> u64 list \<Rightarrow> bool" where
  "stacks_apart B N xs \<longleftrightarrow> (\<forall>s \<in> set xs. \<forall>t \<in> set xs. s \<noteq> t \<longrightarrow>
     (\<forall>i \<le> N. \<forall>j \<le> N. frame (frame_after B s i) \<inter> frame (frame_after B t j) = {}))"

definition keeps_stacks :: "(u64 \<Rightarrow> u64) \<Rightarrow> nat \<Rightarrow> u64 list \<Rightarrow> (machine \<Rightarrow> machine) \<Rightarrow> bool" where
  "keeps_stacks B N xs f \<longleftrightarrow> (\<forall>t \<in> set xs. \<forall>i \<le> N. \<forall>a \<in> frame (frame_after B t i). \<forall>m. words (f m) a = words m a)"

fun trap_rel :: "(u64 \<Rightarrow> u64) \<Rightarrow> nat \<Rightarrow> system \<Rightarrow> ring \<times> (u64 \<Rightarrow> nat) \<Rightarrow> bool" where
  "trap_rel B N s ((xs, k, P), D) \<longleftrightarrow>
     system_rel (\<lambda>t. frame_after B t (D t)) s (xs, k, P) \<and>
     (\<forall>t \<in> set xs. D t \<le> N \<and> program_context (P t))"

section \<open>Steps\<close>

text \<open>The running program is at its context, the others are in the frames they were in.\<close>

lemma frames_apart_after:
  "stacks_apart B N xs \<Longrightarrow> \<forall>t \<in> set xs. D t \<le> N \<Longrightarrow> frames_apart (\<lambda>t. frame_after B t (D t)) xs"
  by (auto simp: stacks_apart_def frames_apart_def)

lemma running_replaced:
  assumes "system_rel F s (xs, k, P)" and "user_context c" and "running m = c" and "SP m = F' (hd xs) + CTX_SIZE"
    and "\<forall>t \<in> set (tl xs). F' t = F t \<and> context_at (words m) (F t) = context_at (words (mach s)) (F t)"
    and "frames_apart F' xs"
  shows "system_rel F' (s\<lparr>mach := m\<rparr>) (xs, k, P(hd xs := c))"
proof -
  have "hd xs \<notin> set (tl xs)" using sched_inv_hd [of "scd s" xs k] assms(1) by auto
  then show ?thesis using assms by auto
qed

text \<open>The synchronous exceptions leave the frames of the other tasks as they were.\<close>

lemma el0_fault_outside:
  assumes "drop_bit 26 (ESR s) \<noteq> 0x15" and "b \<notin> frame (SP s - CTX_SIZE)"
  shows "words (el0_sync_entry disp (take_exception v s)) b = words s b"
  using assms SAVE_CONTEXT_outside [of b "take_exception v s"]
  by (simp add: el0_sync_entry_def Let_def SAVE_CONTEXT_rest eret_def)

lemma el0_call_outside:
  assumes "drop_bit 26 (ESR s) = 0x15" and "b \<notin> frame (SP s - CTX_SIZE)" and "\<forall>t. words (disp t) b = words t b"
  shows "words (el0_sync_entry disp (take_exception v s)) b = words s b"
  using assms SAVE_CONTEXT_outside [of b "take_exception v s"]
  by (simp add: el0_sync_entry_def Let_def SAVE_CONTEXT_rest RESTORE_rest)

lemma fault_registers_faulted:
  "(running s)\<lparr>x_regs := fault_registers s\<rparr> = faulted (ESR s) (running s)"
  by (simp add: fault_registers_def faulted_def running_def)

lemma program_context_called: "program_context c \<Longrightarrow> program_context (called c)"
  by (simp add: program_context_def user_context_def called_def)

lemma program_context_faulted: "program_context c \<Longrightarrow> program_context (faulted esr c)"
  by (simp add: program_context_def user_context_def faulted_def)

text \<open>
  An event after which the running program is at \<open>c\<close>, with \<open>d\<close> frames left behind, when the words
  of the other frames are as they were.
\<close>

lemma trap_rel_replaced:
  assumes "trap_rel B N s ((xs, k, P), D)" and "stacks_apart B N xs" and "program_context c" and "d \<le> N"
    and "running m = c" and "SP m = frame_after B (hd xs) d + CTX_SIZE"
    and "\<And>t b. t \<in> set xs \<Longrightarrow> b \<in> frame (frame_after B t (D t)) \<Longrightarrow>
      b \<notin> frame (frame_after B (hd xs) (D (hd xs))) \<Longrightarrow> words m b = words (mach s) b"
  shows "trap_rel B N (s\<lparr>mach := m\<rparr>) ((xs, k, P(hd xs := c)), D(hd xs := d))"
proof -
  let ?F = "\<lambda>t. frame_after B t (D t)" and ?F' = "\<lambda>t. frame_after B t ((D(hd xs := d)) t)"
  have rel: "system_rel ?F s (xs, k, P)" and D: "\<forall>t \<in> set xs. D t \<le> N \<and> program_context (P t)"
    using assms(1) by simp_all
  have h: "hd xs \<in> set xs" "hd xs \<notin> set (tl xs)" using sched_inv_hd [of "scd s" xs k] rel by auto
  have sub: "set (tl xs) \<subseteq> set xs" by (cases xs) auto
  have same: "?F' t = ?F t \<and> context_at (words m) (?F t) = context_at (words (mach s)) (?F t)"
    if t: "t \<in> set (tl xs)" for t
  proof -
    have n: "t \<noteq> hd xs" "t \<in> set xs" using t h sub by auto
    then have "frame (?F t) \<inter> frame (?F (hd xs)) = {}"
      using assms(2) D h(1) by (simp add: stacks_apart_def)
    then have "context_at (words m) (?F t) = context_at (words (mach s)) (?F t)"
      by (intro context_at_cong assms(7) [OF n(2)]) auto
    then show ?thesis using n by simp
  qed
  have D': "\<forall>t \<in> set xs. (D(hd xs := d)) t \<le> N" using D assms(4) by simp
  have "system_rel ?F' (s\<lparr>mach := m\<rparr>) (xs, k, P(hd xs := c))"
    by (rule running_replaced [OF rel _ assms(5)])
      (use same assms(3,6) frames_apart_after [OF assms(2) D'] in \<open>auto simp: program_context_def\<close>)
  then show ?thesis using D D' assms(3) by simp
qed

text \<open>What the relation says about the running program.\<close>

lemma trap_rel_running:
  assumes "trap_rel B N s ((xs, k, P), D)"
  shows "hd xs \<in> set xs" "running (mach s) = P (hd xs)" "program_context (running (mach s))"
    "from_program (PSTATE (mach s))" "SP (mach s) - CTX_SIZE = frame_after B (hd xs) (D (hd xs))"
    "current (scd s) = hd xs"
proof -
  show h: "hd xs \<in> set xs" "current (scd s) = hd xs" using sched_inv_hd [of "scd s" xs k] assms by (auto simp: sched_inv_def)
  show r: "running (mach s) = P (hd xs)" using assms by simp
  then show p: "program_context (running (mach s))" using assms h by simp
  then show "from_program (PSTATE (mach s))" by (simp add: program_context_def running_def)
  show "SP (mach s) - CTX_SIZE = frame_after B (hd xs) (D (hd xs))" using assms by simp
qed

lemma runs_rel:
  assumes "trap_rel B N s ((xs, k, P), D)" and "stacks_apart B N xs" and "event_ok (Runs u)"
  shows "trap_rel B N (user_run (u (current (scd s))) s) ((xs, k, P(hd xs := u (hd xs) (P (hd xs)))), D)"
proof -
  note r = trap_rel_running [OF assms(1)]
  let ?c = "u (hd xs) (P (hd xs))"
  have c: "program_context ?c" using r(2,3) assms(3) by simp
  then have "running (set_running ?c (mach s)) = ?c"
    by (intro running_set_running) (simp add: program_context_def user_context_def)
  then have "trap_rel B N (s\<lparr>mach := set_running ?c (mach s)\<rparr>) ((xs, k, P(hd xs := ?c)), D(hd xs := D (hd xs)))"
    using assms(1) r(1) by (intro trap_rel_replaced [OF assms(1,2) c]) (auto simp: set_running_def)
  then show ?thesis by (simp add: user_run_def r(2,6))
qed

lemma timer_rel:
  assumes "trap_rel B N s ((xs, k, P), D)" and "vbar AND 0x7FF = 0" and "\<forall>h. dev h 0xffff00008141000C AND 0x3FF = 27"
    and "keeps_stacks B N xs clob"
  shows "\<exists>s'. system_timer clob sysd dev vbar s = Some s' \<and> trap_rel B N s' (ring_tick (xs, k, P), D)"
proof -
  let ?s' = "system_irq clob dev (vector_of vbar IRQ (PSTATE (mach s))) s"
  have "system_timer clob sysd dev vbar s = Some ?s'"
    by (simp add: system_timer_def system_irq_def Let_def exception_reaches(1) [OF assms(2)] handler_for_def
        kernel_handler_def split: prod.splits)
  moreover have "system_rel (\<lambda>t. frame_after B t (D t)) ?s' (ring_tick (xs, k, P))"
    using assms(1,4) by (intro system_irq_rel assms(3)) (auto simp: keeps_stacks_def)
  ultimately show ?thesis using assms(1) by (cases "1 < k") (simp_all del: system_rel.simps)
qed

lemma call_rel:
  assumes "trap_rel B N s ((xs, k, P), D)" and "vbar AND 0x7FF = 0" and "stacks_apart B N xs"
    and "keeps_stacks B N xs sysd" and "\<forall>t. SP (sysd t) = SP t"
  shows "\<exists>m. svc clob sysd vbar (mach s) = Some m \<and>
    trap_rel B N (s\<lparr>mach := m\<rparr>) ((xs, k, P(hd xs := called (P (hd xs)))), D)"
proof -
  note r = trap_rel_running [OF assms(1)]
  let ?n = "(mach s)\<lparr>PC := PC (mach s) + 4, ESR := 0x56000000\<rparr>"
  let ?m = "el0_sync_entry sysd (take_exception (vector_of vbar SYNC (PSTATE (mach s))) ?n)"
  have D: "\<forall>t \<in> set xs. D t \<le> N" using assms(1) by simp
  have keep: "words (sysd t) b = words t b" if "x \<in> set xs" "b \<in> frame (frame_after B x (D x))" for t x b
    using assms(4) that D by (auto simp: keeps_stacks_def)
  have esr: "drop_bit 26 (ESR ?n) = 0x15" by simp
  have frm: "\<forall>t. \<forall>a \<in> frame (SP ?n - CTX_SIZE). words (sysd t) a = words t a"
    using keep [OF r(1)] r(5) by simp
  have n: "running ?n = called (P (hd xs))" by (simp add: called_def running_def flip: r(2))
  have run: "running ?m = called (P (hd xs))" "SP ?m = SP (mach s)"
    using el0_system_call [OF esr assms(5) frm] n by simp_all
  have "svc clob sysd vbar (mach s) = Some ?m"
    using r(4) by (simp add: svc_def exception_reaches(1) [OF assms(2)] handler_for_def kernel_handler_def)
  moreover have "trap_rel B N (s\<lparr>mach := ?m\<rparr>) ((xs, k, P(hd xs := called (P (hd xs)))), D(hd xs := D (hd xs)))"
  proof (rule trap_rel_replaced [OF assms(1,3) _ _ run(1)])
    show "program_context (called (P (hd xs)))" using r(2,3) by (simp add: program_context_called)
    show "SP ?m = frame_after B (hd xs) (D (hd xs)) + CTX_SIZE" using run(2) r(5) by (simp add: algebra_simps)
    show "words ?m b = words (mach s) b"
      if "t \<in> set xs" "b \<in> frame (frame_after B t (D t))" "b \<notin> frame (frame_after B (hd xs) (D (hd xs)))" for t b
      using el0_call_outside [OF esr, of b sysd] that keep r(5) by simp
  qed (use D r(1) in simp)
  ultimately show ?thesis by simp
qed

lemma fault_rel:
  assumes "trap_rel B N s ((xs, k, P), D)" and "vbar AND 0x7FF = 0" and "stacks_apart B N xs"
    and "drop_bit 26 esr \<noteq> 0x15" and "D (hd xs) < N"
  shows "\<exists>m. exception clob sysd vbar SYNC ((mach s)\<lparr>ESR := esr\<rparr>) = Some m \<and>
    trap_rel B N (s\<lparr>mach := m\<rparr>) ((xs, k, P(hd xs := faulted esr (P (hd xs)))), D(hd xs := Suc (D (hd xs))))"
proof -
  note r = trap_rel_running [OF assms(1)]
  let ?n = "(mach s)\<lparr>ESR := esr\<rparr>"
  let ?m = "el0_sync_entry sysd (take_exception (vector_of vbar SYNC (PSTATE (mach s))) ?n)"
  have esr: "drop_bit 26 (ESR ?n) \<noteq> 0x15" using assms(4) by simp
  have n: "running ?n = P (hd xs)" using r(2) by (simp add: running_def)
  have run: "running ?m = faulted esr (P (hd xs))" "SP ?m = SP (mach s) - CTX_SIZE"
    using el0_fault [OF esr] fault_registers_faulted [of ?n] n by simp_all
  have "exception clob sysd vbar SYNC ?n = Some ?m"
    using r(4) by (simp add: exception_reaches(1) [OF assms(2)] handler_for_def kernel_handler_def)
  moreover have "trap_rel B N (s\<lparr>mach := ?m\<rparr>)
      ((xs, k, P(hd xs := faulted esr (P (hd xs)))), D(hd xs := Suc (D (hd xs))))"
  proof (rule trap_rel_replaced [OF assms(1,3) _ _ run(1)])
    show "program_context (faulted esr (P (hd xs)))" using r(2,3) by (simp add: program_context_faulted)
    show "SP ?m = frame_after B (hd xs) (Suc (D (hd xs))) + CTX_SIZE"
      using run(2) r(5) by (simp add: frame_after_def algebra_simps)
    show "words ?m b = words (mach s) b"
      if "t \<in> set xs" "b \<in> frame (frame_after B t (D t))" "b \<notin> frame (frame_after B (hd xs) (D (hd xs)))" for t b
      using el0_fault_outside [OF esr, of b sysd] that r(5) by simp
  qed (use assms(5) in simp)
  ultimately show ?thesis by blast
qed

text \<open>Fast interrupts and system errors.\<close>

lemma default_rel:
  assumes "trap_rel B N s ((xs, k, P), D)" and "vbar AND 0x7FF = 0" and "stacks_apart B N xs" and "e = FIQ \<or> e = SERROR"
  shows "\<exists>m. exception clob sysd vbar e (mach s) = Some m \<and> trap_rel B N (s\<lparr>mach := m\<rparr>) ((xs, k, P), D)"
proof -
  note r = trap_rel_running [OF assms(1)]
  let ?m = "default_entry (take_exception (vector_of vbar e (PSTATE (mach s))) (mach s))"
  have run: "running ?m = P (hd xs)" "SP ?m = SP (mach s)" "words ?m = words (mach s)"
    using default_entry_resumes r(2) by simp_all
  have "exception clob sysd vbar e (mach s) = Some ?m"
    using assms(4) by (auto simp: exception_reaches(1) [OF assms(2)] handler_for_def kernel_handler_def)
  moreover have "trap_rel B N (s\<lparr>mach := ?m\<rparr>) ((xs, k, P(hd xs := P (hd xs))), D(hd xs := D (hd xs)))"
    by (rule trap_rel_replaced [OF assms(1,3) _ _ run(1)])
      (use assms(1) r run(2,3) in \<open>auto simp: algebra_simps\<close>)
  ultimately show ?thesis by simp
qed

lemma system_event_rel:
  assumes "trap_rel B N s (r, D)" and "vbar AND 0x7FF = 0" and "\<forall>h. dev h 0xffff00008141000C AND 0x3FF = 27"
    and "stacks_apart B N (fst r)" and "keeps_stacks B N (fst r) clob" and "keeps_stacks B N (fst r) sysd"
    and "\<forall>t. SP (sysd t) = SP t" and "event_ok e" and "is_fault e \<Longrightarrow> D (hd (fst r)) < N"
  shows "\<exists>s'. system_event clob sysd dev vbar e s = Some s' \<and> trap_rel B N s' (ring_event e (r, D))"
proof -
  obtain xs k P where r: "r = (xs, k, P)" by (cases r)
  note rel = assms(1) [unfolded r] and apart = assms(4) [unfolded r fst_conv]
    and keep = assms(5,6) [unfolded r fst_conv]
  show ?thesis
  proof (cases e)
    case (Runs u)
    then show ?thesis using runs_rel [OF rel apart, of u] assms(8) by (simp add: r)
  next
    case Timer
    then show ?thesis using timer_rel [where dev = dev, OF rel assms(2,3) keep(1)] by (simp add: r del: trap_rel.simps)
  next
    case SystemCall
    then show ?thesis using call_rel [OF rel assms(2) apart keep(2) assms(7), of clob] by (auto simp: r simp del: trap_rel.simps)
  next
    case (Fault esr)
    then show ?thesis
      using fault_rel [where clob = clob and sysd = sysd and esr = esr, OF rel assms(2) apart] assms(8,9) by (auto simp: r simp del: trap_rel.simps)
  next
    case FastInterrupt
    then show ?thesis using default_rel [where e = FIQ and clob = clob and sysd = sysd, OF rel assms(2) apart] by (auto simp: r simp del: trap_rel.simps)
  next
    case SystemError
    then show ?thesis using default_rel [where e = SERROR and clob = clob and sysd = sysd, OF rel assms(2) apart] by (auto simp: r simp del: trap_rel.simps)
  qed
qed

text \<open>The tasks of the ring stay, and one fault is counted for each.\<close>

lemma ring_event_tasks: "set (fst (fst (ring_event e (r, D)))) = set (fst r)"
  by (cases e; cases r) simp_all

lemma ring_event_faults: "snd (ring_event e (r, D)) t + length (filter is_fault es) \<le> D t + length (filter is_fault (e # es))"
  by (cases e) simp_all

lemma stacks_same_tasks:
  "set xs = set ys \<Longrightarrow> stacks_apart B N xs = stacks_apart B N ys" "set xs = set ys \<Longrightarrow> keeps_stacks B N xs = keeps_stacks B N ys"
  by (simp_all add: stacks_apart_def keeps_stacks_def fun_eq_iff)

text \<open>
  What the relation of a run needs besides \<open>trap_rel\<close>: the machine and its C code stay the same.  The frames of the
  task that has made most faults are what a run has spent.
\<close>

definition trap_env :: "(u64 \<Rightarrow> u64) \<Rightarrow> nat \<Rightarrow> (machine \<Rightarrow> machine) \<Rightarrow> (machine \<Rightarrow> machine) \<Rightarrow> device \<Rightarrow> u64 \<Rightarrow> u64 list \<Rightarrow> bool" where
  "trap_env B N clob sysd dev vbar xs \<longleftrightarrow>
     vbar AND 0x7FF = 0 \<and> (\<forall>h. dev h 0xffff00008141000C AND 0x3FF = 27) \<and> (\<forall>t. SP (sysd t) = SP t) \<and>
     stacks_apart B N xs \<and> keeps_stacks B N xs clob \<and> keeps_stacks B N xs sysd"

fun faults_spent :: "ring \<times> (u64 \<Rightarrow> nat) \<Rightarrow> nat" where
  "faults_spent ((xs, k, P), D) = Max (D ` set xs)"

interpretation trap_runs: budgeted_simulation "system_event clob sysd dev vbar" ring_event
    "\<lambda>s a. trap_rel B N s a \<and> trap_env B N clob sysd dev vbar (fst (fst a))"
    "\<lambda>e a. event_ok e \<and> (is_fault e \<longrightarrow> snd a (hd (fst (fst a))) < N)"
    event_ok "\<lambda>e. if is_fault e then 1 else 0" faults_spent N
  for B N clob sysd dev vbar
proof unfold_locales
  fix s a e
  assume rel: "trap_rel B N s a \<and> trap_env B N clob sysd dev vbar (fst (fst a))"
    and fits: "event_ok e \<and> (is_fault e \<longrightarrow> snd a (hd (fst (fst a))) < N)"
  obtain r D where a: "a = (r, D)" by (cases a)
  obtain r1 D1 where r1: "ring_event e (r, D) = (r1, D1)" by fastforce
  have "set (fst r1) = set (fst r)" using ring_event_tasks [of e r D] by (simp add: r1)
  then have "trap_env B N clob sysd dev vbar (fst r1) = trap_env B N clob sysd dev vbar (fst r)"
    using stacks_same_tasks [of "fst r1" "fst r"] by (simp add: trap_env_def)
  moreover have "\<exists>s'. system_event clob sysd dev vbar e s = Some s' \<and> trap_rel B N s' (ring_event e (r, D))"
    by (rule system_event_rel) (use rel fits in \<open>simp_all add: a trap_env_def\<close>)
  ultimately show "\<exists>s'. system_event clob sysd dev vbar e s = Some s' \<and>
      trap_rel B N s' (ring_event e a) \<and> trap_env B N clob sysd dev vbar (fst (fst (ring_event e a)))"
    using rel by (simp add: a r1)
next
  fix s a e
  assume rel: "trap_rel B N s a \<and> trap_env B N clob sysd dev vbar (fst (fst a))" and ok: "event_ok e"
    and room: "faults_spent a + (if is_fault e then 1 else 0) \<le> N"
  obtain xs k P D where a: "a = ((xs, k, P), D)" by (metis prod.collapse)
  have "hd xs \<in> set xs" using rel trap_rel_running(1) by (fastforce simp: a)
  then have "D (hd xs) \<le> faults_spent a" by (simp add: a)
  then show "event_ok e \<and> (is_fault e \<longrightarrow> snd a (hd (fst (fst a))) < N)" using ok room by (cases "is_fault e") (simp_all add: a)
next
  fix s a e
  assume rel: "trap_rel B N s a \<and> trap_env B N clob sysd dev vbar (fst (fst a))"
  obtain xs k P D where a: "a = ((xs, k, P), D)" by (metis prod.collapse)
  have hd: "hd xs \<in> set xs" using rel trap_rel_running(1) by (fastforce simp: a)
  obtain ys l Q D1 where e: "ring_event e a = ((ys, l, Q), D1)" by (metis prod.collapse)
  have ys: "set ys = set xs" using ring_event_tasks [of e "(xs, k, P)" D] e by (simp add: a)
  have "D1 t \<le> Max (D ` set xs) + (if is_fault e then 1 else 0)" if "t \<in> set ys" for t
    using that ring_event_faults [of e "(xs, k, P)" D t "[]"] Max_ge [of "D ` set xs" "D t"] e ys by (fastforce simp: a)
  moreover have "faults_spent (ring_event e a) = Max (D1 ` set xs)" "set xs \<noteq> {}" using hd by (auto simp: e ys)
  ultimately show "faults_spent (ring_event e a) \<le> faults_spent a + (if is_fault e then 1 else 0)"
    by (simp add: a ys)
qed

lemma system_events_run: "system_events clob sysd dev vbar es s = run_events (system_event clob sysd dev vbar) es s"
  by (induction es arbitrary: s) (simp_all cong: Option.bind_cong)

lemma events_rel:
  assumes "trap_rel B N s (r, D)" and "vbar AND 0x7FF = 0" and "\<forall>h. dev h 0xffff00008141000C AND 0x3FF = 27"
    and "stacks_apart B N (fst r)" and "keeps_stacks B N (fst r) clob" and "keeps_stacks B N (fst r) sysd"
    and "\<forall>t. SP (sysd t) = SP t" and "\<forall>e \<in> set es. event_ok e"
    and "\<forall>t \<in> set (fst r). D t + length (filter is_fault es) \<le> N"
  shows "\<exists>s'. system_events clob sysd dev vbar es s = Some s' \<and> trap_rel B N s' (fold ring_event es (r, D))"
proof -
  have env: "trap_env B N clob sysd dev vbar (fst r)" using assms(2-7) by (simp add: trap_env_def)
  have n: "(\<Sum>e \<leftarrow> es. if is_fault e then 1 else 0) = length (filter is_fault es)" by (induction es) simp_all
  obtain xs k P where r: "r = (xs, k, P)" by (cases r)
  have "hd xs \<in> set xs" using assms(1) trap_rel_running(1) by (fastforce simp: r)
  then have "faults_spent (r, D) \<in> D ` set xs" by (simp add: r) (rule Max_in, auto)
  then have "faults_spent (r, D) + length (filter is_fault es) \<le> N" using assms(9) by (auto simp: r)
  then show ?thesis
    using trap_runs.run_within_budget [of B N s "(r, D)" clob sysd dev vbar es] assms(1,8) env
    by (auto simp: n system_events_run)
qed

section \<open>The stacks after boot\<close>

text \<open>The frames \<open>init_task\<close> builds, at the top of the kernel stacks of the two tasks.\<close>

definition boot_frames :: "u64 \<Rightarrow> u64" where
  "boot_frames t = (if t = kva 17 then kva 18 + 0xEE0 else kva 21 + 0xEE0)"

lemma frames_disjoint_distance:
  assumes "b = a + of_nat n" and "280 \<le> n" and "n + 280 \<le> 2 ^ 64"
  shows "frame a \<inter> frame b = {}"
proof (rule frames_disjoint)
  have n: "unat (of_nat k :: u64) = k" if "k < 2 ^ 64" for k
    using that by (simp add: unsigned_of_nat take_bit_nat_eq_self)
  have "(of_nat (2 ^ 64 - n) :: u64) = of_nat (2 ^ 64) - of_nat n"
    by (rule of_nat_diff) (use assms(3) in simp)
  also have "(of_nat (2 ^ 64) :: u64) = 0" by simp
  finally have "a - b = of_nat (2 ^ 64 - n)" by (simp add: assms(1))
  then show "280 \<le> unat (a - b)" using n [of "2 ^ 64 - n"] assms(2,3) by simp
  show "280 \<le> unat (b - a)" using n [of n] assms by simp
qed

lemma stacks_apart_pair:
  assumes "B b = B a + of_nat n" and "272 * N + 280 \<le> n" and "n + 272 * N + 280 \<le> 2 ^ 64"
  shows "stacks_apart B N [a, b]"
proof -
  have d: "frame (frame_after B a i) \<inter> frame (frame_after B b j) = {}" if "i \<le> N" "j \<le> N" for i j
  proof (rule frames_disjoint_distance [where n = "n + 272 * i - 272 * j"])
    have "of_nat (n + 272 * i - 272 * j) = (of_nat (n + 272 * i) - of_nat (272 * j) :: u64)"
      by (rule of_nat_diff) (use that assms(2) in simp)
    then show "frame_after B b j = frame_after B a i + of_nat (n + 272 * i - 272 * j)"
      by (simp add: frame_after_def assms(1) CTX_SIZE_def)
  qed (use that assms(2,3) in simp_all)
  then show ?thesis by (auto simp: stacks_apart_def Int_commute)
qed

lemma boot_stacks_apart: "stacks_apart boot_frames 14 [kva 17, kva 20]"
  by (rule stacks_apart_pair [where n = 12288]) (simp_all add: boot_frames_def kva_def)

text \<open>With 14 frames left behind the next one still lies in the page of the stack.\<close>

lemma boot_frames_in_page:
  assumes "i \<le> 14" and "a \<in> frame (frame_after boot_frames (kva 17) i)"
  shows "kva 18 \<le> a \<and> a < kva 18 + STACK_SZ"
proof -
  obtain j where j: "j < 35" "a = frame_after boot_frames (kva 17) i + of_nat j * 8"
    using assms(2) by (auto simp: frame_def)
  have "of_nat (3808 - 272 * i) = (of_nat 3808 - of_nat (272 * i) :: u64)"
    by (rule of_nat_diff) (use assms(1) in simp)
  then have "a = kva 18 + of_nat (3808 - 272 * i + 8 * j)"
    by (simp add: j(2) frame_after_def boot_frames_def CTX_SIZE_def)
  then have "unat a = unat (kva 18) + (3808 - 272 * i + 8 * j)"
    using j(1) by (simp add: unat_word_ariths unsigned_of_nat take_bit_nat_eq_self kva_def)
  then show ?thesis using assms(1) j(1) by (simp add: word_le_nat_alt word_less_nat_alt kva_def STACK_SZ_def) arith
qed

lemma system_rel_cong:
  assumes "system_rel F s (xs, k, P)" and "\<forall>t \<in> set xs. F t = F' t \<and> P t = P' t"
  shows "system_rel F' s (xs, k, P')"
proof -
  have "hd xs \<in> set xs" "\<forall>t \<in> set (tl xs). t \<in> set xs"
    using sched_inv_hd(1) [of "scd s" xs k] assms(1) by (simp, cases xs) auto
  then show ?thesis using assms by (simp add: frames_apart_def)
qed

text \<open>\<open>kmain\<close> and the first entry establish the relation.\<close>

lemma boot_trap_rel:
  assumes "l3_pool_ok l2mem" and "tbl (blk_mm (blk s)) = mmu_init_tables l2mem m" and "ALLOCATED (blk_mm (blk s)) = 0"
    and "bump \<lparr>buffer = (\<lambda>i. ram (start + i))\<rparr> 0" and "total_ram < 0x400000000"
    and "get_drive_info dtb (drive_info s) = Some info" and "fst (probe vdev 0 (blk_bus (blk s))) \<noteq> 0"
    and "stores_succeed stx" and "device_completes used"
    and "rq_head (sch s) = 0" and "rq_tail (sch s) = 0"
    and "next_of (sch s) (kva 17) = 0" and "next_of (sch s) (kva 20) = 0"
  shows "\<exists>s'. kmain l2mem start sy udev vdev stx used ram dtb total_ram s = Some (Inr (kva 18 + 0xEE0, s')) \<and>
    kmalloc_inv l2mem 23 {..<23} (blk_mm (blk s')) \<and>
    (\<forall>mc. X mc 0 = kva 18 + 0xEE0 \<and>
       (\<forall>t \<in> {kva 17, kva 20}. context_at (words mc) (boot_frames t) = contexts s' (boot_frames t)) \<longrightarrow>
       PC (first_user_enter mc) = convert_to_physical (user_process1_sym sy) \<and>
       SP_EL0 (first_user_enter mc) = kpa 19 + 4096 \<and> PSTATE (first_user_enter mc) = 0 \<and>
       TTBR0 (first_user_enter mc) = USER_PROCESS_1_TABLE_START \<and>
       trap_rel boot_frames 14 \<lparr>mach = first_user_enter mc, scd = sch s'\<rparr>
         (([kva 17, kva 20], 10, \<lambda>t. contexts s' (boot_frames t)), \<lambda>_. 0))"
proof -
  let ?B = boot_frames and ?xs = "[kva 17, kva 20]"
  obtain s' where k: "kmain l2mem start sy udev vdev stx used ram dtb total_ram s = Some (Inr (kva 18 + 0xEE0, s'))"
    and inv: "kmalloc_inv l2mem 23 {..<23} (blk_mm (blk s'))"
    and f: "task_context (tasks (sch s') (kva 17)) = kva 18 + 0xEE0" "task_context (tasks (sch s') (kva 20)) = kva 21 + 0xEE0"
    and c: "spsr_el1 (contexts s' (kva 18 + 0xEE0)) = 0" "spsr_el1 (contexts s' (kva 21 + 0xEE0)) = 0"
    using kmain_effect [OF assms, of sy udev] by (auto simp: Let_def)
  have B: "?B (kva 17) = kva 18 + 0xEE0" "?B (kva 20) = kva 21 + 0xEE0"
    by (simp_all add: boot_frames_def kva_def)
  define P where "P = (\<lambda>t. contexts s' (?B t))"
  have start: "PC (first_user_enter mc) = convert_to_physical (user_process1_sym sy) \<and>
      SP_EL0 (first_user_enter mc) = kpa 19 + 4096 \<and> PSTATE (first_user_enter mc) = 0 \<and>
      TTBR0 (first_user_enter mc) = USER_PROCESS_1_TABLE_START \<and>
      trap_rel ?B 14 \<lparr>mach = first_user_enter mc, scd = sch s'\<rparr> ((?xs, 10, P), \<lambda>_. 0)"
    if mc: "X mc 0 = kva 18 + 0xEE0" "\<forall>t \<in> {kva 17, kva 20}. context_at (words mc) (?B t) = P t" for mc
  proof -
    obtain ctx s2 where k2: "kmain l2mem start sy udev vdev stx used ram dtb total_ram s = Some (Inr (ctx, s2))"
      and b2: "let F = \<lambda>t. task_context (tasks (sch s2) t); P = \<lambda>t. contexts s2 (F t) in
       \<forall>mc. X mc 0 = ctx \<and> (\<forall>t \<in> {kva 17, kva 20}. context_at (words mc) (F t) = P t) \<longrightarrow>
         PC (first_user_enter mc) = convert_to_physical (user_process1_sym sy) \<and>
         SP_EL0 (first_user_enter mc) = kpa 19 + 4096 \<and> PSTATE (first_user_enter mc) = 0 \<and>
         TTBR0 (first_user_enter mc) = USER_PROCESS_1_TABLE_START \<and>
         system_rel F \<lparr>mach = first_user_enter mc, scd = sch s2\<rparr> (?xs, 10, P)"
      using boot_leads_to_preemption [OF assms, of sy udev] by blast
    have "ctx = kva 18 + 0xEE0" "s2 = s'" using k k2 by simp_all
    note b = b2 [unfolded this Let_def]
    have r: "system_rel (\<lambda>t. task_context (tasks (sch s') t)) \<lparr>mach = first_user_enter mc, scd = sch s'\<rparr>
        (?xs, 10, \<lambda>t. contexts s' (task_context (tasks (sch s') t)))"
      using b mc by (simp add: f B P_def del: system_rel.simps)
    have e: "system_rel (\<lambda>t. frame_after ?B t 0) \<lparr>mach = first_user_enter mc, scd = sch s'\<rparr> (?xs, 10, P)"
      by (rule system_rel_cong [OF r]) (simp add: f B P_def frame_after_def)
    then have "trap_rel ?B 14 \<lparr>mach = first_user_enter mc, scd = sch s'\<rparr> ((?xs, 10, P), \<lambda>_. 0)"
      using c by (simp add: program_context_def from_program_def P_def B)
    then show ?thesis using b mc by (simp add: f B P_def del: system_rel.simps trap_rel.simps)
  qed
  then show ?thesis using k inv unfolding P_def by blast
qed

text \<open>
  From boot on.  On a machine with less than 16 GiB whose bitmap memory is zero, with a device
  tree that is read to its end and a block device that answers and completes, \<open>kmain\<close> reaches
  \<open>first_user_enter\<close> with 23 pages of the pool in use and the allocator consistent.  When the memory
  holds the contexts \<open>init_task\<close> has written, that entry starts the first program at its first
  instruction, on its own stack and tables at EL0, and from there every sequence of events with at
  most 14 faults is handled and implements the ring of the two tasks; 14 frames are what the page of a kernel
  stack has room for below the first.
\<close>

lemma boot_refines_ring:
  assumes "l3_pool_ok l2mem" and "tbl (blk_mm (blk s)) = mmu_init_tables l2mem m" and "ALLOCATED (blk_mm (blk s)) = 0"
    and "bump \<lparr>buffer = (\<lambda>i. ram (start + i))\<rparr> 0" and "total_ram < 0x400000000"
    and "get_drive_info dtb (drive_info s) = Some info" and "fst (probe vdev 0 (blk_bus (blk s))) \<noteq> 0"
    and "stores_succeed stx" and "device_completes used"
    and "rq_head (sch s) = 0" and "rq_tail (sch s) = 0"
    and "next_of (sch s) (kva 17) = 0" and "next_of (sch s) (kva 20) = 0"
    and "vbar AND 0x7FF = 0" and "\<forall>h. dev h 0xffff00008141000C AND 0x3FF = 27"
    and "keeps_stacks boot_frames 14 [kva 17, kva 20] clob" and "keeps_stacks boot_frames 14 [kva 17, kva 20] sysd"
    and "\<forall>t. SP (sysd t) = SP t" and "\<forall>e \<in> set es. event_ok e" and "length (filter is_fault es) \<le> 14"
  shows "\<exists>s'. kmain l2mem start sy udev vdev stx used ram dtb total_ram s = Some (Inr (kva 18 + 0xEE0, s')) \<and>
    kmalloc_inv l2mem 23 {..<23} (blk_mm (blk s')) \<and>
    (\<forall>mc. X mc 0 = kva 18 + 0xEE0 \<and>
       (\<forall>t \<in> {kva 17, kva 20}. context_at (words mc) (boot_frames t) = contexts s' (boot_frames t)) \<longrightarrow>
       PC (first_user_enter mc) = convert_to_physical (user_process1_sym sy) \<and>
       SP_EL0 (first_user_enter mc) = kpa 19 + 4096 \<and> PSTATE (first_user_enter mc) = 0 \<and>
       TTBR0 (first_user_enter mc) = USER_PROCESS_1_TABLE_START \<and>
       (\<exists>s''. system_events clob sysd dev vbar es \<lparr>mach = first_user_enter mc, scd = sch s'\<rparr> = Some s'' \<and>
          trap_rel boot_frames 14 s''
            (fold ring_event es (([kva 17, kva 20], 10, \<lambda>t. contexts s' (boot_frames t)), \<lambda>_. 0))))"
proof -
  obtain s' where k: "kmain l2mem start sy udev vdev stx used ram dtb total_ram s = Some (Inr (kva 18 + 0xEE0, s'))"
    and inv: "kmalloc_inv l2mem 23 {..<23} (blk_mm (blk s'))"
    and start: "\<And>mc. X mc 0 = kva 18 + 0xEE0 \<Longrightarrow>
       \<forall>t \<in> {kva 17, kva 20}. context_at (words mc) (boot_frames t) = contexts s' (boot_frames t) \<Longrightarrow>
       PC (first_user_enter mc) = convert_to_physical (user_process1_sym sy) \<and>
       SP_EL0 (first_user_enter mc) = kpa 19 + 4096 \<and> PSTATE (first_user_enter mc) = 0 \<and>
       TTBR0 (first_user_enter mc) = USER_PROCESS_1_TABLE_START \<and>
       trap_rel boot_frames 14 \<lparr>mach = first_user_enter mc, scd = sch s'\<rparr>
         (([kva 17, kva 20], 10, \<lambda>t. contexts s' (boot_frames t)), \<lambda>_. 0)"
    using boot_trap_rel [OF assms(1-13), of sy udev] by blast
  have "\<exists>s''. system_events clob sysd dev vbar es \<lparr>mach = first_user_enter mc, scd = sch s'\<rparr> = Some s'' \<and>
      trap_rel boot_frames 14 s'' (fold ring_event es (([kva 17, kva 20], 10, \<lambda>t. contexts s' (boot_frames t)), \<lambda>_. 0))"
    if "X mc 0 = kva 18 + 0xEE0" "\<forall>t \<in> {kva 17, kva 20}. context_at (words mc) (boot_frames t) = contexts s' (boot_frames t)" for mc
    by (rule events_rel [where dev = dev, OF _ assms(14,15)]) (use start [OF that] assms(16-20) boot_stacks_apart in simp_all)
  then show ?thesis using k inv start by blast
qed

section \<open>Properties\<close>


section \<open>The properties at concrete states\<close>


lemma boot_refines_ring_witness:
  "\<exists>s'. kmain 0x8008e000 0x80200000 linked_symbols (\<lambda>_ _. 0) first_slot_device (\<lambda>_. True) eager_device
      (\<lambda>_. 0) end_blob 0x100000000 reset_kernel = Some (Inr (kva 18 + 0xEE0, s')) \<and>
    (\<forall>mc. X mc 0 = kva 18 + 0xEE0 \<and>
       (\<forall>t \<in> {kva 17, kva 20}. context_at (words mc) (boot_frames t) = contexts s' (boot_frames t)) \<longrightarrow>
       (\<exists>s''. system_events id id (\<lambda>_ _. 27) 0xFFFF000080002800 (replicate 14 (Fault 0x92000007) @ [SystemCall, Timer])
          \<lparr>mach = first_user_enter mc, scd = sch s'\<rparr> = Some s''))"
proof -
  have n: "next_of (sch reset_kernel) (kva 17) = 0" "next_of (sch reset_kernel) (kva 20) = 0"
    "rq_head (sch reset_kernel) = 0" "rq_tail (sch reset_kernel) = 0"
    by simp_all
  have b: "tbl (blk_mm (blk reset_kernel)) = mmu_init_tables 0x8008e000 (\<lambda>_. 0)"
    "ALLOCATED (blk_mm (blk reset_kernel)) = 0" "bump \<lparr>buffer = \<lambda>_. 0\<rparr> 0"
    using bump_empty by (simp_all add: boot_state_def empty_bitmap_def)
  show ?thesis
    using boot_refines_ring [OF l3_pool_ok_elf b(1,2), where ram = "\<lambda>_. 0" and start = "0x80200000"
        and total_ram = "0x100000000" and dtb = end_blob and vdev = first_slot_device and stx = "\<lambda>_. True"
        and used = eager_device and sy = linked_symbols and udev = "\<lambda>_ _. 0", OF b(3) _ end_blob_info
        first_slot_found always_succeeds eager_device_completes n(3,4,1,2), of "0xFFFF000080002800" "\<lambda>_ _. 27" id id
        "replicate 14 (Fault 0x92000007) @ [SystemCall, Timer]"]
    by (auto simp: keeps_stacks_def simp del: trap_rel.simps) blast
qed

end
