(* ===== verification/Reset.thy ===== *)
theory Reset
  imports Start Dtb Traps
begin

text \<open>
  From reset to the tasks: the start code of \<open>Start\<close>, whose memory is bytes, composed with the model of
  \<open>kmain\<close>, whose state is records.  \<open>holds_state\<close> says that the static variables of the C code are what
  memory holds at their link addresses; so what \<open>kmain\<close> needs to find (an empty run queue, no page handed
  out, the tables of \<open>mmu_init\<close>) is what the start code leaves, and not a hypothesis.
\<close>

section \<open>What the C code finds in memory\<close>

text \<open>The link addresses of the static variables of \<^verbatim>\<open>mmu.c\<close> and \<^verbatim>\<open>sched.c\<close>, all in \<^verbatim>\<open>.bss\<close>.\<close>

record data_symbols =
  ALLOCATED_sym :: u64
  rq_head_sym :: u64
  rq_tail_sym :: u64
  current_sym :: u64

text \<open>Memory as the C code reads it, through the tables.\<close>

definition virtual_ram :: "boot_cpu \<Rightarrow> u64 \<Rightarrow> u8" where
  "virtual_ram t a = (case translate t a of None \<Rightarrow> 0 | Some p \<Rightarrow> ram t p)"

text \<open>\<open>next\<close> is at offset 48 of a \<open>Task\<close>, and tasks are in pages of the pool.\<close>

definition holds_state :: "data_symbols \<Rightarrow> boot_cpu \<Rightarrow> kernel \<Rightarrow> bool" where
  "holds_state ds t s \<longleftrightarrow>
     tbl (blk_mm (blk s)) = tables t \<and>
     ALLOCATED (blk_mm (blk s)) = load64 (ram t) (ALLOCATED_sym ds) \<and>
     rq_head (sch s) = load64 (ram t) (rq_head_sym ds) \<and>
     rq_tail (sch s) = load64 (ram t) (rq_tail_sym ds) \<and>
     current (sch s) = load64 (ram t) (current_sym ds) \<and>
     (\<forall>a. next_of (sch s) a = load64 (ram t) (convert_to_physical a + 48))"

section \<open>The layout of the image\<close>

definition bss_size :: "start_symbols \<Rightarrow> nat" where
  "bss_size sy = unat (bss_end_sym sy - bss_start_sym sy)"

definition in_bss :: "start_symbols \<Rightarrow> u64 \<Rightarrow> bool" where
  "in_bss sy a \<longleftrightarrow> unat (a - bss_start_sym sy) < bss_size sy"

text \<open>The first 64 KiB below the stack pointer, which the C code may use before \<open>kmain\<close>.\<close>

definition early_stack :: "start_symbols \<Rightarrow> u64 \<Rightarrow> bool" where
  "early_stack sy a \<longleftrightarrow> unat (stack_top_sym sy - 1 - a) < 0x10000"

definition keeps_data :: "start_symbols \<Rightarrow> (boot_cpu \<Rightarrow> boot_cpu) \<Rightarrow> bool" where
  "keeps_data sy f \<longleftrightarrow> (\<forall>s a. \<not> early_stack sy a \<longrightarrow> ram (f s) a = ram s a)"

text \<open>
  The bitmap, at \<open>start\<close>, and the pages of the two tasks are outside \<^verbatim>\<open>.bss\<close> and the stack; the
  variables are inside \<^verbatim>\<open>.bss\<close>, and the stack is not.
\<close>

definition layout_ok :: "start_symbols \<Rightarrow> data_symbols \<Rightarrow> u64 \<Rightarrow> bool" where
  "layout_ok sy ds start \<longleftrightarrow>
     (\<forall>a \<in> {ALLOCATED_sym ds, rq_head_sym ds, rq_tail_sym ds, current_sym ds}. \<forall>k < 8. in_bss sy (a + of_nat k)) \<and>
     (\<forall>a. in_bss sy a \<longrightarrow> \<not> early_stack sy a) \<and>
     (\<forall>i \<le> 16385. in_text (start + of_nat i) \<and> \<not> early_stack sy (start + of_nat i)) \<and>
     (\<forall>p \<in> {17, 20}. \<forall>k < 8. \<not> early_stack sy (kpa p + 48 + of_nat k))"

text \<open>RAM that nothing was loaded into is zero: that of the bitmap and that of the two tasks.\<close>

definition fresh_ram :: "u64 \<Rightarrow> boot_cpu \<Rightarrow> bool" where
  "fresh_ram start s \<longleftrightarrow> (\<forall>i \<le> 16385. ram s (start + of_nat i) = 0) \<and>
     (\<forall>p \<in> {17, 20}. \<forall>k < 8. ram s (kpa p + 48 + of_nat k) = 0)"

section \<open>What the start code leaves\<close>

lemma load64_zero:
  assumes "\<forall>k < 8. m (a + of_nat k) = 0"
  shows "load64 m a = 0"
proof -
  have z: "m (a + of_nat k) = 0" if "k < 8" for k using assms that by blast
  show ?thesis using z [of 0] z [of 1] z [of 2] z [of 3] z [of 4] z [of 5] z [of 6] z [of 7] by (simp add: load64_def)
qed

text \<open>Memory at the call of \<open>kmain\<close>: zero in \<^verbatim>\<open>.bss\<close>, and as it was elsewhere but for the stack.\<close>

definition ram_at_kmain :: "start_symbols \<Rightarrow> boot_cpu \<Rightarrow> boot_cpu \<Rightarrow> bool" where
  "ram_at_kmain sy s t \<longleftrightarrow> (\<forall>a. \<not> early_stack sy a \<longrightarrow> ram t a = (if in_bss sy a then 0 else ram s a))"

lemma zero_range_bss: "zero_range (bss_start_sym sy) (bss_size sy) m a = (if in_bss sy a then 0 else m a)"
  by (simp add: zero_range_def in_bss_def)

lemma ram_at_kmain_zero:
  assumes "ram_at_kmain sy s t" and "layout_ok sy ds start" and "fresh_ram start s"
  shows "v \<in> {ALLOCATED_sym ds, rq_head_sym ds, rq_tail_sym ds, current_sym ds} \<Longrightarrow> load64 (ram t) v = 0"
    "p \<in> {17, 20} \<Longrightarrow> load64 (ram t) (kpa p + 48) = 0"
    "i \<le> 16385 \<Longrightarrow> ram t (start + of_nat i) = 0"
proof -
  have r: "ram t a = (if in_bss sy a then 0 else ram s a)" if "\<not> early_stack sy a" for a
    using assms(1) that by (simp add: ram_at_kmain_def)
  show "load64 (ram t) v = 0" if "v \<in> {ALLOCATED_sym ds, rq_head_sym ds, rq_tail_sym ds, current_sym ds}"
    by (rule load64_zero) (use that assms(2) r in \<open>auto simp: layout_ok_def\<close>)
  show "load64 (ram t) (kpa p + 48) = 0" if "p \<in> {17, 20}"
    by (rule load64_zero) (use that assms(2,3) r in \<open>auto simp: layout_ok_def fresh_ram_def\<close>)
  show "ram t (start + of_nat i) = 0" if "i \<le> 16385"
    using that assms(2,3) r by (auto simp: layout_ok_def fresh_ram_def)
qed

lemma bump_zero_bytes:
  assumes "\<And>i. i \<le> 16385 \<Longrightarrow> buffer b (of_nat i) = 0"
  shows "bump b 0"
proof -
  have "\<not> page_used b p" if "p < BITMAP_PAGES" for p
  proof -
    have "p div 8 \<le> 16385" using that by simp
    from assms [OF this] show ?thesis by (simp add: page_used_def)
  qed
  then show ?thesis by (simp add: bump_def)
qed

lemma virtual_bitmap:
  assumes "in_image l2mem" and "tables t = mmu_init_tables l2mem m" and "mmu_state t = mmu_init_regs r"
    and "in_text start" and "in_text (start + i)"
  shows "virtual_ram t ((0xFFFF000000000000 OR start) + i) = ram t (start + i)"
proof -
  have "(0xFFFF000000000000 OR start) + i = 0xFFFF000000000000 OR (start + i)"
    using in_text_high(6) [OF assms(4)] in_text_high(6) [OF assms(5)] by (simp add: algebra_simps)
  then show ?thesis using translate_text(2) [OF assms(1,5,2,3)] by (simp add: virtual_ram_def)
qed

lemma kernel_start_memory:
  assumes "8 dvd bss_size sy" and "aapcs c_ram" and "keeps_data sy c_ram" and "aapcs c_mmu" and "keeps_data sy c_mmu"
    and "\<forall>s. gpr (c_mmu s) 13 = gpr s 13"
    and "\<forall>s v. get_total_ram (ram s) = Some v \<longrightarrow> gpr (c_ram s) 0 = v"
    and "get_total_ram (zero_range (bss_start_sym sy) (bss_size sy) (ram s)) = Some total_ram"
  shows "\<exists>t. kernel_start sy l2mem c_ram c_mmu s = Some t \<and> ram_at_kmain sy s t \<and> gpr t 0 = total_ram \<and>
    tables t = mmu_init_tables l2mem (tables s) \<and> mmu_state t = mmu_init_regs (mmu_state s) \<and>
    vbar_reg t = 0xFFFF000000000000 OR vectors_sym sy \<and> pc_reg t = virt_entry_sym sy + 0xFFFF000000000000"
proof -
  obtain p t where pt: "ram p = zero_range (bss_start_sym sy) (bss_size sy) (ram s)"
    "kernel_start sy l2mem c_ram c_mmu s = Some t" "tables t = mmu_init_tables l2mem (tables s)"
    "mmu_state t = mmu_init_regs (mmu_state s)" "vbar_reg t = 0xFFFF000000000000 OR vectors_sym sy"
    "pc_reg t = virt_entry_sym sy + 0xFFFF000000000000"
    "gpr t 0 = gpr (c_mmu (set_r 13 (gpr (c_ram p) 0) (c_ram p))) 13"
    "ram t = ram (c_mmu (set_r 13 (gpr (c_ram p) 0) (c_ram p)))"
    using kernel_start_effect [OF assms(1) [unfolded bss_size_def] assms(2,4), of s l2mem]
    unfolding bss_size_def Let_def by blast
  have "gpr t 0 = total_ram" using assms(6-8) pt(1,7) by simp
  moreover have "ram_at_kmain sy s t"
    using assms(3,5) by (simp add: ram_at_kmain_def pt(1,8) keeps_data_def zero_range_bss)
  ultimately show ?thesis using pt by blast
qed

text \<open>The hypotheses of \<open>boot_trap_rel\<close> on the state, from what memory holds.\<close>

lemma holds_state_booted:
  assumes "holds_state ds t s" and "ram_at_kmain sy s0 t" and "layout_ok sy ds start" and "fresh_ram start s0"
    and "in_image l2mem" and "tables t = mmu_init_tables l2mem m" and "mmu_state t = mmu_init_regs r"
  shows "tbl (blk_mm (blk s)) = mmu_init_tables l2mem m" "ALLOCATED (blk_mm (blk s)) = 0"
    "rq_head (sch s) = 0" "rq_tail (sch s) = 0" "next_of (sch s) (kva 17) = 0" "next_of (sch s) (kva 20) = 0"
    "bump \<lparr>buffer = \<lambda>i. virtual_ram t ((0xFFFF000000000000 OR start) + i)\<rparr> 0"
proof -
  note z = ram_at_kmain_zero [OF assms(2-4)]
  show "tbl (blk_mm (blk s)) = mmu_init_tables l2mem m" using assms(1,6) by (simp add: holds_state_def)
  show "ALLOCATED (blk_mm (blk s)) = 0" "rq_head (sch s) = 0" "rq_tail (sch s) = 0"
    using assms(1) z(1) by (simp_all add: holds_state_def)
  have "convert_to_physical (kva 17) = kpa 17" "convert_to_physical (kva 20) = kpa 20"
    by (simp_all add: convert_to_physical_def kva_def kpa_def)
  then show "next_of (sch s) (kva 17) = 0" "next_of (sch s) (kva 20) = 0"
    using assms(1) z(2) [of 17] z(2) [of 20] by (simp_all add: holds_state_def)
  have in_bitmap: "in_text (start + of_nat i)" if "i \<le> 16385" for i
    using assms(3) that by (simp add: layout_ok_def)
  then have "in_text start" using in_bitmap [of 0] by simp
  then have "virtual_ram t ((0xFFFF000000000000 OR start) + of_nat i) = 0" if "i \<le> 16385" for i
    using virtual_bitmap [OF assms(5-7) _ in_bitmap [OF that]] z(3) [OF that] by simp
  then show "bump \<lparr>buffer = \<lambda>i. virtual_ram t ((0xFFFF000000000000 OR start) + i)\<rparr> 0"
    by (intro bump_zero_bytes) simp
qed

section \<open>Properties\<close>


section \<open>The property at a concrete machine\<close>

text \<open>
  The symbols of \<^verbatim>\<open>kernel.elf\<close>, a machine with the device tree blob of \<open>Dtb\<close> and zero RAM, and compiled
  functions that compute the result and write no memory.
\<close>

definition elf_data :: data_symbols where
  "elf_data = \<lparr>ALLOCATED_sym = 0x80006778, rq_head_sym = 0x80006790, rq_tail_sym = 0x80006788, current_sym = 0x80006780\<rparr>"

definition fresh_cpu :: boot_cpu where
  "fresh_cpu = reset_cpu\<lparr>ram := mem_of 0x40000000 memory_blob, tables := (\<lambda>_. 0)\<rparr>"

definition compiled_total_ram :: "boot_cpu \<Rightarrow> boot_cpu" where
  "compiled_total_ram s = set_r 0 (case get_total_ram (ram s) of None \<Rightarrow> 0 | Some v \<Rightarrow> v) s"

lemma memory_blob_ram: "get_total_ram (mem_of 0x40000000 memory_blob) = Some 0x120000000"
proof -
  let ?m = "mem_of 0x40000000 memory_blob"
  let ?v = "[0, 0, 0, 0, 64, 0, 0, 0, 0, 0, 0, 1, 32, 0, 0, 0] :: u8 list"
  have f: "fdt_at ?m (ucast (0x40000000 + read_b32 ?m 0x40000008))
      [BeginNode [109, 101, 109, 111, 114, 121], PropItem 0 ?v]"
    by (simp add: read_b32_def mem_of_def memory_blob_def align4.simps
        TOKEN_BEGIN_NODE_def TOKEN_PROP_def TOKEN_END_def)
  show ?thesis
    using ram_loop_items [OF f]
    by (simp add: get_total_ram_def dtb_off_dt_struct_def dtb_off_dt_strings_def bswap_load32 Let_def
        memory_node_def names_reg_def read_b32_def mem_of_def memory_blob_def be64_def be32_def)
qed

lemma blob_elsewhere: "unat (a - 0x40000000) \<ge> 64 \<Longrightarrow> mem_of 0x40000000 memory_blob a = 0"
  by (simp add: mem_of_def Let_def memory_blob_def)

lemma blob_above:
  assumes "0x80000000 \<le> unat a" and "unat a < 0x100000000"
  shows "mem_of 0x40000000 memory_blob a = 0"
proof (rule blob_elsewhere)
  have "(0x40000000 :: u64) \<le> a" using assms(1) by (simp add: word_le_nat_alt)
  then show "unat (a - 0x40000000) \<ge> 64" using assms(1) by (simp add: unat_sub)
qed

lemma elf_layout_ok: "layout_ok elf_symbols elf_data 0x8000e000"
proof -
  have bss: "in_bss elf_symbols a \<longleftrightarrow> unat (a - 0x80006770) < 104" for a
    by (simp add: in_bss_def bss_size_def elf_symbols_def)
  have stack: "early_stack elf_symbols a \<longleftrightarrow> unat (0x801EFFFF - a) < 0x10000" for a
    by (simp add: early_stack_def elf_symbols_def)
  have low: "\<not> unat (0x801EFFFF - a :: u64) < 0x10000" if "unat a < 0x801E0000" for a :: u64
  proof -
    have "a \<le> 0x801EFFFF" using that by (simp add: word_le_nat_alt)
    then show ?thesis using that by (simp add: unat_sub)
  qed
  have high: "\<not> unat (0x801EFFFF - a :: u64) < 0x10000" if "0x801F0000 \<le> unat a" "unat a < 0x100000000" for a :: u64
  proof -
    have "(0x801EFFFF - a) + (a - 0x801EFFFF) = 0" by simp
    moreover have "unat (a - 0x801EFFFF) = unat a - 0x801EFFFF"
      using that by (simp add: unat_sub word_le_nat_alt)
    ultimately have "2 ^ 64 dvd unat (0x801EFFFF - a) + (unat a - 0x801EFFFF)"
      using unat_word_ariths(1) [of "0x801EFFFF - a" "a - 0x801EFFFF"] by (simp add: dvd_eq_mod_eq_0)
    then have "2 ^ 64 \<le> unat (0x801EFFFF - a) + (unat a - 0x801EFFFF)"
      by (rule dvd_imp_le) (use that in simp)
    then show ?thesis using that by simp
  qed
  have b: "unat a < 0x801E0000" if "unat (a - 0x80006770 :: u64) < 104" for a :: u64
  proof -
    define d where "d = a - 0x80006770"
    have "a = 0x80006770 + d" "unat d < 104" using that by (simp_all add: d_def)
    then show ?thesis by (simp add: unat_word_ariths)
  qed
  have i: "unat (0x8000e000 + of_nat i :: u64) = 0x8000e000 + i" if "i \<le> 16385" for i
    using that by (simp add: unat_word_ariths unsigned_of_nat take_bit_nat_eq_self)
  have k: "unat (kpa p + 48 + of_nat k :: u64) = 0xC0000000 + 4096 * p + 48 + k" if "p \<in> {17, 20}" "k < 8" for p k
    using that by (auto simp: kpa_def unat_word_ariths unsigned_of_nat take_bit_nat_eq_self)
  show ?thesis
    unfolding layout_ok_def bss stack in_text_def
  proof (intro conjI ballI allI impI)
    show "unat (a + of_nat k - 0x80006770) < 104"
      if "a \<in> {ALLOCATED_sym elf_data, rq_head_sym elf_data, rq_tail_sym elf_data, current_sym elf_data}" "k < 8"
      for a and k :: nat
    proof -
      have "a - 0x80006770 \<in> {8, 16, 24, 32}" using that(1) by (auto simp: elf_data_def)
      then have "unat ((a - 0x80006770) + of_nat k) < 104"
        using that(2) by (auto simp: unat_word_ariths unsigned_of_nat take_bit_nat_eq_self)
      then show ?thesis by (simp only: diff_add_eq)
    qed
  next
    show "\<not> unat (0x801EFFFF - a) < 0x10000" if "unat (a - 0x80006770) < 104" for a :: u64
      by (rule low [OF b [OF that]])
  next
    show "\<not> unat (0x801EFFFF - (0x8000e000 + of_nat i) :: u64) < 0x10000"
      "(0x80000000 :: u64) \<le> 0x8000e000 + of_nat i" "(0x8000e000 :: u64) + of_nat i < 0x80200000" if "i \<le> 16385" for i
      using low [of "0x8000e000 + of_nat i"] i [OF that] that
      by (simp_all add: word_le_nat_alt word_less_nat_alt)
  next
    show "\<not> unat (0x801EFFFF - (kpa p + 48 + of_nat k)) < 0x10000" if "p \<in> {17, 20}" "k < 8" for p k
      using high [of "kpa p + 48 + of_nat k"] k [OF that] that by auto
  qed
qed

lemma fresh_cpu_ram: "fresh_ram 0x8000e000 fresh_cpu"
proof -
  have "unat (0x8000e000 + of_nat i :: u64) = 0x8000e000 + i" if "i \<le> 16385" for i
    using that by (simp add: unat_word_ariths unsigned_of_nat take_bit_nat_eq_self)
  moreover have "unat (kpa p + 48 + of_nat k :: u64) = 0xC0000000 + 4096 * p + 48 + k" if "p \<in> {17, 20}" "k < 8" for p k
    using that by (auto simp: kpa_def unat_word_ariths unsigned_of_nat take_bit_nat_eq_self)
  ultimately show ?thesis
    by (auto simp: fresh_ram_def fresh_cpu_def intro!: blob_above)
qed

text \<open>The blob as the kernel reads it, at its virtual address.\<close>

lemma blob_virtual:
  assumes "tables t = mmu_init_tables 0x8008e000 m" and "mmu_state t = mmu_init_regs r"
    and "ram t = mem_of 0x40000000 memory_blob" and "i < 0x200000"
  shows "virtual_ram t (0xffff000085400000 + of_nat i) = mem_of 0xffff000085400000 memory_blob (0xffff000085400000 + of_nat i)"
proof -
  let ?a = "0xffff000085400000 + of_nat i :: u64"
  have "unat ?a = 0xffff000085400000 + i"
    using assms(4) by (simp add: unat_word_ariths unsigned_of_nat take_bit_nat_eq_self)
  moreover have blk: "(0xffff000085400000 + i) div 0x200000 = 8795958805546"
    by (rule div_nat_eqI) (use assms(4) in simp_all)
  moreover have "(0xffff000085400000 + i) div 0x40000000 = 17179607042" "(0xffff000085400000 + i) div 0x8000000000 = 33553920"
    by (rule div_nat_eqI; use assms(4) in simp)+
  moreover have "(0xffff000085400000 + i) mod 0x200000 = i"
    using div_mult_mod_eq [of "0xffff000085400000 + i" "0x200000"] blk by simp
  ultimately have "drop_bit 48 ?a = 0xffff" "calc_index_l0 ?a = 0" "calc_index_l1 ?a = 2" "calc_index_l2 ?a = 42"
    "?a AND 0x1FFFFF = of_nat i"
    using assms(4)
    by (simp_all add: word_unat_eq_iff unat_drop_bit_div unat_calc_index unat_and_numerals unsigned_of_nat take_bit_nat_eq_self)
  then have "translate t ?a = Some (0x40000000 + of_nat i)"
    using mmu_init_walk [of "0x8008e000" m ?a]
    by (simp add: translate_def assms(1,2) mmu_init_regs_def Let_def boot_block_def in_image_def page_aligned_def)
  then show ?thesis by (simp add: virtual_ram_def assms(3) mem_of_def)
qed

lemma blob_drive_info:
  assumes "tables t = mmu_init_tables 0x8008e000 m" and "mmu_state t = mmu_init_regs r"
    and "ram t = mem_of 0x40000000 memory_blob"
  shows "get_drive_info (virtual_ram t) result = Some result"
proof -
  let ?m = "mem_of 0xffff000085400000 memory_blob"
  let ?its = "[BeginNode [109, 101, 109, 111, 114, 121], PropItem 0 [0, 0, 0, 0, 64, 0, 0, 0, 0, 0, 0, 1, 32, 0, 0, 0]]"
  have v: "virtual_ram t a = ?m a" if "unat (a - 0xffff000085400000) < 0x200000" for a
    using blob_virtual [OF assms that] by simp
  have "fdt_at (virtual_ram t) (0xffff000085400000 + ucast (read_b32 (virtual_ram t) 0xffff000085400008)) ?its"
    by (simp add: read_b32_def v mem_of_def memory_blob_def align4.simps
        TOKEN_BEGIN_NODE_def TOKEN_PROP_def TOKEN_END_def)
  from drive_loop_items [OF this] show ?thesis
    by (simp add: get_drive_info_def dtb_off_dt_struct_def dtb_off_dt_strings_def bswap_load32 Let_def virtio_node_def)
qed

text \<open>The state of the kernel that this memory holds.\<close>

definition held_kernel :: "boot_cpu \<Rightarrow> kernel" where
  "held_kernel t = reset_kernel\<lparr>sch := idle_sched\<lparr>tasks :=
     (\<lambda>a. no_task\<lparr>next_task := load64 (ram t) (convert_to_physical a + 48)\<rparr>)\<rparr>\<rparr>"


end
