(* ===== verification/Nested.thy ===== *)
theory Nested
  imports Traps
begin

text \<open>
  Timer interrupts inside a system call.  The vectors mask interrupts, but \<open>spin_unlock_with_mask\<close> of the
  block driver enables them again (\<open>unlock_enables_irqs\<close> of \<open>Spinlock\<close>), so the rest of the call can be interrupted any
  number of times.  The C code of the dispatcher is cut into the pieces between two
  interrupts; each interrupt goes through the vectors and \<open>irq_dispatcher\<close>, on the stack of the call.
\<close>

section \<open>A system call with interrupts in it\<close>

text \<open>The pieces \<open>fs\<close> of C code, an interrupt after each, and the last piece \<open>g\<close>.\<close>

fun interrupted_code :: "(machine \<Rightarrow> machine) \<Rightarrow> device \<Rightarrow> u64 \<Rightarrow> (machine \<Rightarrow> machine) list \<Rightarrow> (machine \<Rightarrow> machine)
    \<Rightarrow> system \<Rightarrow> system option" where
  "interrupted_code clob dev vbar [] g s = Some (s\<lparr>mach := g (mach s)\<rparr>)"
| "interrupted_code clob dev vbar (f # fs) g s =
     Option.bind (system_timer clob id dev vbar (s\<lparr>mach := f (mach s)\<rparr>)) (interrupted_code clob dev vbar fs g)"

text \<open>The machine at the call of \<open>syscall_dispatcher\<close> in \<open>el0_sync_entry\<close>.\<close>

definition at_syscall_dispatcher :: "u64 \<Rightarrow> machine \<Rightarrow> machine" where
  "at_syscall_dispatcher vbar m =
    (let m = m\<lparr>PC := PC m + 4, ESR := 0x56000000\<rparr>;
         m = SAVE_CONTEXT (take_exception (vector_of vbar SYNC (PSTATE m)) m);
         m = mov_x 10 (ESR m) m;
         m = mov_x 11 (drop_bit 26 (X m 10)) m
     in mov_x 7 (X m 8) m)"

definition interrupted_call :: "(machine \<Rightarrow> machine) \<Rightarrow> device \<Rightarrow> u64 \<Rightarrow> (machine \<Rightarrow> machine) list \<Rightarrow> (machine \<Rightarrow> machine)
    \<Rightarrow> system \<Rightarrow> system option" where
  "interrupted_call clob dev vbar fs g s =
    map_option (\<lambda>s. s\<lparr>mach := RESTORE_AND_ERET (mach s)\<rparr>)
      (interrupted_code clob dev vbar fs g (s\<lparr>mach := at_syscall_dispatcher vbar (mach s)\<rparr>))"

text \<open>Without interrupts it is the system call of \<open>Traps\<close>.\<close>

lemma uninterrupted_call:
  assumes "vbar AND 0x7FF = 0" and "from_program (PSTATE (mach s))"
  shows "interrupted_call clob dev vbar [] g s = map_option (\<lambda>m. s\<lparr>mach := m\<rparr>) (svc clob g vbar (mach s))"
  using assms(2)
  by (simp add: interrupted_call_def at_syscall_dispatcher_def svc_def exception_reaches(1) [OF assms(1)] handler_for_def
      kernel_handler_def el0_sync_entry_def Let_def SAVE_CONTEXT_rest)

section \<open>What C code keeps\<close>

text \<open>
  \<open>K\<close> are the words of the frames of the tasks, \<open>p0\<close> the stack pointer at the entry of the call and \<open>S\<close>
  those it may be interrupted at.  A dispatcher keeps \<open>K\<close> and the frame at its stack pointer; a piece
  of the call keeps \<open>K\<close>, stays at EL1 and leaves the stack pointer in \<open>S\<close>, the last one back at \<open>p0\<close>.
\<close>

definition at_el1 :: "machine \<Rightarrow> bool" where
  "at_el1 m \<longleftrightarrow> drop_bit 2 (PSTATE m) AND mask 2 = 1"

definition keeps_words :: "u64 set \<Rightarrow> (machine \<Rightarrow> machine) \<Rightarrow> bool" where
  "keeps_words K f \<longleftrightarrow> (\<forall>m. \<forall>a \<in> K. words (f m) a = words m a)"

definition dispatcher_code :: "u64 set \<Rightarrow> (machine \<Rightarrow> machine) \<Rightarrow> bool" where
  "dispatcher_code K f \<longleftrightarrow> (\<forall>m. \<forall>a \<in> K \<union> frame (SP m). words (f m) a = words m a)"

definition call_code :: "u64 set \<Rightarrow> u64 \<Rightarrow> u64 set \<Rightarrow> (machine \<Rightarrow> machine) \<Rightarrow> bool" where
  "call_code K p0 S f \<longleftrightarrow> keeps_words K f \<and>
     (\<forall>m. SP m \<in> insert p0 S \<and> at_el1 m \<longrightarrow> SP (f m) \<in> S \<and> at_el1 (f m))"

definition call_end :: "u64 set \<Rightarrow> u64 \<Rightarrow> u64 set \<Rightarrow> (machine \<Rightarrow> machine) \<Rightarrow> bool" where
  "call_end K p0 S g \<longleftrightarrow> keeps_words K g \<and> (\<forall>m. SP m \<in> insert p0 S \<longrightarrow> SP (g m) = p0)"

section \<open>One interrupt\<close>

lemma el1_interrupt_resumes:
  fixes m :: machine and v :: u64 and clob :: "machine \<Rightarrow> machine" and K :: "u64 set"
  assumes "dispatcher_code K clob" and "frame (SP m - CTX_SIZE) \<inter> K = {}"
  defines "m' \<equiv> el1_irq_entry (\<lambda>t. mov_x 0 (SP m - CTX_SIZE) (clob t)) (take_exception v m)"
  shows "running m' = running m" "SP m' = SP m" "\<forall>a \<in> K. words m' a = words m a"
proof -
  let ?own = "frame (SP m - CTX_SIZE)"
  let ?disp = "\<lambda>t. mov_x 0 (SP m - CTX_SIZE) (if SP t = SP m - CTX_SIZE then clob t else t)"
  have e: "m' = el1_irq_entry ?disp (take_exception v m)"
    by (simp add: m'_def el1_irq_entry_def Let_def SAVE_CONTEXT_rest)
  have x0: "\<forall>t. X (?disp t) 0 = SP m - CTX_SIZE" by simp
  have keep: "\<forall>t. \<forall>a \<in> K \<union> ?own. words (?disp t) a = words t a"
    using assms(1) by (auto simp: dispatcher_code_def)
  note sw = el1_irq_entry_switch [where disp = ?disp and v = v, OF x0 keep Un_upper2, folded e]
  show "running m' = running m" using sw(1,3) by simp
  show "SP m' = SP m" using sw(2) by simp
  show "\<forall>a \<in> K. words m' a = words m a" using sw(4) assms(2) by blast
qed

lemma irq_dispatcher_el1:
  assumes "sched_inv sc xs k" and "drop_bit 2 (SPSR_EL1 sc) AND mask 2 = 1"
  shows "case irq_dispatcher dev f sc of (c, sc') \<Rightarrow> c = f \<and> sched_inv sc' xs k \<and> tasks sc' = tasks sc"
proof -
  have "check_current_el sc = 1" using assms(2) by (simp add: check_current_el_def Let_def)
  then show ?thesis
    using assms(1) by (simp add: irq_dispatcher_eq Let_def retimed_fields) (simp add: acknowledged_def)
qed

lemma system_timer_el1:
  assumes "vbar AND 0x7FF = 0" and "sched_inv (scd s) xs k" and "at_el1 (mach s)"
    and "dispatcher_code K clob" and "frame (SP (mach s) - CTX_SIZE) \<inter> K = {}"
  shows "\<exists>s'. system_timer clob sysd dev vbar s = Some s' \<and> running (mach s') = running (mach s) \<and>
    SP (mach s') = SP (mach s) \<and> (\<forall>a \<in> K. words (mach s') a = words (mach s) a) \<and>
    sched_inv (scd s') xs k \<and> tasks (scd s') = tasks (scd s)"
proof -
  let ?sc = "(scd s)\<lparr>SPSR_EL1 := PSTATE (mach s)\<rparr>"
  obtain c sc where d: "irq_dispatcher dev (SP (mach s) - CTX_SIZE) ?sc = (c, sc)" by fastforce
  have "sched_inv ?sc xs k" using assms(2) by (simp add: sched_inv_spsr)
  then have c: "c = SP (mach s) - CTX_SIZE" "sched_inv sc xs k" "tasks sc = tasks (scd s)"
    using irq_dispatcher_el1 [where dev = dev and f = "SP (mach s) - CTX_SIZE", of ?sc xs k] assms(3) by (simp_all add: d at_el1_def)
  note r = el1_interrupt_resumes [OF assms(4,5), where v = "vector_of vbar IRQ (PSTATE (mach s))"]
  show ?thesis
    using c r
    by (simp add: system_timer_def d exception_reaches(1) [OF assms(1)] handler_for_def kernel_handler_def)
qed

section \<open>Any number of interrupts\<close>

lemma interrupted_code_returns:
  assumes "vbar AND 0x7FF = 0" and "dispatcher_code K clob" and "\<forall>p \<in> S. frame (p - CTX_SIZE) \<inter> K = {}"
    and "\<forall>f \<in> set fs. call_code K p0 S f" and "call_end K p0 S g"
    and "sched_inv (scd s) xs k" and "SP (mach s) \<in> insert p0 S" and "at_el1 (mach s)"
  shows "\<exists>s'. interrupted_code clob dev vbar fs g s = Some s' \<and> SP (mach s') = p0 \<and>
    (\<forall>a \<in> K. words (mach s') a = words (mach s) a) \<and> sched_inv (scd s') xs k \<and> tasks (scd s') = tasks (scd s)"
  using assms(4,6-8)
proof (induction fs arbitrary: s)
  case Nil
  then show ?case using assms(5) by (auto simp: call_end_def keeps_words_def)
next
  case (Cons f fs)
  let ?s = "s\<lparr>mach := f (mach s)\<rparr>"
  have f: "call_code K p0 S f" using Cons.prems(1) by simp
  then have sp: "SP (mach ?s) \<in> S" and el: "at_el1 (mach ?s)" using Cons.prems(3,4) by (simp_all add: call_code_def)
  then have fr: "frame (SP (mach ?s) - CTX_SIZE) \<inter> K = {}" using assms(3) by simp
  have inv: "sched_inv (scd ?s) xs k" using Cons.prems(2) by simp
  obtain s1 where s1: "system_timer clob id dev vbar ?s = Some s1" "running (mach s1) = running (mach ?s)"
    "SP (mach s1) = SP (mach ?s)" "\<forall>a \<in> K. words (mach s1) a = words (mach ?s) a"
    "sched_inv (scd s1) xs k" "tasks (scd s1) = tasks (scd s)"
    using system_timer_el1 [where dev = dev and sysd = id, OF assms(1) inv el assms(2) fr] by auto
  have "PSTATE (mach s1) = PSTATE (mach ?s)" using arg_cong [OF s1(2), of spsr_el1] by (simp add: running_def)
  then have "at_el1 (mach s1)" "SP (mach s1) \<in> insert p0 S" using el sp s1(3) by (simp_all add: at_el1_def)
  moreover have "\<forall>a \<in> K. words (mach s1) a = words (mach s) a" using s1(4) f by (simp add: call_code_def keeps_words_def)
  ultimately show ?case using Cons.IH [OF _ s1(5)] Cons.prems(1) s1(1,6) by simp
qed

lemma trap_rel_scd:
  "trap_rel B N s ((xs, k, P), D) \<Longrightarrow> sched_inv sc xs k \<Longrightarrow> tasks sc = tasks (scd s) \<Longrightarrow>
     trap_rel B N \<lparr>mach = mach s, scd = sc\<rparr> ((xs, k, P), D)"
  by simp

section \<open>Properties\<close>


section \<open>The property at a concrete state\<close>

text \<open>
  Code that pushes a frame of 32 bytes and is interrupted twice, and a dispatcher that overwrites the
  words below its frame.
\<close>

definition two_pieces :: "(machine \<Rightarrow> machine) list" where
  "two_pieces = [\<lambda>m. m\<lparr>SP := 0x1FE0, X := (X m)(9 := 5)\<rparr>, \<lambda>m. m\<lparr>SP := 0x1FE0\<rparr>]"

definition dirty_dispatcher :: "machine \<Rightarrow> machine" where
  "dirty_dispatcher m =
    m\<lparr>X := (\<lambda>_. 7), words := (if SP m = 0x1ED0 then (words m)(0x1EC8 := 7) else words m)\<rparr>"


end
