(* ===== verification/EarlierDrivers.thy ===== *)
theory EarlierDrivers
  imports PhysUart Dtb Handlers SimpleSched
begin

text \<open>
  The drivers of the earlier kernels, translated from their own files: the serial port, the interrupt
  controller, the timer, the device tree scan, and the small functions of the scheduler and the handlers of
  \<^verbatim>\<open>kernel-simple-mmu\<close>; the controller and the timer of \<^verbatim>\<open>kernel-interrupts\<close>; the serial port and the
  register accesses of \<^verbatim>\<open>kernel-simple-scheduler\<close>.  The collection \<open>earlier\<close> says that each of them computes
  what its counterpart in \<open>Uart\<close>, \<open>Irq\<close>, \<open>Dtb\<close>, \<open>Handlers\<close>, \<open>PhysUart\<close> or \<open>SimpleSched\<close> computes, so
  that a statement about the present kernel is carried over by rewriting with it.  The output of \<open>set_cntv\<close>,
  which \<open>smmu_timer_irq_handler\<close> calls, is left out here and modelled in \<open>LogSched\<close>.
\<close>

named_theorems earlier

lemma same_runs: "(\<And>z. a = Some z \<Longrightarrow> b = Some z) \<Longrightarrow> (\<And>z. b = Some z \<Longrightarrow> a = Some z) \<Longrightarrow> a = b"
  by (cases a; cases b) auto

section \<open>kernel-simple-mmu: the serial port\<close>

definition SMMU_UART :: u64 where "SMMU_UART = 0xffff000082400000"
definition SMMU_DR :: u64 where "SMMU_DR = SMMU_UART + 0x00"
definition SMMU_FR :: u64 where "SMMU_FR = SMMU_UART + 0x18"
definition SMMU_IBRD :: u64 where "SMMU_IBRD = SMMU_UART + 0x24"
definition SMMU_FBRD :: u64 where "SMMU_FBRD = SMMU_UART + 0x28"
definition SMMU_LCRH :: u64 where "SMMU_LCRH = SMMU_UART + 0x2C"
definition SMMU_CR :: u64 where "SMMU_CR = SMMU_UART + 0x30"
definition SMMU_IMSC :: u64 where "SMMU_IMSC = SMMU_UART + 0x38"
definition SMMU_ICR :: u64 where "SMMU_ICR = SMMU_UART + 0x44"

definition smmu_mmio_w32 :: "u64 \<Rightarrow> u32 \<Rightarrow> bus \<Rightarrow> bus" where
  "smmu_mmio_w32 addr v h = bus_write addr v h"

definition smmu_mmio_r32 :: "device \<Rightarrow> u64 \<Rightarrow> bus \<Rightarrow> u32 \<times> bus" where
  "smmu_mmio_r32 dev addr h = bus_read dev addr h"

definition smmu_uart_init :: "device \<Rightarrow> bus \<Rightarrow> bus" where
  "smmu_uart_init dev h =
    (let h = smmu_mmio_w32 SMMU_CR 0 h;
         h = smmu_mmio_w32 SMMU_ICR 0x7FF h;
         h = smmu_mmio_w32 SMMU_IBRD 13 h;
         h = smmu_mmio_w32 SMMU_FBRD 2 h;
         h = smmu_mmio_w32 SMMU_LCRH (push_bit 5 3 OR push_bit 4 1) h;
         h = smmu_mmio_w32 SMMU_IMSC 0 h;
         h = smmu_mmio_w32 SMMU_CR (push_bit 0 1 OR push_bit 8 1 OR push_bit 9 1) h
     in snd (smmu_mmio_r32 dev SMMU_FR h))"

definition smmu_write_data :: "u32 \<Rightarrow> bus \<Rightarrow> bus" where
  "smmu_write_data v h = bus_write SMMU_DR v h"

definition smmu_read_status :: "device \<Rightarrow> bus \<Rightarrow> u32 \<times> bus" where
  "smmu_read_status dev h = bus_read dev SMMU_FR h"

partial_function (option) smmu_uart_putc :: "device \<Rightarrow> u8 \<Rightarrow> bus \<Rightarrow> bus option" where
  "smmu_uart_putc dev c h =
    (case smmu_read_status dev h of (status, h) \<Rightarrow>
       if status AND push_bit 5 1 \<noteq> 0 then smmu_uart_putc dev c h
       else Some (smmu_write_data (ucast c) h))"

partial_function (option) smmu_uart_puts :: "device \<Rightarrow> (u64 \<Rightarrow> u8) \<Rightarrow> u64 \<Rightarrow> bus \<Rightarrow> bus option" where
  "smmu_uart_puts dev mem s h =
    (if mem s = 0 then Some h
     else Option.bind (smmu_uart_putc dev (mem s) h) (smmu_uart_puts dev mem (s + 1)))"

fun smmu_digits_loop :: "nat \<Rightarrow> u8 list \<Rightarrow> u8 list" where
  "smmu_digits_loop d buf =
    (if d > 0 \<and> length buf < 2048
     then smmu_digits_loop (d div 10) (buf @ [48 + of_nat (d mod 10)])
     else buf)"

fun smmu_put_all :: "device \<Rightarrow> u8 list \<Rightarrow> bus \<Rightarrow> bus option" where
  "smmu_put_all dev [] h = Some h"
| "smmu_put_all dev (c # cs) h = Option.bind (smmu_uart_putc dev c h) (smmu_put_all dev cs)"

definition smmu_print_digits :: "device \<Rightarrow> u8 list \<Rightarrow> bus \<Rightarrow> bus option" where
  "smmu_print_digits dev buf h = smmu_put_all dev (rev buf) h"

definition smmu_uint2str :: "device \<Rightarrow> u64 \<Rightarrow> bus \<Rightarrow> bus option" where
  "smmu_uint2str dev d h =
    (if d = 0 then smmu_uart_putc dev 48 h
     else smmu_print_digits dev (smmu_digits_loop (unat d) []) h)"

definition smmu_int2str :: "device \<Rightarrow> u32 \<Rightarrow> bus \<Rightarrow> bus option" where
  "smmu_int2str dev d h =
    (if d = 0 then smmu_uart_putc dev 48 h
     else if sint d < 0 then
       Option.bind (smmu_uart_putc dev 45 h) (smmu_print_digits dev (smmu_digits_loop (nat (sint (- d))) []))
     else smmu_print_digits dev (smmu_digits_loop (nat (sint d)) []) h)"

partial_function (option) smmu_strulen :: "(u64 \<Rightarrow> u8) \<Rightarrow> u64 \<Rightarrow> nat \<Rightarrow> nat option" where
  "smmu_strulen mem p n = (if mem p = 0 then Some n else smmu_strulen mem (p + 1) (Suc n))"

definition smmu_print_arg :: "device \<Rightarrow> (u64 \<Rightarrow> u8) \<Rightarrow> u8 \<Rightarrow> u64 \<Rightarrow> bus \<Rightarrow> bus option" where
  "smmu_print_arg dev mem format_specifier arg h =
    (if format_specifier = 99 then smmu_uart_putc dev (ucast arg) h
     else if format_specifier = 100 then smmu_int2str dev (ucast arg) h
     else if format_specifier = 108 then smmu_uint2str dev arg h
     else if format_specifier = 115 then smmu_uart_puts dev mem arg h
     else smmu_uart_puts dev mem arg h)"

function smmu_printf_loop :: "device \<Rightarrow> (u64 \<Rightarrow> u8) \<Rightarrow> u64 \<Rightarrow> nat \<Rightarrow> (nat \<Rightarrow> u64) \<Rightarrow> nat \<Rightarrow> nat \<Rightarrow> bus \<Rightarrow> bus option" where
  "smmu_printf_loop dev mem fmt full args i k h =
    (if i < full then
       let current = mem (fmt + of_nat i) in
       if current \<noteq> 37 then
         Option.bind (smmu_uart_putc dev current h) (smmu_printf_loop dev mem fmt full args (i + 1) k)
       else
         Option.bind (smmu_print_arg dev mem (mem (fmt + of_nat (i + 1))) (args k) h)
           (smmu_printf_loop dev mem fmt full args (i + 1 + 1) (k + 1))
     else Some h)"
  by pat_completeness auto

termination by (relation "measure (\<lambda>(dev, mem, fmt, full, args, i, k, h). full - i)") auto

definition smmu_uart_printf :: "device \<Rightarrow> (u64 \<Rightarrow> u8) \<Rightarrow> u64 \<Rightarrow> (nat \<Rightarrow> u64) \<Rightarrow> bus \<Rightarrow> bus option" where
  "smmu_uart_printf dev mem fmt args h =
     Option.bind (smmu_strulen mem fmt 0) (\<lambda>full. smmu_printf_loop dev mem fmt full args 0 0 h)"

declare smmu_digits_loop.simps [simp del] smmu_printf_loop.simps [simp del]

lemma smmu_uart_registers [earlier]:
  "SMMU_UART = UART"
  "SMMU_DR = DR"
  "SMMU_FR = FR"
  "SMMU_IBRD = IBRD"
  "SMMU_FBRD = FBRD"
  "SMMU_LCRH = LCRH"
  "SMMU_CR = CR"
  "SMMU_IMSC = IMSC"
  "SMMU_ICR = ICR"
  by (simp_all add: SMMU_UART_def UART_def SMMU_DR_def DR_def SMMU_FR_def FR_def SMMU_IBRD_def IBRD_def
      SMMU_FBRD_def FBRD_def SMMU_LCRH_def LCRH_def SMMU_CR_def CR_def SMMU_IMSC_def IMSC_def
      SMMU_ICR_def ICR_def)

lemma smmu_uart_accesses [earlier]:
  "smmu_mmio_w32 = mmio_w32" "smmu_mmio_r32 = mmio_r32" "smmu_uart_init = uart_init"
  "smmu_write_data = write_data" "smmu_read_status = read_status"
  by (simp_all add: fun_eq_iff smmu_mmio_w32_def mmio_w32_def smmu_mmio_r32_def mmio_r32_def
      smmu_uart_init_def uart_init_def
      smmu_write_data_def write_data_def smmu_read_status_def read_status_def earlier)

lemma smmu_uart_putc [earlier]: "smmu_uart_putc = uart_putc"
proof ((rule ext)+, rule same_runs)
  fix dev c h z
  show "smmu_uart_putc dev c h = Some z \<Longrightarrow> uart_putc dev c h = Some z"
    by (erule smmu_uart_putc.raw_induct [where P = "\<lambda>dev c h z. uart_putc dev c h = Some z", rotated])
      (subst uart_putc.simps, auto simp: split_beta earlier split: if_split_asm)
  show "uart_putc dev c h = Some z \<Longrightarrow> smmu_uart_putc dev c h = Some z"
    by (erule uart_putc.raw_induct [where P = "\<lambda>dev c h z. smmu_uart_putc dev c h = Some z", rotated])
      (subst smmu_uart_putc.simps, auto simp: split_beta earlier split: if_split_asm)
qed

lemma smmu_uart_puts [earlier]: "smmu_uart_puts = uart_puts"
proof ((rule ext)+, rule same_runs)
  fix dev mem p h z
  show "smmu_uart_puts dev mem p h = Some z \<Longrightarrow> uart_puts dev mem p h = Some z"
    by (erule smmu_uart_puts.raw_induct [where P = "\<lambda>dev mem p h z. uart_puts dev mem p h = Some z", rotated])
      (subst uart_puts.simps, auto simp: split_beta bind_eq_Some_conv earlier split: if_split_asm)
  show "uart_puts dev mem p h = Some z \<Longrightarrow> smmu_uart_puts dev mem p h = Some z"
    by (erule uart_puts.raw_induct [where P = "\<lambda>dev mem p h z. smmu_uart_puts dev mem p h = Some z", rotated])
      (subst smmu_uart_puts.simps, auto simp: split_beta bind_eq_Some_conv earlier split: if_split_asm)
qed

lemma smmu_strulen [earlier]: "smmu_strulen = strulen"
proof ((rule ext)+, rule same_runs)
  fix mem p n z
  show "smmu_strulen mem p n = Some z \<Longrightarrow> strulen mem p n = Some z"
    by (erule smmu_strulen.raw_induct [where P = "\<lambda>mem p n z. strulen mem p n = Some z", rotated])
      (subst strulen.simps, simp split: if_split_asm)
  show "strulen mem p n = Some z \<Longrightarrow> smmu_strulen mem p n = Some z"
    by (erule strulen.raw_induct [where P = "\<lambda>mem p n z. smmu_strulen mem p n = Some z", rotated])
      (subst smmu_strulen.simps, simp split: if_split_asm)
qed

lemma smmu_digits_loop [earlier]: "smmu_digits_loop = digits_loop"
proof (intro ext)
  fix d buf
  show "smmu_digits_loop d buf = digits_loop d buf"
    by (induction d buf rule: smmu_digits_loop.induct) (subst smmu_digits_loop.simps, subst digits_loop.simps, simp)
qed

lemma smmu_put_all [earlier]: "smmu_put_all = put_all"
proof (intro ext)
  fix dev cs h
  show "smmu_put_all dev cs h = put_all dev cs h"
    by (induction cs arbitrary: h) (simp_all add: earlier cong: Option.bind_cong)
qed

lemma smmu_print_digits [earlier]: "smmu_print_digits = print_digits"
  by (simp add: fun_eq_iff smmu_print_digits_def print_digits_def earlier)

lemma smmu_numbers [earlier]: "smmu_uint2str = uint2str" "smmu_int2str = int2str"
  by (simp_all add: fun_eq_iff smmu_uint2str_def uint2str_def smmu_int2str_def int2str_def earlier)

lemma smmu_print_arg [earlier]: "smmu_print_arg = print_arg"
  by (simp add: fun_eq_iff smmu_print_arg_def print_arg_def earlier)

lemma smmu_printf_loop [earlier]: "smmu_printf_loop = printf_loop"
proof (intro ext)
  fix dev mem fmt full args i k h
  show "smmu_printf_loop dev mem fmt full args i k h = printf_loop dev mem fmt full args i k h"
    by (induction dev mem fmt full args i k h rule: printf_loop.induct)
      (subst smmu_printf_loop.simps, subst printf_loop.simps, auto simp: earlier Let_def cong: Option.bind_cong)
qed

lemma smmu_uart_printf [earlier]: "smmu_uart_printf = uart_printf"
  by (simp add: fun_eq_iff smmu_uart_printf_def uart_printf_def earlier)

section \<open>kernel-simple-mmu: interrupt controller, timer and handlers\<close>

definition SMMU_VIRTUAL_GICD :: u64 where "SMMU_VIRTUAL_GICD = 0xffff000081400000"
definition SMMU_VIRTUAL_GICC :: u64 where "SMMU_VIRTUAL_GICC = 0xffff000081410000"
definition SMMU_IRQ_VTIMER :: nat where "SMMU_IRQ_VTIMER = 27"

definition smmu_w32 :: "u64 \<Rightarrow> u32 \<Rightarrow> 'a irq_state_scheme \<Rightarrow> 'a irq_state_scheme" where
  "smmu_w32 a v s = s\<lparr>gic_bus := bus_write a v (gic_bus s)\<rparr>"

definition smmu_r32 :: "device \<Rightarrow> u64 \<Rightarrow> 'a irq_state_scheme \<Rightarrow> u32 \<times> 'a irq_state_scheme" where
  "smmu_r32 dev a s = (case bus_read dev a (gic_bus s) of (v, h) \<Rightarrow> (v, s\<lparr>gic_bus := h\<rparr>))"

definition smmu_gic_init :: "'a irq_state_scheme \<Rightarrow> 'a irq_state_scheme" where
  "smmu_gic_init s =
    (let s = smmu_w32 (SMMU_VIRTUAL_GICD + 0x000) 1 s;
         s = smmu_w32 (SMMU_VIRTUAL_GICD + 0x100) (push_bit SMMU_IRQ_VTIMER 1) s;
         s = smmu_w32 (SMMU_VIRTUAL_GICC + 0x000) 1 s
     in smmu_w32 (SMMU_VIRTUAL_GICC + 0x004) 0xf0 s)"

definition smmu_gic_ack :: "device \<Rightarrow> 'a irq_state_scheme \<Rightarrow> u32 \<times> 'a irq_state_scheme" where
  "smmu_gic_ack dev s = smmu_r32 dev (SMMU_VIRTUAL_GICC + 0x00C) s"

definition smmu_gic_eoi :: "u32 \<Rightarrow> 'a irq_state_scheme \<Rightarrow> 'a irq_state_scheme" where
  "smmu_gic_eoi irq s = smmu_w32 (SMMU_VIRTUAL_GICC + 0x010) irq s"

definition smmu_msr_cntv_tval :: "u64 \<Rightarrow> 'a irq_state_scheme \<Rightarrow> 'a irq_state_scheme" where
  "smmu_msr_cntv_tval v s = s\<lparr>CNTV_TVAL_EL0 := v\<rparr>"

definition smmu_enable_cntv :: "'a irq_state_scheme \<Rightarrow> 'a irq_state_scheme" where
  "smmu_enable_cntv s = s\<lparr>CNTV_CTL_EL0 := 1\<rparr>"

definition smmu_disable_cntv :: "'a irq_state_scheme \<Rightarrow> 'a irq_state_scheme" where
  "smmu_disable_cntv s = s\<lparr>CNTV_CTL_EL0 := 0\<rparr>"

definition smmu_read_cntfrq :: "'a irq_state_scheme \<Rightarrow> 'a irq_state_scheme" where
  "smmu_read_cntfrq s = s\<lparr>cntfrq := CNTFRQ_EL0 s\<rparr>"

definition smmu_timer_irq_handler :: "'a irq_state_scheme \<Rightarrow> 'a irq_state_scheme" where
  "smmu_timer_irq_handler s = set_cntv s"

definition smmu_check_current_el :: "'a irq_state_scheme \<Rightarrow> u64" where
  "smmu_check_current_el s =
    (let spsr = SPSR_EL1 s;
         current_el = drop_bit 2 spsr AND mask 2
     in if current_el = 1 then 1 else 0)"

definition smmu_spsr_el0t_default :: u64 where
  "smmu_spsr_el0t_default = (let M_EL0t = 0; DAIF = 0 in M_EL0t OR push_bit 6 DAIF)"

definition smmu_build_initial_context :: "u64 \<Rightarrow> u64 \<Rightarrow> Context \<Rightarrow> Context" where
  "smmu_build_initial_context entry ustack ctx =
     ctx\<lparr>sp_el0 := ustack, elr_el1 := entry, spsr_el1 := smmu_spsr_el0t_default\<rparr>"

definition smmu_sched_set_current :: "u64 \<Rightarrow> 'a sched_state_scheme \<Rightarrow> 'a sched_state_scheme" where
  "smmu_sched_set_current t s =
    (let s = s\<lparr>current := t\<rparr> in upd_task (current s) (task_state_update (\<lambda>_. RUNNING)) s)"

lemma smmu_gic [earlier]:
  "SMMU_VIRTUAL_GICD = VIRTUAL_GICD" "SMMU_VIRTUAL_GICC = VIRTUAL_GICC" "SMMU_IRQ_VTIMER = IRQ_VTIMER"
  "smmu_w32 = w32" "smmu_r32 = r32"
  "smmu_gic_init = gic_init" "smmu_gic_ack = gic_ack" "smmu_gic_eoi = gic_eoi"
  by (simp_all add: fun_eq_iff SMMU_VIRTUAL_GICD_def VIRTUAL_GICD_def SMMU_VIRTUAL_GICC_def VIRTUAL_GICC_def
      SMMU_IRQ_VTIMER_def IRQ_VTIMER_def smmu_w32_def w32_def smmu_r32_def r32_def
      smmu_gic_init_def gic_init_def smmu_gic_ack_def gic_ack_def smmu_gic_eoi_def gic_eoi_def)

lemma smmu_timer [earlier]:
  "smmu_msr_cntv_tval = msr_cntv_tval" "smmu_enable_cntv = enable_cntv" "smmu_disable_cntv = disable_cntv"
  "smmu_read_cntfrq = read_cntfrq"
  by (simp_all add: fun_eq_iff smmu_msr_cntv_tval_def msr_cntv_tval_def smmu_enable_cntv_def enable_cntv_def
      smmu_disable_cntv_def disable_cntv_def smmu_read_cntfrq_def read_cntfrq_def)

lemma smmu_handlers [earlier]:
  "smmu_timer_irq_handler = timer_irq_handler" "smmu_check_current_el = check_current_el"
  "smmu_spsr_el0t_default = spsr_el0t_default" "smmu_build_initial_context = build_initial_context"
  "smmu_sched_set_current = sched_set_current"
  by (simp_all add: fun_eq_iff smmu_timer_irq_handler_def timer_irq_handler_def smmu_check_current_el_def
      check_current_el_def
      smmu_spsr_el0t_default_def spsr_el0t_default_def smmu_build_initial_context_def
      build_initial_context_def smmu_sched_set_current_def sched_set_current_def)

section \<open>kernel-simple-mmu: the device tree\<close>

definition SMMU_TOKEN_BEGIN_NODE :: u32 where "SMMU_TOKEN_BEGIN_NODE = 0x1"
definition SMMU_TOKEN_END_NODE :: u32 where "SMMU_TOKEN_END_NODE = 0x2"
definition SMMU_TOKEN_PROP :: u32 where "SMMU_TOKEN_PROP = 0x3"
definition SMMU_TOKEN_NOP :: u32 where "SMMU_TOKEN_NOP = 0x4"
definition SMMU_TOKEN_END :: u32 where "SMMU_TOKEN_END = 0x9"

definition smmu_read_b32 :: "(u64 \<Rightarrow> u8) \<Rightarrow> u64 \<Rightarrow> u32" where
  "smmu_read_b32 mem p =
     push_bit 24 (ucast (mem p)) OR push_bit 16 (ucast (mem (p + 1))) OR
     push_bit 8 (ucast (mem (p + 2))) OR push_bit 0 (ucast (mem (p + 3)))"

definition smmu_dtb_off_dt_struct :: "(u64 \<Rightarrow> u8) \<Rightarrow> u64 \<Rightarrow> u32" where
  "smmu_dtb_off_dt_struct mem header = bswap32 (load32 mem (header + 8))"

definition smmu_dtb_off_dt_strings :: "(u64 \<Rightarrow> u8) \<Rightarrow> u64 \<Rightarrow> u32" where
  "smmu_dtb_off_dt_strings mem header = bswap32 (load32 mem (header + 12))"

partial_function (option) smmu_skip_string :: "(u64 \<Rightarrow> u8) \<Rightarrow> u64 \<Rightarrow> u64 option" where
  "smmu_skip_string mem p = (if mem p \<noteq> 0 then smmu_skip_string mem (p + 1) else Some p)"

fun smmu_ram_regs :: "(u64 \<Rightarrow> u8) \<Rightarrow> u64 \<Rightarrow> nat \<Rightarrow> u64 \<Rightarrow> u64" where
  "smmu_ram_regs mem p 0 tot = tot"
| "smmu_ram_regs mem p (Suc n) tot =
    (let add2 = smmu_read_b32 mem p; add1 = smmu_read_b32 mem (p + 4);
         size2 = smmu_read_b32 mem (p + 8); size1 = smmu_read_b32 mem (p + 12);
         add = push_bit 32 (ucast add2) OR ucast add1 :: u64;
         sz = push_bit 32 (ucast size2) OR ucast size1
     in smmu_ram_regs mem (p + 16) n (tot + sz))"

definition smmu_ram_token :: "(u64 \<Rightarrow> u8) \<Rightarrow> u64 \<Rightarrow> u64 \<times> bool \<Rightarrow> (u64 \<times> bool + u64) option" where
  "smmu_ram_token mem dt_strings st =
    (case st of (p, inside_memory_node) \<Rightarrow>
     let token = smmu_read_b32 mem p; p = p + 4; tot = 0 in
     if token = SMMU_TOKEN_BEGIN_NODE then
       let inside = (if mem p = 0 then False
                     else if mem p = 109 \<and> mem (p + 1) = 101 \<and> mem (p + 5) = 121 then True
                     else False)
       in map_option (\<lambda>p. Inl (align4 (p + 1), inside)) (smmu_skip_string mem p)
     else if token = SMMU_TOKEN_PROP then
       let len = smmu_read_b32 mem p; p = p + 4;
           string_offset = smmu_read_b32 mem p; p = p + 4;
           string = dt_strings + ucast string_offset
       in if inside_memory_node \<and> mem string = 114 \<and> mem (string + 2) = 103 then
            (if len \<le> 0 then Some (Inr 0)
             else let max = len div 16 in Some (Inr (smmu_ram_regs mem p (unat max) tot)))
          else Some (Inl (align4 (p + ucast len), inside_memory_node))
     else if token = SMMU_TOKEN_END_NODE then Some (Inl (p, False))
     else if token = SMMU_TOKEN_NOP then Some (Inl (p, inside_memory_node))
     else if token = SMMU_TOKEN_END then Some (Inr tot)
     else Some (Inr tot))"

definition smmu_get_total_ram :: "(u64 \<Rightarrow> u8) \<Rightarrow> u64 option" where
  "smmu_get_total_ram mem =
    (let off_dt_struct = smmu_dtb_off_dt_struct mem 0x40000000;
         off_dt_string = smmu_dtb_off_dt_strings mem 0x40000000;
         dt_struct = ucast (0x40000000 + off_dt_struct :: u32);
         dt_strings = ucast (0x40000000 + off_dt_string :: u32)
     in token_loop (smmu_ram_token mem dt_strings) (dt_struct, False))"

lemma smmu_dtb_reads [earlier]:
  "SMMU_TOKEN_BEGIN_NODE = TOKEN_BEGIN_NODE" "SMMU_TOKEN_END_NODE = TOKEN_END_NODE"
  "SMMU_TOKEN_PROP = TOKEN_PROP" "SMMU_TOKEN_NOP = TOKEN_NOP" "SMMU_TOKEN_END = TOKEN_END"
  "smmu_read_b32 = read_b32" "smmu_dtb_off_dt_struct = dtb_off_dt_struct"
  "smmu_dtb_off_dt_strings = dtb_off_dt_strings"
  by (simp_all add: fun_eq_iff SMMU_TOKEN_BEGIN_NODE_def TOKEN_BEGIN_NODE_def SMMU_TOKEN_END_NODE_def
      TOKEN_END_NODE_def SMMU_TOKEN_PROP_def TOKEN_PROP_def SMMU_TOKEN_NOP_def TOKEN_NOP_def
      SMMU_TOKEN_END_def TOKEN_END_def
      smmu_read_b32_def read_b32_def smmu_dtb_off_dt_struct_def dtb_off_dt_struct_def
      smmu_dtb_off_dt_strings_def dtb_off_dt_strings_def)

lemma smmu_skip_string [earlier]: "smmu_skip_string = skip_string"
proof ((rule ext)+, rule same_runs)
  fix mem p z
  show "smmu_skip_string mem p = Some z \<Longrightarrow> skip_string mem p = Some z"
    by (erule smmu_skip_string.raw_induct [where P = "\<lambda>mem p z. skip_string mem p = Some z", rotated])
      (subst skip_string.simps, simp split: if_split_asm)
  show "skip_string mem p = Some z \<Longrightarrow> smmu_skip_string mem p = Some z"
    by (erule skip_string.raw_induct [where P = "\<lambda>mem p z. smmu_skip_string mem p = Some z", rotated])
      (subst smmu_skip_string.simps, simp split: if_split_asm)
qed

lemma smmu_ram_regs [earlier]: "smmu_ram_regs = ram_regs"
proof (intro ext)
  fix mem p n tot
  show "smmu_ram_regs mem p n tot = ram_regs mem p n tot"
    by (induction n arbitrary: p tot) (simp_all add: earlier Let_def)
qed

lemma smmu_ram_token [earlier]: "smmu_ram_token = ram_token"
  unfolding fun_eq_iff smmu_ram_token_def ram_token_def earlier by simp

lemma smmu_get_total_ram [earlier]: "smmu_get_total_ram = get_total_ram"
  by (simp add: fun_eq_iff smmu_get_total_ram_def get_total_ram_def earlier)

section \<open>kernel-interrupts: interrupt controller and timer\<close>

definition KINT_IRQ_VTIMER :: nat where "KINT_IRQ_VTIMER = 27"

definition kint_w32 :: "u64 \<Rightarrow> u32 \<Rightarrow> 'a irq_state_scheme \<Rightarrow> 'a irq_state_scheme" where
  "kint_w32 a v s = s\<lparr>gic_bus := bus_write a v (gic_bus s)\<rparr>"

definition kint_r32 :: "device \<Rightarrow> u64 \<Rightarrow> 'a irq_state_scheme \<Rightarrow> u32 \<times> 'a irq_state_scheme" where
  "kint_r32 dev a s = (case bus_read dev a (gic_bus s) of (v, h) \<Rightarrow> (v, s\<lparr>gic_bus := h\<rparr>))"

definition kint_msr_cntv_tval :: "u64 \<Rightarrow> 'a irq_state_scheme \<Rightarrow> 'a irq_state_scheme" where
  "kint_msr_cntv_tval v s = s\<lparr>CNTV_TVAL_EL0 := v\<rparr>"

definition kint_enable_cntv :: "'a irq_state_scheme \<Rightarrow> 'a irq_state_scheme" where
  "kint_enable_cntv s = s\<lparr>CNTV_CTL_EL0 := 1\<rparr>"

definition kint_read_cntfrq :: "'a irq_state_scheme \<Rightarrow> 'a irq_state_scheme" where
  "kint_read_cntfrq s = s\<lparr>cntfrq := CNTFRQ_EL0 s\<rparr>"

definition KINT_GICD_BASE :: u64 where "KINT_GICD_BASE = 0x08000000"
definition KINT_GICC_BASE :: u64 where "KINT_GICC_BASE = 0x08010000"

definition kint_gic_init :: "'a irq_state_scheme \<Rightarrow> 'a irq_state_scheme" where
  "kint_gic_init s =
    (let s = kint_w32 (KINT_GICD_BASE + 0x000) 1 s;
         s = kint_w32 (KINT_GICD_BASE + 0x100) (push_bit KINT_IRQ_VTIMER 1) s;
         s = kint_w32 (KINT_GICC_BASE + 0x000) 1 s
     in kint_w32 (KINT_GICC_BASE + 0x004) 0xf0 s)"

definition kint_gic_ack :: "device \<Rightarrow> 'a irq_state_scheme \<Rightarrow> u32 \<times> 'a irq_state_scheme" where
  "kint_gic_ack dev s = kint_r32 dev (KINT_GICC_BASE + 0x00C) s"

definition kint_gic_eoi :: "u32 \<Rightarrow> 'a irq_state_scheme \<Rightarrow> 'a irq_state_scheme" where
  "kint_gic_eoi irq s = kint_w32 (KINT_GICC_BASE + 0x010) irq s"

definition kint_set_cntv :: "'a irq_state_scheme \<Rightarrow> 'a irq_state_scheme" where
  "kint_set_cntv s = (let our_freq = cntfrq s div 1000 in kint_msr_cntv_tval our_freq s)"

definition kint_timer_init_1khz :: "'a irq_state_scheme \<Rightarrow> 'a irq_state_scheme" where
  "kint_timer_init_1khz s = kint_enable_cntv (kint_set_cntv (kint_read_cntfrq s))"

lemma kint_accesses [earlier]:
  "KINT_IRQ_VTIMER = IRQ_VTIMER" "kint_w32 = w32" "kint_r32 = r32" "kint_msr_cntv_tval = msr_cntv_tval"
  "kint_enable_cntv = enable_cntv" "kint_read_cntfrq = read_cntfrq"
  by (simp_all add: fun_eq_iff KINT_IRQ_VTIMER_def IRQ_VTIMER_def kint_w32_def w32_def kint_r32_def r32_def
      kint_msr_cntv_tval_def msr_cntv_tval_def kint_enable_cntv_def enable_cntv_def kint_read_cntfrq_def
      read_cntfrq_def)

lemma kint_drivers [earlier]:
  "KINT_GICD_BASE = GICD_BASE" "KINT_GICC_BASE = GICC_BASE" "kint_gic_init = simple_gic_init"
  "kint_gic_ack = simple_gic_ack"
  "kint_gic_eoi = simple_gic_eoi" "kint_set_cntv = simple_set_cntv" "kint_timer_init_1khz = simple_timer_init_1khz"
  by (simp_all add: fun_eq_iff KINT_GICD_BASE_def GICD_BASE_def KINT_GICC_BASE_def GICC_BASE_def
      kint_gic_init_def simple_gic_init_def kint_gic_ack_def simple_gic_ack_def
      kint_gic_eoi_def simple_gic_eoi_def kint_set_cntv_def simple_set_cntv_def kint_timer_init_1khz_def
      simple_timer_init_1khz_def earlier)

section \<open>kernel-simple-scheduler: serial port and register accesses\<close>

definition SSCHED_UART :: u64 where "SSCHED_UART = 0x09000000"
definition SSCHED_DR :: u64 where "SSCHED_DR = SSCHED_UART + 0x00"
definition SSCHED_FR :: u64 where "SSCHED_FR = SSCHED_UART + 0x18"
definition SSCHED_IBRD :: u64 where "SSCHED_IBRD = SSCHED_UART + 0x24"
definition SSCHED_FBRD :: u64 where "SSCHED_FBRD = SSCHED_UART + 0x28"
definition SSCHED_LCRH :: u64 where "SSCHED_LCRH = SSCHED_UART + 0x2C"
definition SSCHED_CR :: u64 where "SSCHED_CR = SSCHED_UART + 0x30"
definition SSCHED_IMSC :: u64 where "SSCHED_IMSC = SSCHED_UART + 0x38"
definition SSCHED_ICR :: u64 where "SSCHED_ICR = SSCHED_UART + 0x44"

definition ssched_mmio_w32 :: "u64 \<Rightarrow> u32 \<Rightarrow> bus \<Rightarrow> bus" where
  "ssched_mmio_w32 addr v h = bus_write addr v h"

definition ssched_mmio_r32 :: "device \<Rightarrow> u64 \<Rightarrow> bus \<Rightarrow> u32 \<times> bus" where
  "ssched_mmio_r32 dev addr h = bus_read dev addr h"

definition ssched_uart_init :: "device \<Rightarrow> bus \<Rightarrow> bus" where
  "ssched_uart_init dev h =
    (let h = ssched_mmio_w32 SSCHED_CR 0 h;
         h = ssched_mmio_w32 SSCHED_ICR 0x7FF h;
         h = ssched_mmio_w32 SSCHED_IBRD 13 h;
         h = ssched_mmio_w32 SSCHED_FBRD 2 h;
         h = ssched_mmio_w32 SSCHED_LCRH (push_bit 5 3 OR push_bit 4 1) h;
         h = ssched_mmio_w32 SSCHED_IMSC 0 h;
         h = ssched_mmio_w32 SSCHED_CR (push_bit 0 1 OR push_bit 8 1 OR push_bit 9 1) h
     in snd (ssched_mmio_r32 dev SSCHED_FR h))"

definition ssched_write_data :: "u32 \<Rightarrow> bus \<Rightarrow> bus" where
  "ssched_write_data v h = bus_write SSCHED_DR v h"

definition ssched_read_status :: "device \<Rightarrow> bus \<Rightarrow> u32 \<times> bus" where
  "ssched_read_status dev h = bus_read dev SSCHED_FR h"

partial_function (option) ssched_uart_putc :: "device \<Rightarrow> u8 \<Rightarrow> bus \<Rightarrow> bus option" where
  "ssched_uart_putc dev c h =
    (case ssched_read_status dev h of (status, h) \<Rightarrow>
       if status AND push_bit 5 1 \<noteq> 0 then ssched_uart_putc dev c h
       else Some (ssched_write_data (ucast c) h))"

partial_function (option) ssched_uart_puts :: "device \<Rightarrow> (u64 \<Rightarrow> u8) \<Rightarrow> u64 \<Rightarrow> bus \<Rightarrow> bus option" where
  "ssched_uart_puts dev mem s h =
    (if mem s = 0 then Some h
     else Option.bind (ssched_uart_putc dev (mem s) h) (ssched_uart_puts dev mem (s + 1)))"

definition ssched_w32 :: "u64 \<Rightarrow> u32 \<Rightarrow> 'a irq_state_scheme \<Rightarrow> 'a irq_state_scheme" where
  "ssched_w32 a v s = s\<lparr>gic_bus := bus_write a v (gic_bus s)\<rparr>"

definition ssched_r32 :: "device \<Rightarrow> u64 \<Rightarrow> 'a irq_state_scheme \<Rightarrow> u32 \<times> 'a irq_state_scheme" where
  "ssched_r32 dev a s = (case bus_read dev a (gic_bus s) of (v, h) \<Rightarrow> (v, s\<lparr>gic_bus := h\<rparr>))"

definition SSCHED_IRQ_VTIMER :: nat where "SSCHED_IRQ_VTIMER = 27"

definition ssched_msr_cntv_tval :: "u64 \<Rightarrow> 'a irq_state_scheme \<Rightarrow> 'a irq_state_scheme" where
  "ssched_msr_cntv_tval v s = s\<lparr>CNTV_TVAL_EL0 := v\<rparr>"

definition ssched_enable_cntv :: "'a irq_state_scheme \<Rightarrow> 'a irq_state_scheme" where
  "ssched_enable_cntv s = s\<lparr>CNTV_CTL_EL0 := 1\<rparr>"

definition ssched_read_cntfrq :: "'a irq_state_scheme \<Rightarrow> 'a irq_state_scheme" where
  "ssched_read_cntfrq s = s\<lparr>cntfrq := CNTFRQ_EL0 s\<rparr>"

lemma ssched_accesses [earlier]:
  "ssched_w32 = w32" "ssched_r32 = r32" "SSCHED_IRQ_VTIMER = IRQ_VTIMER"
  "ssched_msr_cntv_tval = msr_cntv_tval" "ssched_enable_cntv = enable_cntv" "ssched_read_cntfrq = read_cntfrq"
  by (simp_all add: fun_eq_iff ssched_w32_def w32_def ssched_r32_def r32_def SSCHED_IRQ_VTIMER_def
      IRQ_VTIMER_def ssched_msr_cntv_tval_def msr_cntv_tval_def ssched_enable_cntv_def enable_cntv_def
      ssched_read_cntfrq_def read_cntfrq_def)

lemma ssched_uart [earlier]:
  "SSCHED_UART = PHYS_UART" "SSCHED_DR = PHYS_DR" "SSCHED_FR = PHYS_FR" "SSCHED_IBRD = PHYS_IBRD"
  "SSCHED_FBRD = PHYS_FBRD" "SSCHED_LCRH = PHYS_LCRH" "SSCHED_CR = PHYS_CR" "SSCHED_IMSC = PHYS_IMSC"
  "SSCHED_ICR = PHYS_ICR"
  "ssched_mmio_w32 = mmio_w32" "ssched_mmio_r32 = mmio_r32"
  "ssched_uart_init = phys_uart_init" "ssched_write_data = phys_write_data" "ssched_read_status = phys_read_status"
  by (simp_all add: fun_eq_iff SSCHED_UART_def PHYS_UART_def SSCHED_DR_def PHYS_DR_def SSCHED_FR_def
      PHYS_FR_def SSCHED_IBRD_def PHYS_IBRD_def SSCHED_FBRD_def PHYS_FBRD_def SSCHED_LCRH_def PHYS_LCRH_def
      SSCHED_CR_def PHYS_CR_def SSCHED_IMSC_def PHYS_IMSC_def SSCHED_ICR_def PHYS_ICR_def
      ssched_mmio_w32_def mmio_w32_def ssched_mmio_r32_def mmio_r32_def
      ssched_uart_init_def phys_uart_init_def ssched_write_data_def phys_write_data_def ssched_read_status_def
      phys_read_status_def)

lemma ssched_uart_putc [earlier]: "ssched_uart_putc = phys_putc"
proof ((rule ext)+, rule same_runs)
  fix dev c h z
  show "ssched_uart_putc dev c h = Some z \<Longrightarrow> phys_putc dev c h = Some z"
    by (erule ssched_uart_putc.raw_induct [where P = "\<lambda>dev c h z. phys_putc dev c h = Some z", rotated])
      (subst phys_putc.simps, auto simp: split_beta earlier split: if_split_asm)
  show "phys_putc dev c h = Some z \<Longrightarrow> ssched_uart_putc dev c h = Some z"
    by (erule phys_putc.raw_induct [where P = "\<lambda>dev c h z. ssched_uart_putc dev c h = Some z", rotated])
      (subst ssched_uart_putc.simps, auto simp: split_beta earlier split: if_split_asm)
qed

lemma ssched_uart_puts [earlier]: "ssched_uart_puts = phys_puts"
proof ((rule ext)+, rule same_runs)
  fix dev mem p h z
  show "ssched_uart_puts dev mem p h = Some z \<Longrightarrow> phys_puts dev mem p h = Some z"
    by (erule ssched_uart_puts.raw_induct [where P = "\<lambda>dev mem p h z. phys_puts dev mem p h = Some z", rotated])
      (subst phys_puts.simps, auto simp: split_beta bind_eq_Some_conv earlier split: if_split_asm)
  show "phys_puts dev mem p h = Some z \<Longrightarrow> ssched_uart_puts dev mem p h = Some z"
    by (erule phys_puts.raw_induct [where P = "\<lambda>dev mem p h z. ssched_uart_puts dev mem p h = Some z", rotated])
      (subst ssched_uart_puts.simps, auto simp: split_beta bind_eq_Some_conv earlier split: if_split_asm)
qed

end
