(* ===== verification/EarlierAlloc.thy ===== *)
theory EarlierAlloc
  imports EarlierDrivers SimpleBoot HostTools
begin

text \<open>
  Memory management, translated from its other two copies: \<^verbatim>\<open>kernel-simple-mmu/core/mmu.c\<close> (descriptors,
  registers, bitmap and pages; what differs in that file is in \<open>SimpleMmu\<close>) with \<open>init_allocation_map\<close> and
  \<open>kernal_to_user_space\<close> of its \<^verbatim>\<open>kmain.c\<close>, and the bitmap that \<^verbatim>\<open>kernel/core/test.c\<close> carries with it to the host.
  The collection \<open>earlier\<close> relates them to \<open>PageTable\<close>, \<open>Bitmap\<close>, \<open>Kmalloc\<close> and \<open>Boot\<close>.  The lines that \<open>set_bitmap\<close>
  and \<open>init_allocation_map\<close> log are left out.
\<close>

section \<open>kernel-simple-mmu: descriptors and tables\<close>

definition smmu_kernal_to_user_space :: "u64 \<Rightarrow> u64" where
  "smmu_kernal_to_user_space virtual_kernel_address = virtual_kernel_address AND 0x0000FFFFFFFFFFFF"

definition smmu_calc_index_l0 :: "u64 \<Rightarrow> u64" where
  "smmu_calc_index_l0 va = drop_bit 39 va AND 0x1FF"

definition smmu_calc_index_l1 :: "u64 \<Rightarrow> u64" where
  "smmu_calc_index_l1 va = drop_bit 30 va AND 0x1FF"

definition smmu_calc_index_l2 :: "u64 \<Rightarrow> u64" where
  "smmu_calc_index_l2 va = drop_bit 21 va AND 0x1FF"

definition smmu_calc_index_l3 :: "u64 \<Rightarrow> u64" where
  "smmu_calc_index_l3 va = drop_bit 12 va AND 0x1FF"

definition SMMU_DESC_VALID :: u64 where "SMMU_DESC_VALID = push_bit 0 1"
definition SMMU_DESC_TABLE :: u64 where "SMMU_DESC_TABLE = push_bit 1 1"
definition SMMU_DESC_PAGE :: u64 where "SMMU_DESC_PAGE = push_bit 1 1"
definition SMMU_DESC_AF :: u64 where "SMMU_DESC_AF = push_bit 10 1"
definition SMMU_DESC_AP :: u64 where "SMMU_DESC_AP = push_bit 6 1"

definition smmu_make_table_desc :: "u64 \<Rightarrow> u64" where
  "smmu_make_table_desc next_table_phys_base =
     (let descr = push_bit 12 (drop_bit 12 (next_table_phys_base AND NOT 0xFFF))
      in descr OR (SMMU_DESC_VALID OR SMMU_DESC_TABLE))"

definition smmu_make_l3_block_desc :: "u64 \<Rightarrow> u64" where
  "smmu_make_l3_block_desc phys_base =
     (let descr = push_bit 0 phys_base AND NOT 0xFFF
      in descr OR (SMMU_DESC_VALID OR SMMU_DESC_PAGE OR SMMU_DESC_AF OR SMMU_DESC_AP))"

definition smmu_make_block_desc :: "u64 \<Rightarrow> u64" where
  "smmu_make_block_desc phys_base =
     (let descr = push_bit 12 (drop_bit 12 (phys_base AND NOT 0xFFF))
      in descr OR (SMMU_DESC_VALID OR SMMU_DESC_AF))"

definition smmu_make_page_entry :: "u64 \<Rightarrow> u64" where
  "smmu_make_page_entry physical_base =
     (let descr = push_bit 12 (drop_bit 12 (physical_base AND NOT 0xFFF))
      in descr OR (SMMU_DESC_VALID OR SMMU_DESC_TABLE))"

definition smmu_set_table_entry :: "u64 \<Rightarrow> u64 \<Rightarrow> u64 \<Rightarrow> cells \<Rightarrow> cells" where
  "smmu_set_table_entry table idx descr m = m(cell table idx := descr)"

definition smmu_clear_table :: "u64 \<Rightarrow> cells \<Rightarrow> cells" where
  "smmu_clear_table table_phys_base m = clear_cells table_phys_base 512 m"

lemma smmu_indices [earlier]:
  "smmu_kernal_to_user_space = kernal_to_user_space" "smmu_calc_index_l0 = calc_index_l0"
  "smmu_calc_index_l1 = calc_index_l1" "smmu_calc_index_l2 = calc_index_l2"
  "smmu_calc_index_l3 = calc_index_l3" "SMMU_DESC_VALID = DESC_VALID" "SMMU_DESC_TABLE = DESC_TABLE"
  "SMMU_DESC_PAGE = DESC_PAGE" "SMMU_DESC_AF = DESC_AF" "SMMU_DESC_AP = DESC_AP"
  by (simp_all add: fun_eq_iff smmu_kernal_to_user_space_def kernal_to_user_space_def smmu_calc_index_l0_def
      calc_index_l0_def smmu_calc_index_l1_def calc_index_l1_def smmu_calc_index_l2_def calc_index_l2_def
      smmu_calc_index_l3_def calc_index_l3_def SMMU_DESC_VALID_def DESC_VALID_def SMMU_DESC_TABLE_def
      DESC_TABLE_def SMMU_DESC_PAGE_def DESC_PAGE_def SMMU_DESC_AF_def DESC_AF_def SMMU_DESC_AP_def
      DESC_AP_def)

lemma smmu_tables [earlier]:
  "smmu_make_table_desc = make_table_desc" "smmu_make_l3_block_desc = make_l3_block_desc"
  "smmu_make_block_desc = make_block_desc" "smmu_make_page_entry = make_page_entry"
  "smmu_set_table_entry = set_table_entry" "smmu_clear_table = clear_table"
  by (simp_all add: fun_eq_iff
      smmu_make_table_desc_def make_table_desc_def smmu_make_l3_block_desc_def make_l3_block_desc_def
      smmu_make_block_desc_def make_block_desc_def smmu_make_page_entry_def make_page_entry_def
      smmu_set_table_entry_def set_table_entry_def smmu_clear_table_def clear_table_def earlier)

section \<open>kernel-simple-mmu: mmu_init\<close>

text \<open>\<open>ttbr0\<close> is computed and passed to the assembly, which loads \<open>ttbr1\<close> into both bases.\<close>

definition smmu_mmu_init_regs :: "mmu_regs \<Rightarrow> mmu_regs" where
  "smmu_mmu_init_regs r =
    (let mair = push_bit 0 0x00 OR push_bit 8 0xFF;
         tcr = 0;
         tcr = tcr OR push_bit 0 16;
         tcr = tcr OR push_bit 16 16;
         tcr = tcr OR push_bit 14 0;
         tcr = tcr OR push_bit 30 2;
         tcr = tcr OR push_bit 12 3;
         tcr = tcr OR push_bit 28 3;
         tcr = tcr OR push_bit 10 1;
         tcr = tcr OR push_bit 8 1;
         tcr = tcr OR push_bit 26 1;
         tcr = tcr OR push_bit 24 1;
         tcr = tcr OR push_bit 32 5;
         ttbr1 = L0_BASE_PHYS;
         ttbr0 = SIMPLE_USER_PROCESS_1_TABLE_START;
         sctlr = SCTLR_EL1 r OR push_bit 0 1 OR push_bit 2 1 OR push_bit 12 1
     in r\<lparr>MAIR_EL1 := mair, TCR_EL1 := tcr, TTBR1_EL1 := ttbr1, TTBR0_EL1 := ttbr1,
          SCTLR_EL1 := sctlr\<rparr>)"

definition smmu_mmu_init :: "cells \<times> mmu_regs \<Rightarrow> cells \<times> mmu_regs" where
  "smmu_mmu_init s = (simple_mmu_init_tables (fst s), smmu_mmu_init_regs (snd s))"

lemma smmu_mmu_init_regs [earlier]: "smmu_mmu_init_regs = mmu_init_regs"
  by (simp add: fun_eq_iff smmu_mmu_init_regs_def mmu_init_regs_def Let_def)

section \<open>kernel-simple-mmu: the bitmap\<close>

definition smmu_check_free :: "AllocateMem \<Rightarrow> u64 \<Rightarrow> u8 \<Rightarrow> bool" where
  "smmu_check_free mem i b =
     (let temp = buffer mem i; v = push_bit (unat b) 1
      in if temp AND v \<noteq> 0 then False else True)"

definition smmu_deallocate_mem :: "AllocateMem \<Rightarrow> u64 \<Rightarrow> u8 \<Rightarrow> bool \<times> AllocateMem" where
  "smmu_deallocate_mem mem i b =
     (if smmu_check_free mem i b then (True, mem)
      else let v = push_bit (unat b) (0 :: u8);
               mem' = mem\<lparr>buffer := (buffer mem)(i := v)\<rparr>
           in (smmu_check_free mem' i b, mem'))"

function smmu_find_free_from :: "AllocateMem \<Rightarrow> u64 \<Rightarrow> u8 \<Rightarrow> BitIndex" where
  "smmu_find_free_from mem i b =
     (if i \<le> 16385 then
        (if smmu_check_free mem i b then \<lparr>bi_index = i, bi_bit = b, bi_valid = True\<rparr>
         else let b' = b + 1
              in if b' = 8 then smmu_find_free_from mem (i + 1) 0 else smmu_find_free_from mem i b')
      else \<lparr>bi_index = 0, bi_bit = 0, bi_valid = False\<rparr>)"
  by pat_completeness auto

termination
  by (relation "measures [\<lambda>(m, i, b). 16386 - unat i, \<lambda>(m, i, b). unat (7 - b)]")
    (auto simp: index_distance_decreases bit_distance_decreases)

definition smmu_find_free :: "AllocateMem \<Rightarrow> BitIndex" where
  "smmu_find_free mem = smmu_find_free_from mem 0 0"

definition smmu_mark_page :: "AllocateMem \<Rightarrow> BitIndex \<Rightarrow> AllocateMem" where
  "smmu_mark_page mem val =
     (let temp = buffer mem (bi_index val); v = push_bit (unat (bi_bit val)) 1
      in mem\<lparr>buffer := (buffer mem)(bi_index val := temp OR v)\<rparr>)"

fun smmu_set_bitmap_loop :: "nat \<Rightarrow> nat \<Rightarrow> AllocateMem \<Rightarrow> nat \<Rightarrow> BitIndex option list
    \<Rightarrow> mm_error + (AllocateMem \<times> nat \<times> BitIndex option list)" where
  "smmu_set_bitmap_loop 0 i mem t res = Inr (mem, t, res)"
| "smmu_set_bitmap_loop (Suc n) i mem t res =
     (let val = smmu_find_free mem
      in if bi_valid val then
           (if i < length res
            then smmu_set_bitmap_loop n (Suc i) (smmu_mark_page mem val) (Suc t) (res[i := Some val])
            else Inl ResOverflow)
         else smmu_set_bitmap_loop n (Suc i) mem t res)"

definition smmu_set_bitmap :: "AllocateMem \<Rightarrow> u64 \<Rightarrow> BitIndex option list
    \<Rightarrow> mm_error + (bool \<times> AllocateMem \<times> BitIndex option list)" where
  "smmu_set_bitmap mem sz res =
     (case smmu_set_bitmap_loop (unat sz) 0 mem 0 res of
        Inl e \<Rightarrow> Inl e
      | Inr (mem', t, res') \<Rightarrow> Inr (t = unat sz, mem', res'))"

definition smmu_allocate_mem :: "AllocateMem \<Rightarrow> u64 \<Rightarrow> BitIndex option list
    \<Rightarrow> mm_error + (u64 \<times> AllocateMem \<times> BitIndex option list)" where
  "smmu_allocate_mem mem sz res =
     (if sz < 4096 then
        (case smmu_set_bitmap mem 1 res of
           Inl e \<Rightarrow> Inl e
         | Inr (ok, mem', res') \<Rightarrow> Inr (if ok then 1 else 0, mem', res'))
      else
        (let val = sz div 4096; rem = sz mod 4096;
             val = (if val > 0 \<and> rem > 0 then val + 1 else val)
         in case smmu_set_bitmap mem val res of
              Inl e \<Rightarrow> Inl e
            | Inr (ok, mem', res') \<Rightarrow> Inr (if ok then val else 0, mem', res')))"

fun smmu_free_pages :: "AllocateMem \<Rightarrow> BitIndex list \<Rightarrow> AllocateMem" where
  "smmu_free_pages mem [] = mem"
| "smmu_free_pages mem (r # rs) = smmu_free_pages (snd (smmu_deallocate_mem mem (bi_index r) (bi_bit r))) rs"

definition SMMU_PHYS_BASE_ADDR :: u64 where "SMMU_PHYS_BASE_ADDR = 0xC0000000"
definition SMMU_PHYS_BASE_PAGE :: u64 where "SMMU_PHYS_BASE_PAGE = drop_bit 12 SMMU_PHYS_BASE_ADDR"

definition smmu_bitindex_to_phys :: "BitIndex \<Rightarrow> u64" where
  "smmu_bitindex_to_phys bi =
     (let bitmap_page = bi_index bi * 8 + ucast (bi_bit bi);
          phys_page = SMMU_PHYS_BASE_PAGE + bitmap_page
      in push_bit 12 phys_page)"

declare smmu_find_free_from.simps [simp del]

lemma smmu_check_free [earlier]: "smmu_check_free = check_free"
  by (simp add: fun_eq_iff smmu_check_free_def check_free_def)

lemma smmu_find_free [earlier]: "smmu_find_free_from = find_free_from" "smmu_find_free = find_free"
proof -
  show eq: "smmu_find_free_from = find_free_from"
  proof (intro ext)
    fix mem i b
    show "smmu_find_free_from mem i b = find_free_from mem i b"
      by (induction mem i b rule: find_free_from.induct)
        (subst smmu_find_free_from.simps, subst find_free_from.simps, simp add: earlier Let_def)
  qed
  show "smmu_find_free = find_free"
    by (simp add: fun_eq_iff smmu_find_free_def find_free_def eq)
qed

lemma smmu_mark_page [earlier]: "smmu_mark_page = mark_page"
  by (simp add: fun_eq_iff smmu_mark_page_def mark_page_def)

lemma smmu_deallocate_mem [earlier]: "smmu_deallocate_mem = deallocate_mem"
  by (simp add: fun_eq_iff smmu_deallocate_mem_def deallocate_mem_def earlier)

lemma smmu_set_bitmap_loop [earlier]: "smmu_set_bitmap_loop = set_bitmap_loop"
proof (intro ext)
  fix n i mem t res
  show "smmu_set_bitmap_loop n i mem t res = set_bitmap_loop n i mem t res"
    by (induction n i mem t res rule: set_bitmap_loop.induct) (simp_all add: earlier Let_def)
qed

lemma smmu_set_bitmap [earlier]: "smmu_set_bitmap = set_bitmap"
  by (simp add: fun_eq_iff smmu_set_bitmap_def set_bitmap_def earlier)

lemma smmu_allocate_mem [earlier]: "smmu_allocate_mem = allocate_mem"
  by (simp add: fun_eq_iff smmu_allocate_mem_def allocate_mem_def earlier)

lemma smmu_free_pages [earlier]: "smmu_free_pages = free_pages"
proof (intro ext)
  fix mem rs
  show "smmu_free_pages mem rs = free_pages mem rs"
    by (induction rs arbitrary: mem) (simp_all add: earlier)
qed

lemma smmu_bitindex_to_phys [earlier]: "SMMU_PHYS_BASE_ADDR = PHYS_BASE_ADDR" "SMMU_PHYS_BASE_PAGE = PHYS_BASE_PAGE" "smmu_bitindex_to_phys = bitindex_to_phys"
  by (simp_all add: fun_eq_iff SMMU_PHYS_BASE_ADDR_def PHYS_BASE_ADDR_def SMMU_PHYS_BASE_PAGE_def
      PHYS_BASE_PAGE_def smmu_bitindex_to_phys_def bitindex_to_phys_def)

section \<open>kernel-simple-mmu: kmain\<close>

definition smmu_mem_block :: "u64 \<Rightarrow> u64 \<Rightarrow> u64" where
  "smmu_mem_block block_memory_start sz =
     (let max_size = 524288 in if sz \<ge> max_size then 0 else block_memory_start)"

definition smmu_init_allocation_map :: "u64 \<Rightarrow> u64 \<Rightarrow> u64" where
  "smmu_init_allocation_map block_memory_start total_physical_ram =
    (let bitmap_size = total_physical_ram div 4096 div 8
     in smmu_mem_block block_memory_start bitmap_size)"

lemma smmu_init_allocation_map [earlier]: "smmu_mem_block = mem_block" "smmu_init_allocation_map = init_allocation_map"
  by (simp_all add: fun_eq_iff smmu_mem_block_def mem_block_def smmu_init_allocation_map_def init_allocation_map_def)

section \<open>The bitmap of the host program\<close>

definition host_check_free :: "AllocateMem \<Rightarrow> u64 \<Rightarrow> u8 \<Rightarrow> bool" where
  "host_check_free mem i b =
     (let temp = buffer mem i; v = push_bit (unat b) 1
      in if temp AND v \<noteq> 0 then False else True)"

definition host_deallocate_mem :: "AllocateMem \<Rightarrow> u64 \<Rightarrow> u8 \<Rightarrow> bool \<times> AllocateMem" where
  "host_deallocate_mem mem i b =
     (if host_check_free mem i b then (True, mem)
      else let v = push_bit (unat b) (0 :: u8);
               mem' = mem\<lparr>buffer := (buffer mem)(i := v)\<rparr>
           in (host_check_free mem' i b, mem'))"

function host_find_free_from :: "AllocateMem \<Rightarrow> u64 \<Rightarrow> u8 \<Rightarrow> BitIndex" where
  "host_find_free_from mem i b =
     (if i \<le> 16385 then
        (if host_check_free mem i b then \<lparr>bi_index = i, bi_bit = b, bi_valid = True\<rparr>
         else let b' = b + 1
              in if b' = 8 then host_find_free_from mem (i + 1) 0 else host_find_free_from mem i b')
      else \<lparr>bi_index = 0, bi_bit = 0, bi_valid = False\<rparr>)"
  by pat_completeness auto

termination
  by (relation "measures [\<lambda>(m, i, b). 16386 - unat i, \<lambda>(m, i, b). unat (7 - b)]")
    (auto simp: index_distance_decreases bit_distance_decreases)

definition host_find_free :: "AllocateMem \<Rightarrow> BitIndex" where
  "host_find_free mem = host_find_free_from mem 0 0"

definition host_mark_page :: "AllocateMem \<Rightarrow> BitIndex \<Rightarrow> AllocateMem" where
  "host_mark_page mem val =
     (let temp = buffer mem (bi_index val); v = push_bit (unat (bi_bit val)) 1
      in mem\<lparr>buffer := (buffer mem)(bi_index val := temp OR v)\<rparr>)"

fun host_set_bitmap_loop :: "nat \<Rightarrow> nat \<Rightarrow> AllocateMem \<Rightarrow> nat \<Rightarrow> BitIndex option list
    \<Rightarrow> mm_error + (AllocateMem \<times> nat \<times> BitIndex option list)" where
  "host_set_bitmap_loop 0 i mem t res = Inr (mem, t, res)"
| "host_set_bitmap_loop (Suc n) i mem t res =
     (let val = host_find_free mem
      in if bi_valid val then
           (if i < length res
            then host_set_bitmap_loop n (Suc i) (host_mark_page mem val) (Suc t) (res[i := Some val])
            else Inl ResOverflow)
         else host_set_bitmap_loop n (Suc i) mem t res)"

definition host_set_bitmap :: "AllocateMem \<Rightarrow> u64 \<Rightarrow> BitIndex option list
    \<Rightarrow> mm_error + (bool \<times> AllocateMem \<times> BitIndex option list)" where
  "host_set_bitmap mem sz res =
     (case host_set_bitmap_loop (unat sz) 0 mem 0 res of
        Inl e \<Rightarrow> Inl e
      | Inr (mem', t, res') \<Rightarrow> Inr (t = unat sz, mem', res'))"

definition host_allocate_mem :: "AllocateMem \<Rightarrow> u64 \<Rightarrow> BitIndex option list
    \<Rightarrow> mm_error + (u64 \<times> AllocateMem \<times> BitIndex option list)" where
  "host_allocate_mem mem sz res =
     (if sz < 4096 then
        (case host_set_bitmap mem 1 res of
           Inl e \<Rightarrow> Inl e
         | Inr (ok, mem', res') \<Rightarrow> Inr (if ok then 1 else 0, mem', res'))
      else
        (let val = sz div 4096; rem = sz mod 4096;
             val = (if val > 0 \<and> rem > 0 then val + 1 else val)
         in case host_set_bitmap mem val res of
              Inl e \<Rightarrow> Inl e
            | Inr (ok, mem', res') \<Rightarrow> Inr (if ok then val else 0, mem', res')))"

fun host_free_pages :: "AllocateMem \<Rightarrow> BitIndex list \<Rightarrow> AllocateMem" where
  "host_free_pages mem [] = mem"
| "host_free_pages mem (r # rs) = host_free_pages (snd (host_deallocate_mem mem (bi_index r) (bi_bit r))) rs"

declare host_find_free_from.simps [simp del]

lemma host_check_free [earlier]: "host_check_free = check_free"
  by (simp add: fun_eq_iff host_check_free_def check_free_def)

lemma host_find_free [earlier]: "host_find_free_from = find_free_from" "host_find_free = find_free"
proof -
  show eq: "host_find_free_from = find_free_from"
  proof (intro ext)
    fix mem i b
    show "host_find_free_from mem i b = find_free_from mem i b"
      by (induction mem i b rule: find_free_from.induct)
        (subst host_find_free_from.simps, subst find_free_from.simps, simp add: earlier Let_def)
  qed
  show "host_find_free = find_free"
    by (simp add: fun_eq_iff host_find_free_def find_free_def eq)
qed

lemma host_mark_page [earlier]: "host_mark_page = mark_page"
  by (simp add: fun_eq_iff host_mark_page_def mark_page_def)

lemma host_deallocate_mem [earlier]: "host_deallocate_mem = deallocate_mem"
  by (simp add: fun_eq_iff host_deallocate_mem_def deallocate_mem_def earlier)

lemma host_set_bitmap_loop [earlier]: "host_set_bitmap_loop = set_bitmap_loop"
proof (intro ext)
  fix n i mem t res
  show "host_set_bitmap_loop n i mem t res = set_bitmap_loop n i mem t res"
    by (induction n i mem t res rule: set_bitmap_loop.induct) (simp_all add: earlier Let_def)
qed

lemma host_set_bitmap [earlier]: "host_set_bitmap = set_bitmap"
  by (simp add: fun_eq_iff host_set_bitmap_def set_bitmap_def earlier)

lemma host_allocate_mem [earlier]: "host_allocate_mem = allocate_mem"
  by (simp add: fun_eq_iff host_allocate_mem_def allocate_mem_def earlier)

lemma host_free_pages [earlier]: "host_free_pages = free_pages"
proof (intro ext)
  fix mem rs
  show "host_free_pages mem rs = free_pages mem rs"
    by (induction rs arbitrary: mem) (simp_all add: earlier)
qed

end
