(* ===== verification/LogSimple.thy ===== *)
theory LogSimple
  imports LogSched EarlierDrivers
begin

text \<open>
  The scheduler and \<open>kmain\<close> of \<^verbatim>\<open>kernel-simple-scheduler\<close> with their output: the operations of \<open>SimpleSched\<close> and
  the strings they print between their steps, through the serial driver of that kernel at its physical
  address.  The code is written with the combinators of \<open>SerialLog\<close>.
\<close>

section \<open>The messages of kmain\<close>

datatype boot_message = Kernel_starting | Timer_ready | Tasks_created | Enable_irqs | Enter_first

primrec boot_literal :: "boot_message \<Rightarrow> string" where
  "boot_literal Kernel_starting = [CHR 0x0D, CHR 0x0A] @ ''EL1: Kernel Starting'' @ nl"
| "boot_literal Timer_ready = ''EL1: GIC+Timer ready'' @ nl"
| "boot_literal Tasks_created = ''EL1: Tasks created'' @ nl"
| "boot_literal Enable_irqs = ''EL1: enable IRQs'' @ nl"
| "boot_literal Enter_first = ''EL1: enter first user task (EL0)'' @ nl"

record simple_printer = printer +
  boot_address_of :: "boot_message \<Rightarrow> u64"

definition slog_puts :: "'a printer_scheme \<Rightarrow> u64 \<Rightarrow> bus \<Rightarrow> bus option" where
  "slog_puts p a = ssched_uart_puts (port p) (strings p) a"

definition slog_name :: "'a printer_scheme \<Rightarrow> message \<Rightarrow> u64 \<Rightarrow> message \<Rightarrow> unit printing" where
  "slog_name p before name after =
    and_then (print (slog_puts p (address_of p before))) (\<lambda>_.
    and_then (print (slog_puts p name)) (\<lambda>_. print (slog_puts p (address_of p after))))"

section \<open>sched.c\<close>

definition slog_rq_push :: "'a printer_scheme \<Rightarrow> u64 \<Rightarrow> 'b sched_state_scheme \<Rightarrow> 'b sched_state_scheme printing" where
  "slog_rq_push p t s =
    (if rq_tail s = 0 then
       let s = s\<lparr>rq_head := t, rq_tail := t\<rparr> in
       and_then (slog_name p Push_empty (task_name (tasks s t)) Push_empty_end) (\<lambda>_. ret s)
     else
       and_then (slog_name p Push_tail (task_name (tasks s t)) Push_tail_end) (\<lambda>_.
       let s = upd_task (rq_tail s) (next_task_update (\<lambda>_. t)) s in
       ret (s\<lparr>rq_tail := t\<rparr>)))"

definition slog_rq_pop :: "'a printer_scheme \<Rightarrow> 'b sched_state_scheme \<Rightarrow> (u64 \<times> 'b sched_state_scheme) printing" where
  "slog_rq_pop p s =
    (let t = rq_head s in
     if t = 0 then ret (0, s)
     else
       let s = s\<lparr>rq_head := next_task (tasks s t)\<rparr> in
       and_then (if rq_head s \<noteq> 0 then slog_name p Pop_next (task_name (tasks s (rq_head s))) Pop_next_end else ret ()) (\<lambda>_.
       let s = (if rq_head s = 0 then s\<lparr>rq_tail := 0\<rparr> else s);
           s = upd_task t (next_task_update (\<lambda>_. 0)) s;
           b = rq_head s
       in ret (b, s)))"

definition slog_sched_ready_enqueue :: "'a printer_scheme \<Rightarrow> u64 \<Rightarrow> 'b sched_state_scheme \<Rightarrow> 'b sched_state_scheme printing" where
  "slog_sched_ready_enqueue p t s =
    (let s = upd_task t (task_state_update (\<lambda>_. READY)) s;
         s = upd_task t (slice_left_update (\<lambda>_. SIMPLE_RR_SLICE_TICKS)) s
     in and_then (slog_name p Enqueue (task_name (tasks s t)) Enqueue_end) (\<lambda>_. slog_rq_push p t s))"

definition ssched_sched_set_current :: "u64 \<Rightarrow> 'a sched_state_scheme \<Rightarrow> 'a sched_state_scheme" where
  "ssched_sched_set_current t s =
    (let s = s\<lparr>current := t\<rparr> in upd_task (current s) (task_state_update (\<lambda>_. RUNNING)) s)"

text \<open>\<open>schedule_on_tick\<close> from the call of \<open>rq_pop\<close> on, and as a whole.\<close>

definition slog_schedule_next :: "'a printer_scheme \<Rightarrow> u32 \<Rightarrow> u64 \<Rightarrow> 'b sched_state_scheme \<Rightarrow> (u64 \<times> 'b sched_state_scheme) printing" where
  "slog_schedule_next p iar tf s =
    and_then (slog_rq_pop p s) (\<lambda>(next, s).
    if next = 0 then
      (if current s \<noteq> 0 then
         let s = simple_set_cntv s; s = simple_gic_eoi iar s in ret (task_context (tasks s (current s)), s)
       else
         let s = simple_set_cntv s; s = simple_gic_eoi iar s in ret (tf, s))
    else
      let s = upd_task next (task_state_update (\<lambda>_. RUNNING)) s;
          s = s\<lparr>current := next\<rparr>
      in and_then (slog_name p Set_running (task_name (tasks s (current s))) Set_running_end) (\<lambda>_.
         let s = simple_set_cntv s;
             s = simple_gic_eoi iar s
         in ret (task_context (tasks s (current s)), s)))"

definition slog_schedule_on_tick :: "device \<Rightarrow> 'a printer_scheme \<Rightarrow> u64 \<Rightarrow> 'b sched_state_scheme \<Rightarrow> (u64 \<times> 'b sched_state_scheme) printing" where
  "slog_schedule_on_tick dev p tf s =
    (let (iar, s) = simple_gic_ack dev s in
     if current s \<noteq> 0 \<and> task_state (tasks s (current s)) = RUNNING then
       let s = upd_task (current s) (task_context_update (\<lambda>_. tf)) s;
           s = upd_task (current s) (slice_left_update (\<lambda>n. n - 1)) s
       in if slice_left (tasks s (current s)) > 0 then
            let s = simple_set_cntv s; s = simple_gic_eoi iar s in ret (task_context (tasks s (current s)), s)
          else
            let s = upd_task (current s) (slice_left_update (\<lambda>_. SIMPLE_RR_SLICE_TICKS)) s;
                s = upd_task (current s) (task_state_update (\<lambda>_. READY)) s
            in and_then (slog_name p Tick_done (task_name (tasks s (current s))) Tick_done_end) (\<lambda>_.
               and_then (slog_rq_push p (current s) s) (\<lambda>s. slog_schedule_next p iar tf s))
     else slog_schedule_next p iar tf s)"

section \<open>kmain.c\<close>

definition slog_task_init :: "'a printer_scheme \<Rightarrow> u64 \<Rightarrow> int \<Rightarrow> u64 \<Rightarrow> u64 \<Rightarrow> u64 \<Rightarrow> u64 \<Rightarrow> u64 \<Rightarrow> simple_kernel \<Rightarrow> simple_kernel printing" where
  "slog_task_init p t tid name entry kstk_base ustk_base sz s =
    (let sc = upd_task t (\<lambda>t. t\<lparr>task_id := tid, task_name := name, kernel_stack := kstk_base, user_stack := ustk_base\<rparr>) (simple_sch s);
         ktop = kstk_base + sz;
         ctx = ktop - sizeof_SimpleContext;
         c = simple_build_initial_context entry (ustk_base + sz) (simple_contexts s ctx);
         sc = upd_task t (task_context_update (\<lambda>_. ctx)) sc
     in and_then (slog_sched_ready_enqueue p t sc) (\<lambda>sc.
        ret (s\<lparr>simple_contexts := (simple_contexts s)(ctx := c), simple_sch := sc\<rparr>)))"

definition slog_boot :: "simple_printer \<Rightarrow> boot_message \<Rightarrow> unit printing" where
  "slog_boot p m = print (slog_puts p (boot_address_of p m))"

definition slog_kmain :: "simple_printer \<Rightarrow> simple_image \<Rightarrow> simple_kernel \<Rightarrow> (u64 \<times> simple_kernel) printing" where
  "slog_kmain p im s =
    and_then (print (\<lambda>c. Some (ssched_uart_init (port p) c))) (\<lambda>_.
    and_then (slog_boot p Kernel_starting) (\<lambda>_.
    let s = s\<lparr>simple_sch := simple_gic_init (simple_sch s)\<rparr>;
        s = s\<lparr>simple_sch := simple_timer_init_1khz (simple_sch s)\<rparr> in
    and_then (slog_boot p Timer_ready) (\<lambda>_.
    and_then (slog_task_init p (T0 im) 0 (name_A im) (user_loop im) (kstack0 im) (ustack0 im) STK_SZ s) (\<lambda>s.
    and_then (slog_task_init p (T1 im) 1 (name_B im) (user_loop2 im) (kstack1 im) (ustack1 im) STK_SZ s) (\<lambda>s.
    and_then (slog_boot p Tasks_created) (\<lambda>_.
    let s = s\<lparr>simple_sch := ssched_sched_set_current (T0 im) (simple_sch s)\<rparr> in
    and_then (slog_boot p Enable_irqs) (\<lambda>_.
    and_then (slog_boot p Enter_first) (\<lambda>_.
    ret (task_context (tasks (simple_sch s) (T0 im)), s)))))))))"

section \<open>The output does not disturb the scheduler\<close>

lemma ssched_sched_set_current [earlier]: "ssched_sched_set_current = sched_set_current"
  by (simp add: fun_eq_iff ssched_sched_set_current_def sched_set_current_def)

lemma yields_unit [yields_rules]: "yields f ()"
  by (simp add: yields_def)

lemma yields_after_unit [yields_rules]: "yields (g ()) y \<Longrightarrow> yields (and_then f g) y"
  by (rule yields_and_then [OF yields_unit])

lemma slog_rq_push_yields: "yields (slog_rq_push p t s) (rq_push t s)"
  by (auto simp: slog_rq_push_def rq_push_def Let_def intro!: yields_rules)

lemma slog_rq_pop_yields: "yields (slog_rq_pop p s) (rq_pop s)"
  by (auto simp: slog_rq_pop_def rq_pop_def Let_def intro!: yields_rules)

lemma slog_sched_ready_enqueue_yields: "yields (slog_sched_ready_enqueue p t s) (simple_sched_ready_enqueue t s)"
  unfolding slog_sched_ready_enqueue_def simple_sched_ready_enqueue_def Let_def
  by (rule yields_after_unit [OF slog_rq_push_yields])

lemma slog_schedule_next_yields: "yields (slog_schedule_next p iar tf s) (simple_schedule_next iar tf s)"
  unfolding slog_schedule_next_def
  by (rule yields_and_then [OF slog_rq_pop_yields])
    (auto simp: simple_schedule_next_def split_beta Let_def intro!: yields_rules)

lemma slog_schedule_on_tick_yields: "yields (slog_schedule_on_tick dev p tf s) (simple_schedule_on_tick dev tf s)"
  unfolding slog_schedule_on_tick_def simple_schedule_on_tick_def Let_def split_beta
  by (auto intro!: yields_rules slog_schedule_next_yields yields_and_then [OF slog_rq_push_yields])

lemma slog_task_init_yields:
  "yields (slog_task_init p t tid name entry kstk ustk sz s) (task_init t tid name entry kstk ustk sz s)"
proof -
  have "upd_task t (task_context_update (\<lambda>_. ctx)) (upd_task t (\<lambda>t. t\<lparr>task_id := tid, task_name := name,
      kernel_stack := kstk, user_stack := ustk\<rparr>) sc) =
    upd_task t (\<lambda>t. t\<lparr>task_id := tid, task_name := name, kernel_stack := kstk, user_stack := ustk, task_context := ctx\<rparr>) sc"
    for ctx and sc :: sched_state
    by (simp add: upd_task_def)
  then show ?thesis
    unfolding slog_task_init_def task_init_def Let_def
    by (auto intro!: yields_and_then [OF slog_sched_ready_enqueue_yields] yields_rules)
qed

lemma slog_kmain_yields: "yields (slog_kmain p im s) (simple_kmain im s)"
  unfolding slog_kmain_def simple_kmain_def Let_def earlier
  by (intro yields_after_unit yields_and_then [OF slog_task_init_yields] yields_ret refl)

section \<open>The output on a working serial port\<close>

text \<open>What went out of the port at its physical address, and a port that becomes ready in the end.\<close>

definition phys_out :: "bus \<Rightarrow> u8 list" where
  "phys_out h = data_out (relocate h)"

definition phys_live :: "device \<Rightarrow> bool" where
  "phys_live d \<longleftrightarrow> (\<exists>dev. d = phys_device dev \<and> uart_live dev)"

definition simple_printer_ok :: "'a printer_scheme \<Rightarrow> bool" where
  "simple_printer_ok p \<longleftrightarrow> phys_live (port p) \<and> (\<forall>m. cstring (strings p) (address_of p m) (bytes_of (literal m)))"

lemma slog_puts_live:
  assumes "phys_live (port p)" and "cstring (strings p) a n"
  shows "\<exists>c'. slog_puts p a c = Some c' \<and> phys_out c' = phys_out c @ n"
proof -
  obtain dev where dev: "port p = phys_device dev" "uart_live dev" using assms(1) by (auto simp: phys_live_def)
  show ?thesis
    using minimal_kernel_prints [OF dev(2) assms(2), of c] by (simp add: slog_puts_def earlier dev(1) phys_out_def kernel_s_print_eq)
qed

interpretation simple_log: message_log slog_puts phys_out "\<lambda>p a n. phys_live (port p) \<and> cstring (strings p) a n"
    address_of "\<lambda>m. bytes_of (literal m)" simple_printer_ok
  by unfold_locales (auto intro: slog_puts_live simp: simple_printer_ok_def simp del: literal.simps)

lemma slog_name_writes:
  assumes "simple_printer_ok p" and "cstring (strings p) a n"
  shows "writes phys_out (slog_name p before a after) () (name_line before n after)"
  unfolding slog_name_def name_line_def
  by (rule simple_log.writes_line) (use assms in \<open>simp_all add: simple_printer_ok_def\<close>)

lemma slog_rq_push_writes:
  assumes "simple_printer_ok p" and "cstring (strings p) (task_name (tasks s t)) n"
  shows "writes phys_out (slog_rq_push p t s) (rq_push t s)
    (if rq_tail s = 0 then name_line Push_empty n Push_empty_end else name_line Push_tail n Push_tail_end)"
  using assms by (simp add: slog_rq_push_def rq_push_def Let_def writes_then_ret [OF slog_name_writes])

lemma slog_rq_pop_writes:
  assumes "simple_printer_ok p" and "fst (rq_pop s) \<noteq> 0" and "cstring (strings p) (task_name (tasks s (fst (rq_pop s)))) n"
  shows "writes phys_out (slog_rq_pop p s) (rq_pop s) (name_line Pop_next n Pop_next_end)"
proof -
  have h: "rq_head s \<noteq> 0" "fst (rq_pop s) = next_task (tasks s (rq_head s))"
    using assms(2) by (auto simp: rq_pop_def Let_def split: if_splits)
  show ?thesis
    using assms h by (simp add: slog_rq_pop_def rq_pop_def Let_def writes_then_ret [OF slog_name_writes])
qed

lemma simple_device_names [simp]:
  "tasks (simple_set_cntv s) = tasks s" "tasks (simple_gic_eoi iar s) = tasks s" "tasks (snd (simple_gic_ack dev s)) = tasks s"
  "tasks (simple_gic_init s) = tasks s" "tasks (simple_timer_init_1khz s) = tasks s"
  "current (simple_set_cntv s) = current s" "current (simple_gic_eoi iar s) = current s"
  by (simp_all add: simple_set_cntv_def msr_cntv_tval_def simple_gic_eoi_def w32_def simple_gic_ack_def r32_def split_beta
      simple_gic_init_def simple_timer_init_1khz_def enable_cntv_def read_cntfrq_def Let_def)

lemma slog_schedule_next_writes:
  assumes "simple_printer_ok p" and "fst (rq_pop s) \<noteq> 0" and "cstring (strings p) (task_name (tasks s (fst (rq_pop s)))) n"
  shows "writes phys_out (slog_schedule_next p iar tf s) (simple_schedule_next iar tf s)
    (name_line Pop_next n Pop_next_end @ name_line Set_running n Set_running_end)"
  unfolding slog_schedule_next_def
proof (rule writes_and_then [OF slog_rq_pop_writes [OF assms]])
  let ?s = "upd_task (fst (rq_pop s)) (task_state_update (\<lambda>_. RUNNING)) (snd (rq_pop s))\<lparr>current := fst (rq_pop s)\<rparr>"
  have n: "cstring (strings p) (task_name (tasks ?s (current ?s))) n" using assms(3) by simp
  show "writes phys_out (case rq_pop s of (next, s) \<Rightarrow>
      if next = 0 then
        (if current s \<noteq> 0 then
           let s = simple_set_cntv s; s = simple_gic_eoi iar s in ret (task_context (tasks s (current s)), s)
         else let s = simple_set_cntv s; s = simple_gic_eoi iar s in ret (tf, s))
      else
        let s = upd_task next (task_state_update (\<lambda>_. RUNNING)) s; s = s\<lparr>current := next\<rparr>
        in and_then (slog_name p Set_running (task_name (tasks s (current s))) Set_running_end) (\<lambda>_.
           let s = simple_set_cntv s; s = simple_gic_eoi iar s in ret (task_context (tasks s (current s)), s)))
    (simple_schedule_next iar tf s) (name_line Set_running n Set_running_end)"
    using assms(1,2) n by (simp add: simple_schedule_next_def split_beta Let_def writes_then_ret [OF slog_name_writes])
qed

text \<open>What a switch prints, and what \<open>n\<close> interrupts print from a slice with \<open>k\<close> ticks left.\<close>

definition simple_switch_log :: "u8 list \<Rightarrow> u8 list \<Rightarrow> u8 list" where
  "simple_switch_log a b = name_line Tick_done a Tick_done_end @ name_line Push_tail a Push_tail_end @
     name_line Pop_next b Pop_next_end @ name_line Set_running b Set_running_end"

fun slog_ticks :: "device \<Rightarrow> 'a printer_scheme \<Rightarrow> u64 list \<Rightarrow> 'b sched_state_scheme \<Rightarrow> 'b sched_state_scheme printing" where
  "slog_ticks dev p [] s = ret s"
| "slog_ticks dev p (tf # tfs) s = and_then (slog_schedule_on_tick dev p tf s) (\<lambda>(_, s). slog_ticks dev p tfs s)"

fun tick_log :: "(u64 \<Rightarrow> u8 list) \<Rightarrow> u64 list \<Rightarrow> nat \<Rightarrow> nat \<Rightarrow> u8 list" where
  "tick_log name xs k 0 = []"
| "tick_log name xs k (Suc n) =
    (if 1 < k then tick_log name xs (k - 1) n
     else simple_switch_log (name (hd xs)) (name (hd (rotate1 xs))) @ tick_log name (rotate1 xs) 10000 n)"

lemma slog_schedule_on_tick_writes:
  assumes "simple_inv s xs k" and "simple_printer_ok p" and "\<forall>t \<in> set xs. cstring (strings p) (task_name (tasks s t)) (name t)"
  shows "writes phys_out (slog_schedule_on_tick dev p tf s) (simple_schedule_on_tick dev tf s)
    (if 1 < k then [] else simple_switch_log (name (hd xs)) (name (hd (rotate1 xs))))"
proof -
  define a where "a = snd (simple_gic_ack dev s)"
  define iar where "iar = fst (simple_gic_ack dev s)"
  have ack: "simple_gic_ack dev s = (iar, a)" by (simp add: a_def iar_def)
  have same: "tasks a = tasks s" "current a = current s" "rq_rep a xs"
    using assms(1) by (simp_all add: a_def simple_gic_ack_def r32_def split_beta simple_inv_def rq_rep_def next_of_def [abs_def])
  obtain x ys where xs: "xs = x # ys" using assms(1) by (cases xs) (auto simp: simple_inv_def)
  have cur: "current a = x" "task_state (tasks a x) = RUNNING" "slice_left (tasks a x) = int k" "1 \<le> k"
    using assms(1) xs by (simp_all add: simple_inv_def same)
  have nz: "x \<noteq> 0" using rq_rep_nonnull [OF same(3)] xs by auto
  show ?thesis
  proof (cases "1 < k")
    case True
    then show ?thesis
      using cur nz by (simp add: slog_schedule_on_tick_def simple_schedule_on_tick_def ack Let_def writes_ret)
  next
    case False
    define r where "r = upd_task x (task_state_update (\<lambda>_. READY)) (upd_task x (slice_left_update (\<lambda>_. SIMPLE_RR_SLICE_TICKS))
      (upd_task x (slice_left_update (\<lambda>n. n - 1)) (upd_task x (task_context_update (\<lambda>_. tf)) a)))"
    let ?b = "hd (rotate1 xs)"
    have rep: "rq_rep r (x # ys)" using same(3) xs by (simp add: r_def rq_rep_upd_task)
    have in_ring: "?b \<in> set xs" "x \<in> set xs" using xs by (cases ys; simp)+
    have tail: "rq_tail r \<noteq> 0"
      using rep rq_rep_nonnull [OF rep] last_in_set [of "x # ys"] by (force simp: rq_rep_def)
    have nx: "fst (rq_pop (rq_push x r)) = ?b" using rq_rotate_rep(1) [OF rep] xs by simp
    have names: "cstring (strings p) (task_name (tasks r t)) (name t)" if "t \<in> set xs" for t
      using assms(3) that by (auto simp: r_def same)
    have nb: "fst (rq_pop (rq_push x r)) \<noteq> 0" using rq_rep_nonnull [OF rep] xs nx in_ring(1) by force
    have "cstring (strings p) (task_name (tasks (rq_push x r) (fst (rq_pop (rq_push x r))))) (name ?b)"
      using names [OF in_ring(1)] nx by simp
    note pop = slog_schedule_next_writes [OF assms(2) nb this, of iar tf]
    have push: "writes phys_out (slog_rq_push p x r) (rq_push x r) (name_line Push_tail (name x) Push_tail_end)"
      using slog_rq_push_writes [OF assms(2) names [OF in_ring(2)]] tail by simp
    have "writes phys_out (and_then (slog_rq_push p x r) (\<lambda>s. slog_schedule_next p iar tf s))
        (simple_schedule_next iar tf (rq_push x r)) (name_line Push_tail (name x) Push_tail_end @
          name_line Pop_next (name ?b) Pop_next_end @ name_line Set_running (name ?b) Set_running_end)"
      by (rule writes_and_then [where g = "slog_schedule_next p iar tf", OF push pop])
    from writes_and_then [where g = "\<lambda>_. and_then (slog_rq_push p x r) (\<lambda>s. slog_schedule_next p iar tf s)",
        OF slog_name_writes [OF assms(2) names [OF in_ring(2)], of Tick_done Tick_done_end] this]
    have out: "writes phys_out (and_then (slog_name p Tick_done (task_name (tasks r x)) Tick_done_end)
          (\<lambda>_. and_then (slog_rq_push p x r) (\<lambda>s. slog_schedule_next p iar tf s)))
        (simple_schedule_next iar tf (rq_push x r)) (simple_switch_log (name x) (name ?b))"
      by (simp add: simple_switch_log_def)
    have k: "\<not> 0 < int k - 1" using False by simp
    have "slog_schedule_on_tick dev p tf s =
        and_then (slog_name p Tick_done (task_name (tasks r x)) Tick_done_end)
          (\<lambda>_. and_then (slog_rq_push p x r) (\<lambda>s. slog_schedule_next p iar tf s))"
      using cur nz k by (simp add: slog_schedule_on_tick_def ack Let_def) (simp add: r_def)
    moreover have "simple_schedule_on_tick dev tf s = simple_schedule_next iar tf (rq_push x r)"
      using cur nz k by (simp add: simple_schedule_on_tick_def ack Let_def) (simp add: r_def)
    ultimately show ?thesis using out False xs by simp
  qed
qed

lemma tick_names: "task_name (tasks (snd (simple_schedule_on_tick dev tf s)) t) = task_name (tasks s t)"
proof -
  have "task_name (tasks (snd (simple_schedule_next iar tf s)) t) = task_name (tasks s t)"
    for iar and s :: "'a sched_state_scheme"
    by (simp add: simple_schedule_next_def split_beta Let_def)
  then show ?thesis
    by (simp add: simple_schedule_on_tick_def split_beta Let_def)
qed

lemma slog_ticks_writes:
  assumes "simple_inv s xs k" and "simple_printer_ok p" and "\<forall>t \<in> set xs. cstring (strings p) (task_name (tasks s t)) (name t)"
  shows "writes phys_out (slog_ticks dev p tfs s) (fold (\<lambda>tf s. snd (simple_schedule_on_tick dev tf s)) tfs s)
    (tick_log name xs k (length tfs))"
  using assms
proof (induction tfs arbitrary: s xs k)
  case Nil
  then show ?case by (simp add: writes_ret)
next
  case (Cons tf tfs)
  let ?xs = "if 1 < k then xs else rotate1 xs" and ?k = "if 1 < k then k - 1 else 10000"
  have "\<forall>t \<in> set ?xs. cstring (strings p) (task_name (tasks (snd (simple_schedule_on_tick dev tf s)) t)) (name t)"
    using Cons.prems(3) by (simp add: tick_names)
  from Cons.IH [OF simple_tick_inv(1) [OF Cons.prems(1)] Cons.prems(2) this]
  have "writes phys_out (slog_ticks dev p tfs (snd (simple_schedule_on_tick dev tf s)))
      (fold (\<lambda>tf s. snd (simple_schedule_on_tick dev tf s)) (tf # tfs) s) (tick_log name ?xs ?k (length tfs))" by simp
  moreover have "slog_ticks dev p (tf # tfs) s = and_then (slog_schedule_on_tick dev p tf s) (\<lambda>x. slog_ticks dev p tfs (snd x))"
    by (simp add: split_beta')
  moreover have "tick_log name xs k (length (tf # tfs)) =
      (if 1 < k then [] else simple_switch_log (name (hd xs)) (name (hd (rotate1 xs)))) @ tick_log name ?xs ?k (length tfs)"
    by simp
  ultimately show ?case
    using writes_and_then [OF slog_schedule_on_tick_writes [OF Cons.prems, of dev tf],
        of "\<lambda>x. slog_ticks dev p tfs (snd x)"] by metis
qed

text \<open>With two tasks, and a full slice at the beginning, the switches alternate.\<close>

lemma tick_log_slice: "n < k \<Longrightarrow> tick_log name xs k n = []"
  by (induction n arbitrary: k) auto

lemma tick_log_switch:
  "1 \<le> k \<Longrightarrow> k \<le> n \<Longrightarrow> tick_log name xs k n =
     simple_switch_log (name (hd xs)) (name (hd (rotate1 xs))) @ tick_log name (rotate1 xs) 10000 (n - k)"
proof (induction n arbitrary: k)
  case (Suc n)
  then show ?case by (cases "1 < k") auto
qed simp

lemma tick_log_two:
  "tick_log name [a, b] 10000 n =
     concat (map (\<lambda>i. if even i then simple_switch_log (name a) (name b) else simple_switch_log (name b) (name a)) [0..<n div 10000])"
proof (induction n arbitrary: a b rule: less_induct)
  case (less n)
  show ?case
  proof (cases "n < 10000")
    case True
    then show ?thesis by (simp add: tick_log_slice)
  next
    case False
    then have d: "n div 10000 = Suc ((n - 10000) div 10000)" by (simp add: le_div_geq)
    have "tick_log name [a, b] 10000 n = simple_switch_log (name a) (name b) @ tick_log name [b, a] 10000 (n - 10000)"
      using tick_log_switch [of 10000 n name "[a, b]"] False by simp
    also have "\<dots> = simple_switch_log (name a) (name b) @
        concat (map (\<lambda>i. if even i then simple_switch_log (name b) (name a) else simple_switch_log (name a) (name b)) [0..<(n - 10000) div 10000])"
      using less.IH [of "n - 10000" b a] False by simp
    also have "\<dots> = concat (map (\<lambda>i. if even i then simple_switch_log (name a) (name b) else simple_switch_log (name b) (name a))
        [0..<n div 10000])"
    proof -
      have "[0..<Suc m] = 0 # map Suc [0..<m]" for m by (simp add: upt_conv_Cons map_Suc_upt del: upt_Suc)
      then show ?thesis by (simp add: d o_def del: upt_Suc) (rule arg_cong [where f = concat], rule map_cong, simp_all)
    qed
    finally show ?thesis .
  qed
qed

section \<open>Boot on a working serial port\<close>

definition boot_printer_ok :: "simple_printer \<Rightarrow> bool" where
  "boot_printer_ok p \<longleftrightarrow>
     simple_printer_ok p \<and> (\<forall>m. cstring (strings p) (boot_address_of p m) (bytes_of (boot_literal m)))"

text \<open>What \<open>kmain\<close> prints for two tasks of these names.\<close>

definition boot_log :: "u8 list \<Rightarrow> u8 list \<Rightarrow> u8 list" where
  "boot_log a b = bytes_of (boot_literal Kernel_starting) @ bytes_of (boot_literal Timer_ready) @
     name_line Enqueue a Enqueue_end @ name_line Push_empty a Push_empty_end @
     name_line Enqueue b Enqueue_end @ name_line Push_tail b Push_tail_end @
     bytes_of (boot_literal Tasks_created) @ bytes_of (boot_literal Enable_irqs) @ bytes_of (boot_literal Enter_first)"

lemma writes_value: "writes out f x n \<Longrightarrow> yields f y \<Longrightarrow> writes out f y n"
  unfolding writes_def yields_def by metis

lemma writes_then_map: "writes out f x n \<Longrightarrow> writes out (and_then f (\<lambda>x. ret (h x))) (h x) n"
  using writes_and_then [of out f x n "\<lambda>x. ret (h x)" "h x" "[]"] writes_ret [of out "h x"] by simp

interpretation kmain_log: message_log slog_puts phys_out "\<lambda>p a n. phys_live (port p) \<and> cstring (strings p) a n"
    boot_address_of "\<lambda>m. bytes_of (boot_literal m)" boot_printer_ok
  by unfold_locales (simp add: boot_printer_ok_def simple_printer_ok_def)

lemma slog_boot_writes: "boot_printer_ok p \<Longrightarrow> writes phys_out (slog_boot p m) () (bytes_of (boot_literal m))"
  unfolding slog_boot_def by (rule kmain_log.writes_message)

lemma slog_init_writes:
  assumes "phys_live (port p)"
  shows "writes phys_out (print (\<lambda>c. Some (ssched_uart_init (port p) c))) () []"
proof -
  obtain dev where dev: "port p = phys_device dev" using assms by (auto simp: phys_live_def)
  have "relocate (ssched_uart_init (port p) c) = uart_init dev (relocate c)" for c
    using phys_uart_equivalent [of dev _ _ c] by (simp add: earlier dev)
  moreover have "data_out (uart_init dev h) = data_out h" for h
    by (simp add: uart_init_def Let_def mmio_w32_def mmio_r32_def data_out_def bus_simps DR_def CR_def ICR_def IBRD_def
        FBRD_def LCRH_def IMSC_def FR_def UART_def)
  ultimately show ?thesis by (simp add: writes_def print_def phys_out_def)
qed

lemma slog_sched_ready_enqueue_writes:
  assumes "simple_printer_ok p" and "cstring (strings p) (task_name (tasks s t)) n"
  shows "writes phys_out (slog_sched_ready_enqueue p t s) (simple_sched_ready_enqueue t s) (name_line Enqueue n Enqueue_end @
    (if rq_tail s = 0 then name_line Push_empty n Push_empty_end else name_line Push_tail n Push_tail_end))"
proof -
  let ?s = "upd_task t (slice_left_update (\<lambda>_. SIMPLE_RR_SLICE_TICKS)) (upd_task t (task_state_update (\<lambda>_. READY)) s)"
  have n: "cstring (strings p) (task_name (tasks ?s t)) n" using assms(2) by simp
  show ?thesis
    unfolding slog_sched_ready_enqueue_def simple_sched_ready_enqueue_def Let_def
    using writes_and_then [where g = "\<lambda>_. slog_rq_push p t ?s", OF slog_name_writes [OF assms(1) n] slog_rq_push_writes [OF assms(1) n]]
    by simp
qed

lemma slog_task_init_writes:
  assumes "simple_printer_ok p" and "cstring (strings p) name n"
  shows "writes phys_out (slog_task_init p t tid name entry kstk ustk sz s) (task_init t tid name entry kstk ustk sz s)
    (name_line Enqueue n Enqueue_end @
      (if rq_tail (simple_sch s) = 0 then name_line Push_empty n Push_empty_end else name_line Push_tail n Push_tail_end))"
proof (rule writes_value [OF _ slog_task_init_yields])
  let ?sc = "upd_task t (task_context_update (\<lambda>_. kstk + sz - sizeof_SimpleContext)) (upd_task t (\<lambda>t. t\<lparr>task_id := tid, task_name := name,
      kernel_stack := kstk, user_stack := ustk\<rparr>) (simple_sch s))"
  have n: "cstring (strings p) (task_name (tasks ?sc t)) n" using assms(2) by simp
  have tail: "rq_tail ?sc = rq_tail (simple_sch s)" by simp
  show "writes phys_out (slog_task_init p t tid name entry kstk ustk sz s)
     (s\<lparr>simple_contexts := (simple_contexts s)(kstk + sz - sizeof_SimpleContext :=
          simple_build_initial_context entry (ustk + sz) (simple_contexts s (kstk + sz - sizeof_SimpleContext))),
        simple_sch := simple_sched_ready_enqueue t ?sc\<rparr>)
     (name_line Enqueue n Enqueue_end @
      (if rq_tail (simple_sch s) = 0 then name_line Push_empty n Push_empty_end else name_line Push_tail n Push_tail_end))"
    unfolding slog_task_init_def Let_def
    by (rule writes_then_map [OF slog_sched_ready_enqueue_writes [OF assms(1) n], unfolded tail])
qed

lemma task_init_tail: "rq_tail (simple_sch (task_init t tid name entry kstk ustk sz s)) = t"
  by (simp add: task_init_def simple_sched_ready_enqueue_def rq_push_def Let_def)

lemma simple_timer_tail: "rq_tail (simple_timer_init_1khz (simple_gic_init s)) = rq_tail s"
  by (simp add: simple_timer_init_1khz_def enable_cntv_def simple_set_cntv_def read_cntfrq_def msr_cntv_tval_def
      simple_gic_init_def w32_def)

lemma slog_kmain_writes:
  assumes "boot_printer_ok p" and "cstring (strings p) (name_A im) a" and "cstring (strings p) (name_B im) b"
    and "rq_tail (simple_sch s) = 0" and "T0 im \<noteq> 0"
  shows "writes phys_out (slog_kmain p im s) (simple_kmain im s) (boot_log a b)"
proof -
  have ok: "simple_printer_ok p" "phys_live (port p)" using assms(1) by (simp_all add: boot_printer_ok_def simple_printer_ok_def)
  note boot = slog_boot_writes [OF assms(1)]
  let ?s0 = "s\<lparr>simple_sch := simple_timer_init_1khz (simple_gic_init (simple_sch s))\<rparr>"
  let ?s1 = "task_init (T0 im) 0 (name_A im) (user_loop im) (kstack0 im) (ustack0 im) STK_SZ ?s0"
  have tails: "rq_tail (simple_sch ?s0) = 0" "rq_tail (simple_sch ?s1) \<noteq> 0"
    using assms(4,5) by (simp_all add: simple_timer_tail task_init_tail)
  note A = slog_task_init_writes [OF ok(1) assms(2), of "T0 im" 0 "user_loop im" "kstack0 im" "ustack0 im" STK_SZ ?s0, unfolded tails(1)]
  note B = slog_task_init_writes [OF ok(1) assms(3), of "T1 im" 1 "user_loop2 im" "kstack1 im" "ustack1 im" STK_SZ ?s1]
  have "\<exists>y. writes phys_out (slog_kmain p im s) y ([] @ bytes_of (boot_literal Kernel_starting) @
      bytes_of (boot_literal Timer_ready) @ (name_line Enqueue a Enqueue_end @ name_line Push_empty a Push_empty_end) @
      (name_line Enqueue b Enqueue_end @ name_line Push_tail b Push_tail_end) @ bytes_of (boot_literal Tasks_created) @
      bytes_of (boot_literal Enable_irqs) @ bytes_of (boot_literal Enter_first) @ [])"
    unfolding slog_kmain_def Let_def
    by (rule exI, rule writes_and_then [OF slog_init_writes [OF ok(2)]], rule writes_and_then [OF boot],
        rule writes_and_then [OF boot], rule writes_and_then, use A in simp, rule writes_and_then, use B tails(2) in simp,
        rule writes_and_then [OF boot], rule writes_and_then [OF boot], rule writes_and_then [OF boot], rule writes_ret)
  then obtain y where "writes phys_out (slog_kmain p im s) y (boot_log a b)" by (auto simp: boot_log_def)
  then show ?thesis by (rule writes_value [OF _ slog_kmain_yields])
qed

lemma task_init_names:
  "task_name (tasks (simple_sch (task_init t tid name entry kstk ustk sz s)) u) =
     (if u = t then name else task_name (tasks (simple_sch s) u))"
  by (simp add: task_init_def simple_sched_ready_enqueue_def Let_def)

lemma simple_kmain_names:
  assumes "T0 im \<noteq> T1 im"
  shows "task_name (tasks (simple_sch (snd (simple_kmain im s))) (T0 im)) = name_A im"
    "task_name (tasks (simple_sch (snd (simple_kmain im s))) (T1 im)) = name_B im"
  using assms by (simp_all add: simple_kmain_def Let_def sched_set_current_def task_init_names)

section \<open>Properties\<close>


section \<open>The property at a concrete image\<close>

text \<open>The strings of \<open>rom\<close>, the name \<open>B\<close>, and those of \<open>kmain\<close> from \<open>0x20000\<close> on.\<close>

primrec boot_slot :: "boot_message \<Rightarrow> u64" where
  "boot_slot Kernel_starting = 0x20000"
| "boot_slot Timer_ready = 0x20040"
| "boot_slot Tasks_created = 0x20080"
| "boot_slot Enable_irqs = 0x200C0"
| "boot_slot Enter_first = 0x20100"

definition boot_texts :: "(u64 \<times> u8 list) list" where
  "boot_texts = (0x10002, bytes_of ''B'') #
     map (\<lambda>m. (boot_slot m, bytes_of (boot_literal m))) [Kernel_starting, Timer_ready, Tasks_created, Enable_irqs, Enter_first]"

definition boot_rom :: "u64 \<Rightarrow> u8" where
  "boot_rom = fold (\<lambda>(a, t) m x. if unat (x - a) < length t then t ! unat (x - a) else m x) boot_texts rom"

lemma boot_rom_boot: "cstring boot_rom (boot_slot m) (bytes_of (boot_literal m))"
  by (cases m) (simp_all add: boot_rom_def boot_texts_def bytes_of_def rom_def)

lemma boot_rom_names: "cstring boot_rom 0x10000 [65]" "cstring boot_rom 0x10002 [66]"
  by (simp_all add: boot_rom_def boot_texts_def bytes_of_def rom_def unsigned_minus_1_eq_mask mask_eq_exp_minus_1)

lemma boot_rom_rom: "unat x < 4096 \<Longrightarrow> boot_rom x = rom x"
  by (simp add: boot_rom_def boot_texts_def bytes_of_def unat_sub_if' word_le_nat_alt)

definition boot_rom_printer :: simple_printer where
  "boot_rom_printer = \<lparr>port = phys_device ready_uart, strings = boot_rom, address_of = (\<lambda>m. of_nat (128 * slot m)),
     boot_address_of = boot_slot\<rparr>"

lemma boot_rom_printer_ok: "boot_printer_ok boot_rom_printer"
proof -
  have "cstring boot_rom (of_nat (128 * slot m)) (bytes_of (literal m))" for m
  proof -
    have r: "cstring rom (of_nat (128 * slot m)) (bytes_of (literal m))"
      using rom_printer_strings [of ready_uart m] by (simp add: rom_printer_def)
    have same: "boot_rom (of_nat (128 * slot m) + of_nat i) = rom (of_nat (128 * slot m) + of_nat i)" if "i < 128" for i
    proof (rule boot_rom_rom)
      have "of_nat (128 * slot m) + of_nat i = (of_nat (128 * slot m + i) :: u64)" by simp
      moreover have "128 * slot m + i < 4096" using that rom_texts(2) [of m] by simp
      ultimately show "unat (of_nat (128 * slot m) + of_nat i :: u64) < 4096"
        by (simp add: unsigned_of_nat take_bit_nat_eq_self del: of_nat_add of_nat_mult)
    qed
    show ?thesis
    proof (rule cstringI)
      fix i assume "i < length (bytes_of (literal m))"
      then show "boot_rom (of_nat (128 * slot m) + of_nat i) = bytes_of (literal m) ! i"
        using same [of i] cstring_nth [OF r, of i] rom_text_ok(1) [of m] by simp
    next
      show "boot_rom (of_nat (128 * slot m) + of_nat (length (bytes_of (literal m)))) = 0"
        using same [OF rom_text_ok(1)] cstring_nth [OF r, of "length (bytes_of (literal m))"] by simp
    qed (rule rom_text_ok)
  qed
  then show ?thesis
    using boot_rom_boot ready_uart_live
    by (auto simp: boot_rom_printer_def boot_printer_ok_def simple_printer_ok_def phys_live_def)
qed


end
