(* ===== verification/Spec2Isabelle.thy ===== *)
theory Spec2Isabelle
  imports Prelude Bitmap PageTable Kmalloc UserMap Mmio Irq Sched Spinlock Uart Dtb VirtioBlk BlockDriver
    Handlers Vectors Fuzz Boot System Runtime
    SimpleSched SimpleMmu SimpleBoot
    Start PhysUart Exceptions Interrupts LogSched Typing HostTools UserPrograms Traps Reset Nested
    Simulation EarlierDrivers EarlierAlloc SerialLog LogSimple
begin

text \<open>
  A verification library for the kernel of this repository (\<^verbatim>\<open>src/kernel\<close>, C and AArch64 assembly),
  for the earlier kernels beside it (\<^verbatim>\<open>src/kernel-simple-scheduler\<close>, \<^verbatim>\<open>src/kernel-simple-mmu\<close>,
  \<^verbatim>\<open>src/kernel-interrupts\<close>, \<^verbatim>\<open>src/kernel-boot-minimal\<close>) where their code differs, for the fuzzer of
  netdevsim (\<^verbatim>\<open>src/fuzzing\<close>) and for the programs on the host that accompany the kernel.

  \<^bold>\<open>The program.\<close>  The kernel boots on one AArch64 processor of the virt machine of QEMU.  The start code
  zeroes \<^verbatim>\<open>.bss\<close>, calls \<open>mmu_init\<close>, which builds the translation tables, and goes on
  at virtual addresses; \<open>kmain\<close> initialises the serial port, the interrupt controller and the timer, sets up the bitmap of physical pages, looks for a virtio block device and tries it
  with one write and one read, makes two user tasks and enters the first.  From then on the
  timer interrupt switches between the tasks, and the tasks make system calls that write to the
  disk.  The calls go downward: \<open>init_task\<close> and the block driver call \<open>kmalloc\<close>, which calls the
  bitmap and the table code; the vectors call \<open>irq_dispatcher\<close> and \<open>syscall_dispatcher\<close>, which call
  the scheduler and the block driver; the block driver takes the spin lock and drives the virtio
  registers.

  \<^bold>\<open>Theories.\<close>  Each holds the definitions of one component, its lemmas, its properties (marked
  with their number) and, at its end, the properties applied to concrete states.
  \<^item> \<open>Prelude\<close>: lists, fixed width words, pages and stores; the collections of simplification rules.
  \<^item> \<open>Simulation\<close>: runs as sequences of events; the locales \<open>forward_simulation\<close> and \<open>budgeted_simulation\<close> lift what holds of one
    event to runs, in \<open>Sched\<close> (ticks), \<open>Runtime\<close> (pages of the pool) and \<open>Traps\<close> (frames on the stacks).
  \<^item> \<open>Bitmap\<close> (\<^verbatim>\<open>core/mmu.c\<close>: \<open>check_free\<close> to \<open>free_pages\<close>): the bitmap as a function from byte
    index to byte, results and errors as sums.  The abstraction is the set of pages in use; the
    allocator is a bump allocator over it.
  \<^item> \<open>PageTable\<close> (\<open>mmu_init\<close>, the descriptors, \<open>add_virtio_page\<close>): memory of table entries as a map
    from addresses to 64 bit words, and \<open>walk\<close>, the translation the hardware makes of it.
  \<^item> \<open>Kmalloc\<close> (\<open>mem_block\<close>, \<open>init_bitmap\<close>, \<open>map_pagetable_entry\<close>, \<open>kmalloc\<close>): the locale
    \<open>page_allocator\<close> is the contract its clients rely on, interpreted on \<open>kmalloc\<close>.
  \<^item> \<open>UserMap\<close> (\<open>map_user_to_physical\<close>, \<open>map_user_to_physical_test\<close>): the tables of the two programs.
  \<^item> \<open>Mmio\<close>: reads and writes of device registers, as a history; the device is any function of it.
  \<^item> \<open>Irq\<close> (\<^verbatim>\<open>drivers/irq/gicv2.c\<close>, \<^verbatim>\<open>scheduler/timer.c\<close>), \<open>Sched\<close> (\<^verbatim>\<open>scheduler/sched.c\<close>, \<^verbatim>\<open>context.h\<close>,
    \<^verbatim>\<open>sched.h\<close>): tasks by address, the run queue as the chain of their \<open>next\<close> pointers (\<open>rq_rep\<close>
    relates it to a list), and the abstract round robin that a tick refines.
  \<^item> \<open>Spinlock\<close> (\<^verbatim>\<open>core/spinlock.c\<close>): one processor, with the outcome of each exclusive store as a
    parameter, and any number of processors as an interleaving of instructions.
  \<^item> \<open>Uart\<close> (\<^verbatim>\<open>drivers/char/uart.c\<close>): polling loops that may not end are partial functions.
  \<^item> \<open>Dtb\<close> (\<^verbatim>\<open>core/dtd.c\<close>): the two scans of the flattened device tree, against a datatype of well
    formed trees.
  \<^item> \<open>VirtioBlk\<close> (\<^verbatim>\<open>drivers/virtio_blk\<close>), \<open>BlockDriver\<close> (\<^verbatim>\<open>drivers/block\<close>): the register protocol, and the
    requests with their descriptors, rings, slots and lock.
  \<^item> \<open>Handlers\<close> (\<^verbatim>\<open>core/handlers.c\<close>), \<open>Vectors\<close> (\<^verbatim>\<open>arch/aarch64/vectors.s\<close>): the dispatchers, and the
    entry and exit code instruction by instruction, on registers and a memory of words.
  \<^item> \<open>Boot\<close> (\<^verbatim>\<open>core/kmain.c\<close>): \<open>init_task\<close> and \<open>kmain\<close> over the states of all components.
  \<^item> \<open>System\<close>: the vectors, the dispatcher and the scheduler together with arbitrary programs; it
    refines a ring of tasks with one context each, and \<open>kmain\<close> establishes the relation.
  \<^item> \<open>Runtime\<close>: runs of the kernel after \<open>kmain\<close> as sequences of timer interrupts and system calls
    over the state \<open>kmain\<close> leaves, with an abstract kernel that counts pages and rotates the ring.
  \<^item> \<open>SimpleSched\<close> (\<^verbatim>\<open>kernel-simple-scheduler\<close>: \<^verbatim>\<open>sched.c\<close>, the context switch and the vectors; the
    \<open>el1_irq\<close> of \<^verbatim>\<open>kernel-interrupts\<close>): the scheduler that switches stacks inside the interrupt,
    related to the same ring.
  \<^item> \<open>SimpleMmu\<close> (\<^verbatim>\<open>kernel-simple-mmu/core/mmu.c\<close>): the earlier allocator and tables, compared with
    those of \<open>Kmalloc\<close> and \<open>PageTable\<close>.
  \<^item> \<open>SimpleBoot\<close> (the \<open>kmain\<close>, handlers and system call vector of the same kernel): its boot over the
    definitions of \<open>SimpleMmu\<close> and \<open>Sched\<close>, and its system calls, which are never served.
  \<^item> \<open>Start\<close> (the \<^verbatim>\<open>start.s\<close> of every kernel): the boot code instruction by instruction up to the call of
    \<open>kmain\<close>, what the C functions leave in the registers being a parameter, and the loader of
    \<^verbatim>\<open>kernel-boot-minimal\<close>, which copies its kernel to the load address.
  \<^item> \<open>PhysUart\<close> (\<^verbatim>\<open>drivers/char/uart.c\<close> of the kernels that run without tables, \<^verbatim>\<open>kernel-boot-minimal/kernel.s\<close>):
    the serial driver at its physical address, related to that of \<open>Uart\<close>.
  \<^item> \<open>Exceptions\<close> (the tables of \<^verbatim>\<open>vectors.s\<close>, and those and the handlers of \<^verbatim>\<open>kernel-simple-scheduler\<close>):
    exceptions of every kind and level, dispatched by address to the code of \<open>Vectors\<close>.
  \<^item> \<open>Interrupts\<close> (\<^verbatim>\<open>kernel-interrupts\<close>): \<open>kmain\<close>, handlers with their output, vectors and the busy program,
    and its runs as an inductive relation over instructions and interrupts.
  \<^item> \<open>LogSched\<close> (\<^verbatim>\<open>kernel-simple-mmu\<close>: \<^verbatim>\<open>sched.c\<close>, \<^verbatim>\<open>timer.c\<close>, \<open>irq_dispatcher\<close>): the scheduler with its output, as
    partial functions that may poll for ever.
  \<^item> \<open>Typing\<close>: a level for every table, and the discipline that \<open>mmu_init\<close>, every allocation and every
    mapping keep.
  \<^item> \<open>HostTools\<close> (\<^verbatim>\<open>kernel/test.c\<close>, \<^verbatim>\<open>kernel/core/test.c\<close>): the printer of words in binary, the value of
    \<open>TCR_EL1\<close> and the test of the bitmap.
  \<^item> \<open>UserPrograms\<close> (\<open>sys_write\<close> of \<^verbatim>\<open>core/kmain.c\<close>, \<^verbatim>\<open>user.c\<close> of \<^verbatim>\<open>kernel-simple-scheduler\<close>): code on EL0; the
    registers of the inline assembly are a parameter.
  \<^item> \<open>Traps\<close>: \<open>System\<close> under every kind of exception, each through the table of \<open>Exceptions\<close>, with the frames
    that faults leave on the kernel stacks; from \<open>kmain\<close> on up to 14 faults fit.
  \<^item> \<open>Reset\<close>: \<open>Start\<close>, \<open>Dtb\<close> and \<open>Boot\<close> composed with \<open>Traps\<close>, from reset on: the variables \<open>kmain\<close> finds are what the
    start code leaves in memory at their link addresses.
  \<^item> \<open>EarlierDrivers\<close>, \<open>EarlierAlloc\<close> (the drivers, the device tree scan, the bitmap and the descriptors of the earlier kernels and of
    the host program): the copies of code of the present kernel, translated from their own files and shown equal to it.
  \<^item> \<open>SerialLog\<close>: code that prints while it computes; the locales \<open>serial_log\<close> and \<open>message_log\<close> are the way of printing it relies on,
    interpreted on \<open>LogSched\<close> and on \<open>LogSimple\<close> (\<^verbatim>\<open>kernel-simple-scheduler\<close>: its scheduler and \<open>kmain\<close> with their output).
  \<^item> \<open>Nested\<close>: timer interrupts inside a system call, after \<open>spin_unlock_with_mask\<close> has enabled them, on the
    kernel stack of the call.
  \<^item> \<open>Fuzz\<close> (\<^verbatim>\<open>fuzzing/fuzz_nsim.c\<close>): the fuzzer as a function from the input to the actions of its two
    threads; a trace of the system is any interleaving of them.

  \<^bold>\<open>What is shown.\<close>  For every component its functional behaviour, with errors as values; for the
  allocator that blocks are disjoint, mapped and never handed out twice while the pool of 512
  pages lasts, and what goes wrong beyond it; for the tables the exact translation of every
  address; for the scheduler the refinement of round robin and, together with the vectors, that
  every task computes on its own registers however interrupts, system calls and faults fall; for the lock mutual
  exclusion; for the drivers the register protocol and that requests complete, or do not
  return when every slot is taken; for runs of interrupts and system calls that the invariants of
  both components last; for the earlier kernels that a tick, an allocation and a boot agree with
  the definitions of the kernel or where they differ, and that one of them serves no system call;
  for the start code that it reaches \<open>kmain\<close> when the size of \<^verbatim>\<open>.bss\<close> is a multiple of eight, and does not
  return otherwise; for the tables that every entry leads to a table of the next level; for the
  exceptions where each of them resumes; for \<^verbatim>\<open>kernel-interrupts\<close> that its program survives every
  interrupt, and why only that program does; for the programs what they print and what a system
  call gives them; for \<^verbatim>\<open>kernel-simple-scheduler\<close> every byte its log prints from boot on; for the fuzzer the shape of its sequences and traces.
  Several properties state a defect of the code as it behaves; their text says so.

  \<^bold>\<open>Parameters.\<close>  Devices are functions of the history of the bus, the exclusive stores and the
  completion of requests are oracles, and what RAM and the device tree hold at boot is
  arbitrary; addresses that the linker chooses are arguments.  The hypotheses on them
  (\<open>device_completes\<close>, \<open>stores_succeed\<close>, a live serial port) are named, and every property that has
  one is also applied to a concrete device.  Loops are structural where the C loop is bounded
  (512 or 640 table entries, 16385 bytes of bitmap, 12 slots, 10 pages), otherwise partial
  functions whose value \<open>None\<close> is a run that does not return; no fuel is used.

  \<^bold>\<open>Not modelled.\<close>  Caches, barriers and TLB maintenance (the model is sequentially consistent); the
  text of the log of the present kernel (\<open>uart_printf\<close> itself is modelled, and the dispatchers leave out
  its calls; the output of the schedulers and handlers of the earlier kernels is modelled in
  \<open>Interrupts\<close>, \<open>LogSched\<close> and \<open>LogSimple\<close>); the linker script and the build, which contain no logic of their own;
  \<^verbatim>\<open>syscall.c\<close>, which is commented out, and \<^verbatim>\<open>file.h\<close>, which is included nowhere and does not compile;
  the image writer in Python and the sketch in Rust beside the host programs.  The structures and register names
  that the earlier kernels declare again (\<^verbatim>\<open>sched.h\<close>, \<^verbatim>\<open>context.h\<close>, \<^verbatim>\<open>mmu.h\<close>) are the types of the present kernel, and the host
  programs of \<^verbatim>\<open>kernel-simple-mmu\<close> are the same files as those of the present kernel.  Timer
  interrupts that fall into \<open>kmain\<close> are not modelled: they return to the interrupted code (see \<open>Handlers\<close>), and
  \<open>kmain\<close> is a sequential function here; in \<^verbatim>\<open>kernel-interrupts\<close> those between the unmasking in \<open>kmain\<close> and
  the entry of the program are left out.
\<close>

end
